(* ===== verification/Prelude.thy ===== *)
theory Prelude
  imports Main "HOL-Library.Word"
begin

text \<open>
  Shared vocabulary of the development: machine integers, the result type of fallible
  Rust functions and its sequencing combinators, and generic lemmas on lists that several
  components use.

  A Rust function returning \<^verbatim>\<open>Result<T, E>\<close> is a function into \<open>'e + 't\<close>: \<open>Inl\<close> is
  \<^verbatim>\<open>Err\<close>, \<open>Inr\<close> is \<^verbatim>\<open>Ok\<close>, and the \<^verbatim>\<open>?\<close> operator is \<open>bind_res\<close>.
\<close>

section \<open>Machine integers\<close>

type_synonym u8 = "8 word"
type_synonym u16 = "16 word"
type_synonym u32 = "32 word"
type_synonym u64 = "64 word"

named_theorems res_simps \<open>unfolding of the result combinators\<close>

section \<open>Fallible computations\<close>

definition bind_res :: "'e + 'a \<Rightarrow> ('a \<Rightarrow> 'e + 'b) \<Rightarrow> 'e + 'b" where
  "bind_res r f = (case r of Inl e \<Rightarrow> Inl e | Inr x \<Rightarrow> f x)"

lemma bind_res_Inl [simp]: "bind_res (Inl e) f = Inl e"
  by (simp add: bind_res_def)

lemma bind_res_Inr [simp]: "bind_res (Inr x) f = f x"
  by (simp add: bind_res_def)

lemma bind_res_eq_Inr [simp]:
  "bind_res r f = Inr y \<longleftrightarrow> (\<exists>x. r = Inr x \<and> f x = Inr y)"
  by (cases r) auto

lemma case_prod_eq_Inr [simp]:
  "(case p of (a, b) \<Rightarrow> f a b) = Inr y \<longleftrightarrow> (\<exists>a b. p = (a, b) \<and> f a b = Inr y)"
  by (cases p) simp

lemma bind_res_eq_Inl:
  "bind_res r f = Inl e \<longleftrightarrow> r = Inl e \<or> (\<exists>x. r = Inr x \<and> f x = Inl e)"
  by (cases r) auto

lemma bind_res_assoc: "bind_res (bind_res r f) g = bind_res r (\<lambda>x. bind_res (f x) g)"
  by (cases r) simp_all

lemma bind_res_cong [fundef_cong]:
  "r = r' \<Longrightarrow> (\<And>x. r' = Inr x \<Longrightarrow> f x = g x) \<Longrightarrow> bind_res r f = bind_res r' g"
  by (cases r') auto

text \<open>
  \<open>fold_res f xs s\<close> is the loop \<^verbatim>\<open>for x in xs { f(x, &mut s)?; }\<close>: it stops at the first
  error.
\<close>

fun fold_res :: "('a \<Rightarrow> 's \<Rightarrow> 'e + 's) \<Rightarrow> 'a list \<Rightarrow> 's \<Rightarrow> 'e + 's" where
  "fold_res f [] s = Inr s"
| "fold_res f (x # xs) s = bind_res (f x s) (fold_res f xs)"

lemma fold_res_cong [fundef_cong]:
  "xs = ys \<Longrightarrow> s = t \<Longrightarrow> (\<And>x s. x \<in> set ys \<Longrightarrow> f x s = g x s) \<Longrightarrow> fold_res f xs s = fold_res g ys t"
proof (induction ys arbitrary: xs s t)
  case (Cons y ys)
  have "fold_res f ys = fold_res g ys"
    by (rule ext, rule Cons.IH) (auto intro: Cons.prems)
  with Cons.prems show ?case by simp
qed simp

text \<open>An invariant that every iteration keeps is kept by the loop.\<close>

lemma fold_res_inv:
  assumes "fold_res f xs s = Inr t"
    and "P s"
    and "\<And>x s s'. x \<in> set xs \<Longrightarrow> P s \<Longrightarrow> f x s = Inr s' \<Longrightarrow> P s'"
  shows "P t"
  using assms
proof (induction xs arbitrary: s)
  case (Cons x xs)
  from Cons.prems(1) obtain s' where s': "f x s = Inr s'" "fold_res f xs s' = Inr t"
    by auto
  then have "P s'" using Cons.prems(2,3) by auto
  with s'(2) show ?case using Cons.IH Cons.prems(3) by auto
qed simp

text \<open>A reflexive and transitive relation that every iteration respects relates the ends.\<close>

lemma fold_res_rel:
  assumes "fold_res f xs s = Inr t"
    and refl: "\<And>s. R s s"
    and trans: "\<And>a b c. R a b \<Longrightarrow> R b c \<Longrightarrow> R a c"
    and step: "\<And>x s s'. x \<in> set xs \<Longrightarrow> f x s = Inr s' \<Longrightarrow> R s s'"
  shows "R s t"
proof -
  have "R s t" if "fold_res f ys s' = Inr t" "R s s'" "set ys \<subseteq> set xs" for ys s'
    using that
  proof (induction ys arbitrary: s')
    case (Cons y ys)
    from Cons.prems obtain s'' where "f y s' = Inr s''" "fold_res f ys s'' = Inr t" by auto
    moreover from this Cons.prems have "R s s''" by (auto intro: trans step)
    ultimately show ?case using Cons.IH Cons.prems by auto
  qed simp
  from this [OF assms(1) refl] show ?thesis by simp
qed

section \<open>Vectors used as stacks\<close>

text \<open>
  \<^verbatim>\<open>xs.iter_mut().rev().find(|x| p(x))\<close> followed by an update: the last element that
  satisfies \<open>p\<close> is updated, \<open>None\<close> when there is none.
\<close>

fun update_last_match :: "('a \<Rightarrow> bool) \<Rightarrow> ('a \<Rightarrow> 'a) \<Rightarrow> 'a list \<Rightarrow> 'a list option" where
  "update_last_match p f [] = None"
| "update_last_match p f (x # xs) =
     (case update_last_match p f xs of
        Some ys \<Rightarrow> Some (x # ys)
      | None \<Rightarrow> if p x then Some (f x # xs) else None)"

text \<open>\<^verbatim>\<open>xs.iter().rev().find(|x| p(x))\<close>.\<close>

definition find_last :: "('a \<Rightarrow> bool) \<Rightarrow> 'a list \<Rightarrow> 'a option" where
  "find_last p xs = List.find p (rev xs)"

lemma find_last_Some: "find_last p xs = Some x \<Longrightarrow> x \<in> set xs \<and> p x"
  unfolding find_last_def by (metis find_Some_iff nth_mem set_rev)

lemma update_last_match_length:
  "update_last_match p f xs = Some ys \<Longrightarrow> length ys = length xs"
  by (induction xs arbitrary: ys) (auto split: option.splits if_splits)

lemma update_last_match_None:
  "update_last_match p f xs = None \<longleftrightarrow> (\<forall>x\<in>set xs. \<not> p x)"
  by (induction xs) (auto split: option.splits)

lemma update_last_match_Some:
  "update_last_match p f xs = Some ys \<Longrightarrow>
     \<exists>k < length xs. p (xs ! k) \<and> ys = xs[k := f (xs ! k)]"
proof (induction xs arbitrary: ys)
  case (Cons x xs)
  show ?case
  proof (cases "update_last_match p f xs")
    case None
    with Cons.prems show ?thesis by (auto split: if_splits intro: exI [of _ 0])
  next
    case (Some zs)
    with Cons obtain k where "k < length xs" "p (xs ! k)" "zs = xs[k := f (xs ! k)]" by auto
    with Some Cons.prems show ?thesis by (auto intro!: exI [of _ "Suc k"])
  qed
qed simp

section \<open>Numbers as text\<close>

text \<open>\<^verbatim>\<open>format!("{}", n)\<close> for an unsigned integer.\<close>

function show_nat :: "nat \<Rightarrow> string" where
  "show_nat n = (if n < 10 then [char_of (48 + n)]
                 else show_nat (n div 10) @ [char_of (48 + n mod 10)])"
  by pat_completeness auto
termination
  by (relation "measure (\<lambda>n. n)") auto

declare show_nat.simps [simp del]

lemma show_nat_ne [simp]: "show_nat n \<noteq> []"
  by (subst show_nat.simps) simp

definition show_int :: "int \<Rightarrow> string" where
  "show_int i = (if i < 0 then ''-'' @ show_nat (nat (- i)) else show_nat (nat i))"

text \<open>Big-endian bytes of a u16 and a u32, and the way back.\<close>

definition be16 :: "u16 \<Rightarrow> u8 list" where
  "be16 v = [ucast (drop_bit 8 v), ucast v]"

definition be32 :: "u32 \<Rightarrow> u8 list" where
  "be32 v = [ucast (drop_bit 24 v), ucast (drop_bit 16 v), ucast (drop_bit 8 v), ucast v]"

lemma length_be16 [simp]: "length (be16 v) = 2"
  by (simp add: be16_def)

lemma length_be32 [simp]: "length (be32 v) = 4"
  by (simp add: be32_def)

lemma unat_of_nat_small [simp]: "n < 2 ^ LENGTH('a) \<Longrightarrow> unat (of_nat n :: 'a::len word) = n"
  by (simp add: unat_of_nat take_bit_nat_eq_self)

end
