(* ===== verification/Rust_Str.thy ===== *)
theory Rust_Str
  imports Prelude
begin

text \<open>
  Rust's \<^verbatim>\<open>String\<close> is a sequence of UTF-8 bytes and so is Isabelle's \<open>string\<close> here: a
  \<open>char\<close> is one byte. Lengths, slices, prefix tests and comparisons are therefore exact
  on bytes; the operations that look at Unicode scalar values (\<^verbatim>\<open>chars\<close>, \<^verbatim>\<open>trim\<close>,
  \<^verbatim>\<open>split_whitespace\<close>) go through \<open>chars_of\<close>, which splits a byte sequence into the
  encodings of its scalar values. Slicing at a byte that is not a character boundary
  panics in Rust: \<open>str_slice\<close> is \<open>None\<close> there.
\<close>

section \<open>Scalar values\<close>

definition is_cont :: "char \<Rightarrow> bool" where
  "is_cont c \<longleftrightarrow> (let n = (of_char c :: nat) in 128 \<le> n \<and> n < 192)"

function chars_of :: "string \<Rightarrow> string list" where
  "chars_of [] = []"
| "chars_of (b # bs) = (b # takeWhile is_cont bs) # chars_of (dropWhile is_cont bs)"
  by pat_completeness auto
termination
  by (relation "measure length") (auto simp: le_imp_less_Suc length_dropWhile_le)

lemma concat_chars_of [simp]: "concat (chars_of s) = s"
  by (induction s rule: chars_of.induct) auto

lemma chars_of_ne: "c \<in> set (chars_of s) \<Longrightarrow> c \<noteq> []"
  by (induction s rule: chars_of.induct) auto

lemma length_chars_of_le: "length (chars_of s) \<le> length s"
proof (induction s rule: chars_of.induct)
  case (2 b bs)
  then show ?case using length_dropWhile_le [of is_cont bs] by simp
qed simp

lemma chars_of_ascii:
  "\<forall>c\<in>set s. \<not> is_cont c \<Longrightarrow> chars_of s = map (\<lambda>c. [c]) s"
proof (induction s)
  case (Cons a s)
  have "takeWhile is_cont s = []" and "dropWhile is_cont s = s"
    using Cons.prems by (cases s; simp)+
  with Cons show ?case by simp
qed simp

text \<open>The encodings of the scalar values with the property White\_Space.\<close>

definition ws_chars :: "string list" where
  "ws_chars =
     [[CHR 0x09], [CHR 0x0A], [CHR 0x0B], [CHR 0x0C], [CHR 0x0D], [CHR 0x20],
      [CHR 0xC2, CHR 0x85], [CHR 0xC2, CHR 0xA0], [CHR 0xE1, CHR 0x9A, CHR 0x80],
      [CHR 0xE2, CHR 0x80, CHR 0x80], [CHR 0xE2, CHR 0x80, CHR 0x81],
      [CHR 0xE2, CHR 0x80, CHR 0x82], [CHR 0xE2, CHR 0x80, CHR 0x83],
      [CHR 0xE2, CHR 0x80, CHR 0x84], [CHR 0xE2, CHR 0x80, CHR 0x85],
      [CHR 0xE2, CHR 0x80, CHR 0x86], [CHR 0xE2, CHR 0x80, CHR 0x87],
      [CHR 0xE2, CHR 0x80, CHR 0x88], [CHR 0xE2, CHR 0x80, CHR 0x89],
      [CHR 0xE2, CHR 0x80, CHR 0x8A], [CHR 0xE2, CHR 0x80, CHR 0xA8],
      [CHR 0xE2, CHR 0x80, CHR 0xA9], [CHR 0xE2, CHR 0x80, CHR 0xAF],
      [CHR 0xE2, CHR 0x81, CHR 0x9F], [CHR 0xE3, CHR 0x80, CHR 0x80]]"

definition is_ws :: "string \<Rightarrow> bool" where
  "is_ws c \<longleftrightarrow> c \<in> set ws_chars"

section \<open>Slices\<close>

definition is_char_boundary :: "string \<Rightarrow> nat \<Rightarrow> bool" where
  "is_char_boundary s i \<longleftrightarrow>
     i = 0 \<or> i = length s \<or> (i < length s \<and> \<not> is_cont (s ! i))"

text \<open>\<^verbatim>\<open>&s[i..j]\<close>; \<open>None\<close> is the panic.\<close>

definition str_slice :: "string \<Rightarrow> nat \<Rightarrow> nat \<Rightarrow> string option" where
  "str_slice s i j =
     (if i \<le> j \<and> j \<le> length s \<and> is_char_boundary s i \<and> is_char_boundary s j
      then Some (take (j - i) (drop i s)) else None)"

section \<open>Trimming, prefixes, search\<close>

definition trim_start :: "string \<Rightarrow> string" where
  "trim_start s = concat (dropWhile is_ws (chars_of s))"

definition trim :: "string \<Rightarrow> string" where
  "trim s = concat (rev (dropWhile is_ws (rev (dropWhile is_ws (chars_of s)))))"

definition starts_with :: "string \<Rightarrow> string \<Rightarrow> bool" where
  "starts_with s p \<longleftrightarrow> take (length p) s = p"

definition ends_with :: "string \<Rightarrow> string \<Rightarrow> bool" where
  "ends_with s p \<longleftrightarrow> length p \<le> length s \<and> drop (length s - length p) s = p"

definition strip_prefix :: "string \<Rightarrow> string \<Rightarrow> string option" where
  "strip_prefix s p = (if starts_with s p then Some (drop (length p) s) else None)"

fun contains :: "string \<Rightarrow> string \<Rightarrow> bool" where
  "contains [] p = (p = [])"
| "contains (c # s) p = (starts_with (c # s) p \<or> contains s p)"

definition to_ascii_lower_char :: "char \<Rightarrow> char" where
  "to_ascii_lower_char c =
     (let n = (of_char c :: nat) in if 65 \<le> n \<and> n \<le> 90 then char_of (n + 32) else c)"

definition to_ascii_lowercase :: "string \<Rightarrow> string" where
  "to_ascii_lowercase s = map to_ascii_lower_char s"

text \<open>\<^verbatim>\<open>parts.join(sep)\<close>.\<close>

fun join :: "string \<Rightarrow> string list \<Rightarrow> string" where
  "join sep [] = []"
| "join sep [x] = x"
| "join sep (x # y # xs) = x @ sep @ join sep (y # xs)"

text \<open>\<^verbatim>\<open>s.split_whitespace()\<close>: the maximal runs of characters that are not white space.\<close>

function split_runs :: "('a \<Rightarrow> bool) \<Rightarrow> 'a list \<Rightarrow> 'a list list" where
  "split_runs p xs =
     (case dropWhile p xs of
        [] \<Rightarrow> []
      | y # ys \<Rightarrow> (y # takeWhile (\<lambda>c. \<not> p c) ys) # split_runs p (dropWhile (\<lambda>c. \<not> p c) ys))"
  by pat_completeness auto
termination
proof (relation "measure (\<lambda>(p, xs). length xs)")
  fix p :: "'a \<Rightarrow> bool" and xs y ys
  assume eq: "dropWhile p xs = y # ys"
  have "length (dropWhile p xs) \<le> length xs" by (rule length_dropWhile_le)
  moreover have "length (dropWhile (\<lambda>c. \<not> p c) ys) \<le> length ys" by (rule length_dropWhile_le)
  ultimately show "((p, dropWhile (\<lambda>c. \<not> p c) ys), p, xs) \<in> measure (\<lambda>(p, xs). length xs)"
    using eq by simp
qed simp

declare split_runs.simps [simp del]

definition split_whitespace :: "string \<Rightarrow> string list" where
  "split_whitespace s = map concat (split_runs is_ws (chars_of s))"

lemma split_runs_ne: "r \<in> set (split_runs p xs) \<Longrightarrow> r \<noteq> [] \<and> (\<forall>c\<in>set r. \<not> p c)"
proof (induction p xs rule: split_runs.induct)
  case (1 p xs)
  show ?case
  proof (cases "dropWhile p xs")
    case Nil
    with "1.prems" show ?thesis by (simp add: split_runs.simps [of p xs])
  next
    case (Cons y ys)
    then have "\<not> p y" by (metis hd_dropWhile list.distinct(1) list.sel(1))
    have eq: "split_runs p xs =
        (y # takeWhile (\<lambda>c. \<not> p c) ys) # split_runs p (dropWhile (\<lambda>c. \<not> p c) ys)"
      by (subst split_runs.simps) (simp add: Cons)
    from "1.prems" consider "r = y # takeWhile (\<lambda>c. \<not> p c) ys"
      | "r \<in> set (split_runs p (dropWhile (\<lambda>c. \<not> p c) ys))"
      unfolding eq by auto
    then show ?thesis
    proof cases
      case 1
      with \<open>\<not> p y\<close> show ?thesis by (auto dest: set_takeWhileD)
    next
      case 2
      with "1.IH" [OF Cons] show ?thesis by blast
    qed
  qed
qed

end
