(* ===== verification/F64.thy ===== *)
theory F64
  imports Prelude
begin

unbundle bit_operations_syntax

text \<open>
  An \<^verbatim>\<open>f64\<close> is its 64 bits (IEEE 754 binary64): what \<^verbatim>\<open>to_bits\<close> returns. Classification,
  \<^verbatim>\<open>==\<close>, ordering, negation, truncation and the conversions from and to integers are
  defined on the bits. The exponent field is \<open>e\<close>, the mantissa field \<open>m\<close>; a finite value
  is \<open>f64_signif * 2 ^ (max e 1 - 1075)\<close> with the sign of the top bit.
\<close>

type_synonym f64 = "64 word"

section \<open>Fields and classification\<close>

definition f64_neg :: "f64 \<Rightarrow> bool" where
  "f64_neg x \<longleftrightarrow> 2 ^ 63 \<le> unat x"

definition f64_mag :: "f64 \<Rightarrow> nat" where
  "f64_mag x = unat x mod 2 ^ 63"

definition f64_exp :: "f64 \<Rightarrow> nat" where
  "f64_exp x = f64_mag x div 2 ^ 52"

definition f64_mant :: "f64 \<Rightarrow> nat" where
  "f64_mant x = f64_mag x mod 2 ^ 52"

definition is_nan :: "f64 \<Rightarrow> bool" where
  "is_nan x \<longleftrightarrow> f64_exp x = 2047 \<and> f64_mant x \<noteq> 0"

definition is_infinite :: "f64 \<Rightarrow> bool" where
  "is_infinite x \<longleftrightarrow> f64_exp x = 2047 \<and> f64_mant x = 0"

definition f64_zero :: f64 where "f64_zero = 0"
definition f64_neg_zero :: f64 where "f64_neg_zero = 0x8000000000000000"
definition f64_one :: f64 where "f64_one = 0x3FF0000000000000"

section \<open>Comparison\<close>

text \<open>Non-NaN values are ordered by the signed magnitude of their bits; both zeros are 0.\<close>

definition f64_key :: "f64 \<Rightarrow> int" where
  "f64_key x = (if f64_neg x then - int (f64_mag x) else int (f64_mag x))"

definition f64_eq :: "f64 \<Rightarrow> f64 \<Rightarrow> bool" where
  "f64_eq a b \<longleftrightarrow> \<not> is_nan a \<and> \<not> is_nan b \<and> f64_key a = f64_key b"

definition f64_lt :: "f64 \<Rightarrow> f64 \<Rightarrow> bool" where
  "f64_lt a b \<longleftrightarrow> \<not> is_nan a \<and> \<not> is_nan b \<and> f64_key a < f64_key b"

definition f64_opp :: "f64 \<Rightarrow> f64" where
  "f64_opp x = x XOR f64_neg_zero"

lemma f64_mag_neg: "unat x = (if f64_neg x then 2 ^ 63 else 0) + f64_mag x"
proof -
  have "unat x < 2 ^ 64" using unsigned_less [of x] by simp
  moreover have "unat x mod 2 ^ 63 = (if 2 ^ 63 \<le> unat x then unat x - 2 ^ 63 else unat x)"
    using calculation by (simp add: mod_if)
  ultimately show ?thesis
    unfolding f64_neg_def f64_mag_def by simp
qed

lemma f64_eq_refl [simp]: "f64_eq x x = (\<not> is_nan x)"
  by (simp add: f64_eq_def)

lemma f64_eq_sym: "f64_eq x y = f64_eq y x"
  by (auto simp: f64_eq_def)

lemma f64_eq_trans: "f64_eq x y \<Longrightarrow> f64_eq y z \<Longrightarrow> f64_eq x z"
  by (simp add: f64_eq_def)

text \<open>Equal non-NaN values have the same bits unless both are zeros.\<close>

lemma f64_eq_iff:
  "f64_eq a b \<longleftrightarrow> \<not> is_nan a \<and> \<not> is_nan b \<and> (a = b \<or> (f64_mag a = 0 \<and> f64_mag b = 0))"
proof -
  have "a = b" if "f64_neg a = f64_neg b" "f64_mag a = f64_mag b"
  proof -
    have "unat a = unat b" using that f64_mag_neg [of a] f64_mag_neg [of b] by presburger
    then show ?thesis by (rule word_unat_eq_iff [THEN iffD2])
  qed
  then show ?thesis unfolding f64_eq_def f64_key_def by (auto split: if_splits)
qed

section \<open>Integers\<close>

definition f64_signif :: "f64 \<Rightarrow> nat" where
  "f64_signif x = (if f64_exp x = 0 then f64_mant x else 2 ^ 52 + f64_mant x)"

definition f64_scale :: "f64 \<Rightarrow> int" where
  "f64_scale x = int (max (f64_exp x) 1) - 1075"

text \<open>The magnitude of \<^verbatim>\<open>n.trunc()\<close> for a finite value, and whether it is the value itself.\<close>

definition f64_trunc_nat :: "f64 \<Rightarrow> nat" where
  "f64_trunc_nat x =
     (if f64_scale x \<ge> 0 then f64_signif x * 2 ^ nat (f64_scale x)
      else f64_signif x div 2 ^ nat (- f64_scale x))"

definition f64_is_integral :: "f64 \<Rightarrow> bool" where
  "f64_is_integral x \<longleftrightarrow>
     f64_scale x \<ge> 0 \<or> f64_signif x mod 2 ^ nat (- f64_scale x) = 0"

definition f64_trunc_int :: "f64 \<Rightarrow> int" where
  "f64_trunc_int x = (if f64_neg x then - int (f64_trunc_nat x) else int (f64_trunc_nat x))"

text \<open>\<^verbatim>\<open>n as i64\<close> saturates (NaN gives 0).\<close>

definition f64_as_i64 :: "f64 \<Rightarrow> int" where
  "f64_as_i64 x =
     (if is_nan x then 0
      else if is_infinite x then (if f64_neg x then - (2 ^ 63) else 2 ^ 63 - 1)
      else max (- (2 ^ 63)) (min (2 ^ 63 - 1) (f64_trunc_int x)))"

text \<open>
  \<^verbatim>\<open>n as f64\<close> for an unsigned integer: exact below \<open>2 ^ 53\<close>, rounded to the nearest
  (ties to even) above. \<open>bit_len n\<close> is the number of binary digits.
\<close>

function bit_len :: "nat \<Rightarrow> nat" where
  "bit_len n = (if n = 0 then 0 else Suc (bit_len (n div 2)))"
  by pat_completeness auto
termination
  by (relation "measure (\<lambda>n. n)") auto

declare bit_len.simps [simp del]

definition f64_of_nat :: "nat \<Rightarrow> f64" where
  "f64_of_nat n =
     (if n = 0 then 0
      else let k = bit_len n - 1 in
        if k \<le> 52 then of_nat ((k + 1023) * 2 ^ 52 + (n * 2 ^ (52 - k) - 2 ^ 52))
        else let d = 2 ^ (k - 52); q = n div d; r = n mod d;
                 q' = (if 2 * r > d \<or> (2 * r = d \<and> odd q) then Suc q else q)
             in of_nat ((k + 1023) * 2 ^ 52 + (q' - 2 ^ 52)))"

lemma f64_of_nat_0: "f64_of_nat 0 = f64_zero"
  by (simp add: f64_of_nat_def f64_zero_def)

lemma f64_of_nat_1: "f64_of_nat 1 = f64_one"
  by (simp add: f64_of_nat_def f64_one_def bit_len.simps Let_def)

end
