(* ===== verification/Gts_Ast.thy ===== *)
theory Gts_Ast
  imports F64
begin

text \<open>
  The abstract syntax of GTS (\<^verbatim>\<open>crates/night24-gts/src/ast/mod.rs\<close>). A Rust struct that is
  the payload of an enum variant becomes the argument list of the constructor, fields in
  the struct's order with the position first. Structs that hold expressions or statements
  but are not themselves variants (parameters, properties, match arms, patterns, class
  members, binding elements) are datatypes parametric in the expression type \<open>'e\<close> and the
  statement type \<open>'s\<close>, so that only \<open>expr\<close> and \<open>stmt\<close> are mutually recursive.
\<close>

section \<open>Positions and type annotations\<close>

record position =
  pos_file :: string
  pos_line :: nat
  pos_col :: nat
  pos_offset :: nat

definition default_pos :: position where
  "default_pos = \<lparr>pos_file = [], pos_line = 0, pos_col = 0, pos_offset = 0\<rparr>"

definition pos_is_zero :: "position \<Rightarrow> bool" where
  "pos_is_zero p \<longleftrightarrow> pos_line p = 0"

text \<open>\<^verbatim>\<open>impl Display for Position\<close>.\<close>

definition show_pos :: "position \<Rightarrow> string" where
  "show_pos p =
     (if pos_file p = [] then ''<source>'' else pos_file p)
     @ '':'' @ show_nat (pos_line p) @ '':'' @ show_nat (pos_col p)"

datatype type_kind = TkPrimitive | TkArray | TkUnion | TkObject | TkFunction

datatype type_annotation =
  TypeAnnotation (ta_kind: type_kind) (ta_name: string) (ta_array_of: "type_annotation option")
    (ta_union: "type_annotation list") (ta_optional: bool)

section \<open>Structs parametric in expressions and statements\<close>

datatype 's block = Block (block_pos: position) (block_statements: "'s list")

datatype 'e param =
  Param (param_pos: position) (param_name: string) (param_type: "type_annotation option")
    (param_default: "'e option") (param_spread: bool) (param_optional: bool)

datatype 'e property =
  Property (prop_pos: position) (prop_key: 'e) (prop_value: 'e) (prop_computed: bool)
    (prop_shorthand: bool) (prop_spread: bool) (prop_is_accessor: bool)

datatype 'e array_binding_elem =
  ArrayBindingElem (abe_name: string) (abe_default: "'e option") (abe_is_rest: bool)

datatype 'e object_binding_elem =
  ObjectBindingElem (obe_key: string) (obe_target: string) (obe_default: "'e option")

datatype 'e binding_pattern =
  BpArray "'e array_binding_elem list"
| BpObject "'e object_binding_elem list"

datatype 'e pattern =
  PLiteral position 'e
| PIdent position string
| PWildcard position
| POr position "'e pattern list"
| PRange position 'e 'e bool

datatype ('e, 's) match_body = MbExpr 'e | MbBlock "'s block"

datatype ('e, 's) match_arm =
  MatchArm (arm_pos: position) (arm_pattern: "'e pattern") (arm_binding_name: string)
    (arm_binding_pos: position) (arm_guard: "'e option") (arm_body: "('e, 's) match_body")

datatype ('e, 's) arrow_body = AbExpr 'e | AbBlock "'s block"

datatype 's catch_clause =
  CatchClause (catch_pos: position) (catch_name: string) (catch_type: "type_annotation option")
    (catch_body: "'s block")

datatype class_member_kind = CmMethod | CmField | CmConstructor

datatype ('e, 's) class_member =
  ClassMember (cm_pos: position) (cm_is_static: bool) (cm_is_async: bool) (cm_name: string)
    (cm_params: "'e param list") (cm_body: "'s block option") (cm_type: "type_annotation option")
    (cm_default_val: "'e option") (cm_kind: class_member_kind)

datatype ('e, 's) class_decl =
  ClassDecl (cd_pos: position) (cd_name: string) (cd_super: "'e option") (cd_body_pos: position)
    (cd_members: "('e, 's) class_member list")

datatype export_spec = ExportSpec (es_name: string) (es_alias: string)

section \<open>Expressions and statements\<close>

datatype (plugins only: code size) expr =
  EIdent position string
| ENumber position string f64 bool
| EString position string
| ETemplate position string
| ERegexp position string
| EBool position bool
| ENull position
| EUndefined position
| EThis position
| ESuper position string
| EArray position "expr list"
| EObject position "expr property list"
| EPrefix position string expr
| EInfix position string expr "expr option"
| ETernary position expr expr expr
| EAssign position string expr expr
| ECall position expr "expr list"
| EMember position expr expr bool
| EIndex position expr expr
| EOptional position expr expr bool bool "expr list"
| EFunc position string "expr param list" "type_annotation option" "stmt block" bool
| EArrow position "expr param list" "type_annotation option" "(expr, stmt) arrow_body" bool
| ENew position expr "expr list"
| EAwait position expr
| ESpread position expr
| EMatch position expr "(expr, stmt) match_arm list"
| EClass "(expr, stmt) class_decl"
| EDynamicImport position expr
and stmt =
  SLet position string "expr binding_pattern option" "type_annotation option" "expr option"
| SConst position string "expr binding_pattern option" "type_annotation option" "expr option"
| SVar position string "expr binding_pattern option" "type_annotation option" "expr option"
| SFuncDecl position string "expr param list" "type_annotation option" "stmt block" bool
| SClassDecl "(expr, stmt) class_decl"
| SBlock "stmt block"
| SIf position expr "stmt block" "stmt option"
| SWhile position expr "stmt block"
| SFor position "stmt option" "expr option" "expr option" "stmt block"
| SForIn position string expr "stmt block"
| SForOf position string expr "stmt block"
| SReturn position "expr option"
| SBreak position string
| SContinue position string
| SThrow position expr
| STry position "stmt block" "stmt catch_clause option" "stmt block option"
| SExpr position expr
| SLabeled position string stmt
| SImport position string string "string list" "(string \<times> string) list" string
| SExport position bool bool "stmt option" "export_spec list" string

type_synonym gstmt = stmt
type_synonym gblock = "stmt block"
type_synonym gparam = "expr param"
type_synonym gclass = "(expr, stmt) class_decl"

record program =
  prog_pos :: position
  prog_body :: "gstmt list"
  prog_errors :: "string list"

text \<open>\<^verbatim>\<open>Expr::pos\<close>.\<close>

fun expr_pos :: "expr \<Rightarrow> position" where
  "expr_pos (EIdent p _) = p"
| "expr_pos (ENumber p _ _ _) = p"
| "expr_pos (EString p _) = p"
| "expr_pos (ETemplate p _) = p"
| "expr_pos (ERegexp p _) = p"
| "expr_pos (EBool p _) = p"
| "expr_pos (ENull p) = p"
| "expr_pos (EUndefined p) = p"
| "expr_pos (EThis p) = p"
| "expr_pos (ESuper p _) = p"
| "expr_pos (EArray p _) = p"
| "expr_pos (EObject p _) = p"
| "expr_pos (EDynamicImport p _) = p"
| "expr_pos (EPrefix p _ _) = p"
| "expr_pos (EInfix p _ _ _) = p"
| "expr_pos (ETernary p _ _ _) = p"
| "expr_pos (EAssign p _ _ _) = p"
| "expr_pos (ECall p _ _) = p"
| "expr_pos (EMember p _ _ _) = p"
| "expr_pos (EIndex p _ _) = p"
| "expr_pos (EOptional p _ _ _ _ _) = p"
| "expr_pos (EFunc p _ _ _ _ _) = p"
| "expr_pos (EArrow p _ _ _ _) = p"
| "expr_pos (ENew p _ _) = p"
| "expr_pos (EAwait p _) = p"
| "expr_pos (ESpread p _) = p"
| "expr_pos (EMatch p _ _) = p"
| "expr_pos (EClass c) = cd_pos c"

fun is_spread :: "expr \<Rightarrow> bool" where
  "is_spread (ESpread _ _) = True"
| "is_spread _ = False"

section \<open>Sizes of the parts\<close>

text \<open>
  The parts of a node are smaller than the node, for every measure of the expressions and
  statements in it; the recursions over the syntax use this.
\<close>

lemma size_list_member: "x \<in> set xs \<Longrightarrow> f x \<le> size_list f xs"
  by (induction xs) auto

lemma part_block_statement: "s \<in> set (block_statements b) \<Longrightarrow> f s < size_block f b"
  by (cases b) (auto dest: size_list_member [where f = f])

lemma part_catch_statement:
  "s \<in> set (block_statements (catch_body ct)) \<Longrightarrow> f s < size_catch_clause f ct"
  using part_block_statement [of s "catch_body ct" f] by (cases ct) simp

lemma part_param_default: "param_default p = Some e \<Longrightarrow> f e < size_param f p"
  by (cases p) simp

lemma part_params_default:
  "p \<in> set ps \<Longrightarrow> param_default p = Some e \<Longrightarrow> f e < size_list (size_param f) ps"
  using size_list_member [of p ps "size_param f"] part_param_default [of p e f] by simp

lemma part_property: "f (prop_key p) < size_property f p" "f (prop_value p) < size_property f p"
  by (cases p; simp)+

lemma part_properties:
  assumes "p \<in> set ps"
  shows "f (prop_key p) < size_list (size_property f) ps"
    "f (prop_value p) < size_list (size_property f) ps"
  using size_list_member [OF assms, of "size_property f"] part_property [of f p] by simp_all

lemma part_arm:
  "size_pattern f (arm_pattern a) < size_match_arm f g a"
  "arm_guard a = Some x \<Longrightarrow> f x < size_match_arm f g a"
  "arm_body a = MbExpr e \<Longrightarrow> f e < size_match_arm f g a"
  "arm_body a = MbBlock b \<Longrightarrow> size_block g b < size_match_arm f g a"
  by (cases a; simp)+

lemma part_class:
  "cd_super d = Some e \<Longrightarrow> f e < size_class_decl f g d"
  "m \<in> set (cd_members d) \<Longrightarrow> size_class_member f g m < size_class_decl f g d"
  by (cases d; auto dest: size_list_member [where f = "size_class_member f g"])+

lemma part_member:
  "cm_default_val m = Some e \<Longrightarrow> f e < size_class_member f g m"
  "p \<in> set (cm_params m) \<Longrightarrow> param_default p = Some e \<Longrightarrow> f e < size_class_member f g m"
  "cm_body m = Some b \<Longrightarrow> size_block g b < size_class_member f g m"
  by (cases m; auto dest: part_params_default [where f = f])+

lemma size_pattern_alternative: "p \<in> set ps \<Longrightarrow> size_pattern f p \<le> size_pattern f (POr pos ps)"
  using size_list_member [of p ps "size_pattern f"] by simp

lemmas size_block_statement = part_block_statement [where f = size]
lemmas size_catch_statement = part_catch_statement [where f = size]
lemmas size_params_default = part_params_default [where f = size]
lemmas size_properties = part_properties [where f = size]
lemmas size_arm_parts = part_arm [where f = size and g = size]
lemmas size_class_parts = part_class [where f = size and g = size]
lemmas size_member_parts = part_member [where f = size and g = size]

end
