(* ===== verification/Gts_Object.thy ===== *)
theory Gts_Object
  imports Gts_Ast Rust_Str
begin

text \<open>
  Runtime values (\<^verbatim>\<open>crates/night24-gts/src/object/value.rs\<close>). A variant that holds an
  \<^verbatim>\<open>Rc\<close> is a variant with the address of the allocation: \<^verbatim>\<open>Rc::ptr_eq\<close> is equality of
  addresses. Error values carry their data: the code clones the data whenever it changes
  it. A regular expression is its source and flags (the compiled \<^verbatim>\<open>regex::Regex\<close> is a
  function of them).
\<close>

type_synonym addr = nat

datatype (plugins only: code size) obj =
  ONumber f64
| OString string
| OBoolean bool
| ONull
| OUndefined
| OArray addr
| OHash addr
| OFunction addr
| OBuiltin addr
| OClass addr
| OInstance addr
| OError (err_message: string) (err_name: string) (err_stack: string) (err_runtime: bool)
    (err_pos: position) (err_thrown: "obj option")
| OReturn obj
| OPromise addr
| ODate int
| ORegexp string string
| OMap addr
| OSet addr
| OClosure addr

section \<open>Classification\<close>

text \<open>\<^verbatim>\<open>Object::type_tag\<close>.\<close>

fun type_tag :: "obj \<Rightarrow> string" where
  "type_tag (ONumber _) = ''number''"
| "type_tag (OString _) = ''string''"
| "type_tag (OBoolean _) = ''boolean''"
| "type_tag ONull = ''object''"
| "type_tag OUndefined = ''undefined''"
| "type_tag (OFunction _) = ''function''"
| "type_tag (OBuiltin _) = ''function''"
| "type_tag (OClass _) = ''function''"
| "type_tag (OClosure _) = ''function''"
| "type_tag _ = ''object''"

text \<open>\<^verbatim>\<open>Object::is_truthy\<close>.\<close>

fun is_truthy :: "obj \<Rightarrow> bool" where
  "is_truthy ONull = False"
| "is_truthy OUndefined = False"
| "is_truthy (OBoolean b) = b"
| "is_truthy (ONumber n) = (\<not> f64_eq n f64_zero)"
| "is_truthy (OString s) = (s \<noteq> [])"
| "is_truthy _ = True"

fun is_runtime_error :: "obj \<Rightarrow> bool" where
  "is_runtime_error (OError _ _ _ r _ _) = r"
| "is_runtime_error _ = False"

fun is_string :: "obj \<Rightarrow> bool" where
  "is_string (OString _) = True"
| "is_string _ = False"

section \<open>Equalities\<close>

text \<open>\<^verbatim>\<open>impl PartialEq for Object\<close>: what constant-pool deduplication compares with.\<close>

definition obj_eq :: "obj \<Rightarrow> obj \<Rightarrow> bool" where
  "obj_eq a b =
     (case a of
        ONumber x \<Rightarrow> (case b of ONumber y \<Rightarrow> f64_eq x y | _ \<Rightarrow> False)
      | OString x \<Rightarrow> (case b of OString y \<Rightarrow> x = y | _ \<Rightarrow> False)
      | OBoolean x \<Rightarrow> (case b of OBoolean y \<Rightarrow> x = y | _ \<Rightarrow> False)
      | OArray x \<Rightarrow> (case b of OArray y \<Rightarrow> x = y | _ \<Rightarrow> False)
      | OHash x \<Rightarrow> (case b of OHash y \<Rightarrow> x = y | _ \<Rightarrow> False)
      | OFunction x \<Rightarrow> (case b of OFunction y \<Rightarrow> x = y | _ \<Rightarrow> False)
      | OInstance x \<Rightarrow> (case b of OInstance y \<Rightarrow> x = y | _ \<Rightarrow> False)
      | OClass x \<Rightarrow> (case b of OClass y \<Rightarrow> x = y | _ \<Rightarrow> False)
      | OPromise x \<Rightarrow> (case b of OPromise y \<Rightarrow> x = y | _ \<Rightarrow> False)
      | OClosure x \<Rightarrow> (case b of OClosure y \<Rightarrow> x = y | _ \<Rightarrow> False)
      | ONull \<Rightarrow> b = ONull
      | OUndefined \<Rightarrow> b = OUndefined
      | _ \<Rightarrow> False)"

text \<open>\<^verbatim>\<open>strict_equal\<close>: the language's \<^verbatim>\<open>===\<close>.\<close>

definition strict_equal :: "obj \<Rightarrow> obj \<Rightarrow> bool" where
  "strict_equal a b =
     (case a of
        ONumber x \<Rightarrow> (case b of ONumber y \<Rightarrow> f64_eq x y | _ \<Rightarrow> False)
      | OString x \<Rightarrow> (case b of OString y \<Rightarrow> x = y | _ \<Rightarrow> False)
      | OBoolean x \<Rightarrow> (case b of OBoolean y \<Rightarrow> x = y | _ \<Rightarrow> False)
      | OArray x \<Rightarrow> (case b of OArray y \<Rightarrow> x = y | _ \<Rightarrow> False)
      | OHash x \<Rightarrow> (case b of OHash y \<Rightarrow> x = y | _ \<Rightarrow> False)
      | OFunction x \<Rightarrow> (case b of OFunction y \<Rightarrow> x = y | _ \<Rightarrow> False)
      | OInstance x \<Rightarrow> (case b of OInstance y \<Rightarrow> x = y | _ \<Rightarrow> False)
      | OClass x \<Rightarrow> (case b of OClass y \<Rightarrow> x = y | _ \<Rightarrow> False)
      | OPromise x \<Rightarrow> (case b of OPromise y \<Rightarrow> x = y | _ \<Rightarrow> False)
      | ONull \<Rightarrow> b = ONull
      | OUndefined \<Rightarrow> b = OUndefined
      | _ \<Rightarrow> False)"

text \<open>
  \<^verbatim>\<open>===\<close> is symmetric and transitive. It is reflexive on every value of a kind it
  compares, numbers that are not NaN included; it is not reflexive on closures.
\<close>

lemma strict_equal_sym: "strict_equal a b = strict_equal b a"
  by (cases a) (auto simp: strict_equal_def f64_eq_sym split: obj.splits)

lemma strict_equal_trans: "strict_equal a b \<Longrightarrow> strict_equal b c \<Longrightarrow> strict_equal a c"
  by (cases a) (auto simp: strict_equal_def split: obj.splits elim: f64_eq_trans)

lemma obj_eq_sym: "obj_eq a b = obj_eq b a"
  by (cases a) (auto simp: obj_eq_def f64_eq_sym split: obj.splits)

lemma obj_eq_trans: "obj_eq a b \<Longrightarrow> obj_eq b c \<Longrightarrow> obj_eq a c"
  by (cases a) (auto simp: obj_eq_def split: obj.splits elim: f64_eq_trans)

text \<open>
  The two equalities agree except on closures, which constant deduplication compares by
  address and \<^verbatim>\<open>===\<close> never equates.
\<close>

lemma strict_equal_obj_eq: "strict_equal a b \<longleftrightarrow> obj_eq a b \<and> (\<nexists>x. a = OClosure x)"
  by (cases a) (auto simp: strict_equal_def obj_eq_def split: obj.splits)

section \<open>Errors\<close>

text \<open>\<^verbatim>\<open>ERROR_NAME_PREFIXES\<close> and \<^verbatim>\<open>split_error_name\<close>.\<close>

definition error_name_prefixes :: "(string \<times> string) list" where
  "error_name_prefixes =
     [(''TypeError'', ''TypeError: ''), (''RangeError'', ''RangeError: ''),
      (''ReferenceError'', ''ReferenceError: ''), (''SyntaxError'', ''SyntaxError: ''),
      (''ImportError'', ''ImportError: ''), (''ExportError'', ''ExportError: ''),
      (''MatchError'', ''MatchError: ''), (''PermissionError'', ''PermissionError: ''),
      (''TimeoutError'', ''TimeoutError: ''), (''HostError'', ''HostError: ''),
      (''Error'', ''Error: '')]"

fun split_error_name_in :: "(string \<times> string) list \<Rightarrow> string \<Rightarrow> string \<times> string" where
  "split_error_name_in [] msg = (''Error'', msg)"
| "split_error_name_in ((name, with_colon) # ps) msg =
     (case strip_prefix msg with_colon of
        Some rest \<Rightarrow> (name, rest)
      | None \<Rightarrow> split_error_name_in ps msg)"

definition split_error_name :: "string \<Rightarrow> string \<times> string" where
  "split_error_name msg = split_error_name_in error_name_prefixes msg"

definition error_stack :: "position \<Rightarrow> string \<Rightarrow> string \<Rightarrow> string" where
  "error_stack pos name message =
     (if pos_is_zero pos then name @ '': '' @ message
      else name @ '': '' @ message @ [CHR 0x0A] @ ''    at '' @ show_pos pos)"

definition new_error :: "position \<Rightarrow> string \<Rightarrow> obj" where
  "new_error pos msg =
     (let (name, message) = split_error_name msg
      in OError message name (error_stack pos name message) True pos None)"

definition new_named_error_with_runtime ::
  "position \<Rightarrow> string \<Rightarrow> string \<Rightarrow> bool \<Rightarrow> obj" where
  "new_named_error_with_runtime pos name message runtime =
     OError message name (error_stack pos name message) runtime pos None"

definition new_named_error :: "position \<Rightarrow> string \<Rightarrow> string \<Rightarrow> obj" where
  "new_named_error pos name message = new_named_error_with_runtime pos name message True"

lemma new_error_runtime [simp]: "is_runtime_error (new_error pos msg)"
  by (simp add: new_error_def split: prod.split)

text \<open>
  Splitting loses nothing: a recognised prefix is exactly what was cut off, and an
  unrecognised message is kept whole under the name \<^verbatim>\<open>Error\<close>.
\<close>

lemma split_error_name_in_join:
  assumes "\<forall>(n, w) \<in> set ps. w = n @ '': ''"
    and "split_error_name_in ps msg = (name, rest)"
  shows "msg = name @ '': '' @ rest \<or> (name = ''Error'' \<and> rest = msg)"
  using assms
proof (induction ps)
  case (Cons p ps)
  obtain n w where p: "p = (n, w)" by (cases p)
  show ?case
  proof (cases "starts_with msg w")
    case True
    have "msg = take (length w) msg @ drop (length w) msg" by simp
    also have "take (length w) msg = w" using True by (simp add: starts_with_def)
    finally show ?thesis using True Cons.prems p by (auto simp: strip_prefix_def)
  next
    case False
    with Cons p show ?thesis by (simp add: strip_prefix_def)
  qed
qed simp

lemma split_error_name_join:
  "split_error_name msg = (name, rest) \<Longrightarrow>
     msg = name @ '': '' @ rest \<or> (name = ''Error'' \<and> rest = msg)"
  unfolding split_error_name_def
  by (rule split_error_name_in_join [where ps = error_name_prefixes])
    (auto simp add: error_name_prefixes_def simp del: split_error_name_in.simps)

section \<open>Number formatting\<close>

text \<open>
  \<^verbatim>\<open>format_number\<close>: integral values below \<open>10 ^ 21\<close> print as \<^verbatim>\<open>i64\<close> (saturating); for the
  others the shortest decimal of Rust's \<^verbatim>\<open>Display\<close> is the argument \<open>fmt\<close>.
\<close>

definition format_number :: "(f64 \<Rightarrow> string) \<Rightarrow> f64 \<Rightarrow> string" where
  "format_number fmt n =
     (if is_nan n then ''NaN''
      else if is_infinite n then (if f64_neg n then ''-Infinity'' else ''Infinity'')
      else if f64_is_integral n \<and> f64_trunc_nat n < 10 ^ 21 then show_int (f64_as_i64 n)
      else fmt n)"

end
