(* ===== verification/Opcode.thy ===== *)
theory Opcode
  imports Prelude
begin

text \<open>
  The instruction set of the bytecode VM
  (\<^verbatim>\<open>crates/night24-gts/src/bytecode/opcode.rs\<close>, \<^verbatim>\<open>operand_width\<close> of \<^verbatim>\<open>emit.rs\<close>): the opcode
  enumeration, its discriminants, the decoder, the mnemonics and the operand widths. The
  lemmas show that decoding inverts encoding and that no two opcodes share a byte.
\<close>

section \<open>Opcodes and their bytes\<close>

datatype (plugins only: code size) opcode =
  OpConst
| OpPop
| OpDup
| OpAdd
| OpSub
| OpMul
| OpDiv
| OpMod
| OpPow
| OpConcat
| OpBitAnd
| OpBitOr
| OpBitXor
| OpEq
| OpNeq
| OpLt
| OpLe
| OpGt
| OpGe
| OpInstanceOf
| OpIn
| OpAnd
| OpOr
| OpNot
| OpNeg
| OpBitNot
| OpShl
| OpShr
| OpUShr
| OpIdentity
| OpLoadGlobal
| OpStoreGlobal
| OpLoadLocal
| OpStoreLocal
| OpLoadUpvalue
| OpStoreUpvalue
| OpLoadName
| OpStoreName
| OpAssignName
| OpLoadThis
| OpStoreTypedName
| OpJump
| OpJumpIfFalse
| OpJumpIfTrue
| OpLoop
| OpSuperMethod
| OpClosure
| OpCall
| OpReturn
| OpReturnNull
| OpPushArg
| OpCallSpread
| OpNewObject
| OpNewArray
| OpGetProperty
| OpSetProperty
| OpGetIndex
| OpSetIndex
| OpSpread
| OpNewClass
| OpDefineMethod
| OpNew
| OpIterKeys
| OpIterValues
| OpLen
| OpIterNext
| OpThrow
| OpAwait
| OpToString
| OpThrowMatchError
| OpTypeOf
| OpImportModule
| OpExportName
| OpArraySliceFrom
| OpExportAll
| OpWrapResolvedPromise

text \<open>\<^verbatim>\<open>op as u8\<close>: the discriminants of the \<^verbatim>\<open>repr(u8)\<close> enumeration.\<close>

primrec op_byte :: "opcode \<Rightarrow> u8" where
  "op_byte OpConst = 0"
| "op_byte OpPop = 1"
| "op_byte OpDup = 2"
| "op_byte OpAdd = 10"
| "op_byte OpSub = 11"
| "op_byte OpMul = 12"
| "op_byte OpDiv = 13"
| "op_byte OpMod = 14"
| "op_byte OpPow = 15"
| "op_byte OpConcat = 16"
| "op_byte OpBitAnd = 17"
| "op_byte OpBitOr = 18"
| "op_byte OpBitXor = 19"
| "op_byte OpEq = 20"
| "op_byte OpNeq = 21"
| "op_byte OpLt = 22"
| "op_byte OpLe = 23"
| "op_byte OpGt = 24"
| "op_byte OpGe = 25"
| "op_byte OpInstanceOf = 26"
| "op_byte OpIn = 27"
| "op_byte OpAnd = 30"
| "op_byte OpOr = 31"
| "op_byte OpNot = 32"
| "op_byte OpNeg = 33"
| "op_byte OpBitNot = 34"
| "op_byte OpShl = 35"
| "op_byte OpShr = 36"
| "op_byte OpUShr = 37"
| "op_byte OpIdentity = 38"
| "op_byte OpLoadGlobal = 40"
| "op_byte OpStoreGlobal = 41"
| "op_byte OpLoadLocal = 42"
| "op_byte OpStoreLocal = 43"
| "op_byte OpLoadUpvalue = 44"
| "op_byte OpStoreUpvalue = 45"
| "op_byte OpLoadName = 46"
| "op_byte OpStoreName = 47"
| "op_byte OpAssignName = 48"
| "op_byte OpLoadThis = 49"
| "op_byte OpStoreTypedName = 55"
| "op_byte OpJump = 50"
| "op_byte OpJumpIfFalse = 51"
| "op_byte OpJumpIfTrue = 52"
| "op_byte OpLoop = 53"
| "op_byte OpSuperMethod = 54"
| "op_byte OpClosure = 60"
| "op_byte OpCall = 61"
| "op_byte OpReturn = 62"
| "op_byte OpReturnNull = 63"
| "op_byte OpPushArg = 64"
| "op_byte OpCallSpread = 65"
| "op_byte OpNewObject = 70"
| "op_byte OpNewArray = 71"
| "op_byte OpGetProperty = 72"
| "op_byte OpSetProperty = 73"
| "op_byte OpGetIndex = 74"
| "op_byte OpSetIndex = 75"
| "op_byte OpSpread = 76"
| "op_byte OpNewClass = 77"
| "op_byte OpDefineMethod = 78"
| "op_byte OpNew = 79"
| "op_byte OpIterKeys = 80"
| "op_byte OpIterValues = 81"
| "op_byte OpLen = 82"
| "op_byte OpIterNext = 83"
| "op_byte OpThrow = 90"
| "op_byte OpAwait = 91"
| "op_byte OpToString = 92"
| "op_byte OpThrowMatchError = 93"
| "op_byte OpTypeOf = 94"
| "op_byte OpImportModule = 95"
| "op_byte OpExportName = 96"
| "op_byte OpArraySliceFrom = 97"
| "op_byte OpExportAll = 98"
| "op_byte OpWrapResolvedPromise = 99"

text \<open>\<^verbatim>\<open>Opcode::from_byte\<close>, in the order of the source's match.\<close>

definition op_table :: "(u8 \<times> opcode) list" where
  "op_table =
     [(0, OpConst),
      (1, OpPop),
      (2, OpDup),
      (10, OpAdd),
      (11, OpSub),
      (12, OpMul),
      (13, OpDiv),
      (14, OpMod),
      (15, OpPow),
      (16, OpConcat),
      (17, OpBitAnd),
      (18, OpBitOr),
      (19, OpBitXor),
      (20, OpEq),
      (21, OpNeq),
      (22, OpLt),
      (23, OpLe),
      (24, OpGt),
      (25, OpGe),
      (26, OpInstanceOf),
      (27, OpIn),
      (30, OpAnd),
      (31, OpOr),
      (32, OpNot),
      (33, OpNeg),
      (34, OpBitNot),
      (35, OpShl),
      (36, OpShr),
      (37, OpUShr),
      (38, OpIdentity),
      (40, OpLoadGlobal),
      (41, OpStoreGlobal),
      (42, OpLoadLocal),
      (43, OpStoreLocal),
      (44, OpLoadUpvalue),
      (45, OpStoreUpvalue),
      (46, OpLoadName),
      (47, OpStoreName),
      (48, OpAssignName),
      (49, OpLoadThis),
      (55, OpStoreTypedName),
      (50, OpJump),
      (51, OpJumpIfFalse),
      (52, OpJumpIfTrue),
      (53, OpLoop),
      (54, OpSuperMethod),
      (60, OpClosure),
      (61, OpCall),
      (62, OpReturn),
      (63, OpReturnNull),
      (64, OpPushArg),
      (65, OpCallSpread),
      (70, OpNewObject),
      (71, OpNewArray),
      (72, OpGetProperty),
      (73, OpSetProperty),
      (74, OpGetIndex),
      (75, OpSetIndex),
      (76, OpSpread),
      (77, OpNewClass),
      (78, OpDefineMethod),
      (79, OpNew),
      (80, OpIterKeys),
      (81, OpIterValues),
      (82, OpLen),
      (83, OpIterNext),
      (90, OpThrow),
      (91, OpAwait),
      (92, OpToString),
      (93, OpThrowMatchError),
      (94, OpTypeOf),
      (95, OpImportModule),
      (96, OpExportName),
      (97, OpArraySliceFrom),
      (98, OpExportAll),
      (99, OpWrapResolvedPromise)]"

definition from_byte :: "u8 \<Rightarrow> opcode option" where
  "from_byte b = map_of op_table b"

text \<open>\<^verbatim>\<open>Opcode::name\<close>.\<close>

primrec op_name :: "opcode \<Rightarrow> string" where
  "op_name OpConst = ''CONST''"
| "op_name OpPop = ''POP''"
| "op_name OpDup = ''DUP''"
| "op_name OpAdd = ''ADD''"
| "op_name OpSub = ''SUB''"
| "op_name OpMul = ''MUL''"
| "op_name OpDiv = ''DIV''"
| "op_name OpMod = ''MOD''"
| "op_name OpPow = ''POW''"
| "op_name OpConcat = ''CONCAT''"
| "op_name OpBitAnd = ''BIT_AND''"
| "op_name OpBitOr = ''BIT_OR''"
| "op_name OpBitXor = ''BIT_XOR''"
| "op_name OpEq = ''EQ''"
| "op_name OpNeq = ''NEQ''"
| "op_name OpLt = ''LT''"
| "op_name OpLe = ''LE''"
| "op_name OpGt = ''GT''"
| "op_name OpGe = ''GE''"
| "op_name OpInstanceOf = ''INSTANCEOF''"
| "op_name OpIn = ''IN''"
| "op_name OpAnd = ''AND''"
| "op_name OpOr = ''OR''"
| "op_name OpNot = ''NOT''"
| "op_name OpNeg = ''NEG''"
| "op_name OpBitNot = ''BIT_NOT''"
| "op_name OpShl = ''SHL''"
| "op_name OpShr = ''SHR''"
| "op_name OpUShr = ''USHR''"
| "op_name OpIdentity = ''IDENTITY''"
| "op_name OpLoadGlobal = ''LOAD_GLOBAL''"
| "op_name OpStoreGlobal = ''STORE_GLOBAL''"
| "op_name OpLoadLocal = ''LOAD_LOCAL''"
| "op_name OpStoreLocal = ''STORE_LOCAL''"
| "op_name OpLoadUpvalue = ''LOAD_UPVALUE''"
| "op_name OpStoreUpvalue = ''STORE_UPVALUE''"
| "op_name OpLoadName = ''LOAD_NAME''"
| "op_name OpStoreName = ''STORE_NAME''"
| "op_name OpAssignName = ''ASSIGN_NAME''"
| "op_name OpLoadThis = ''LOAD_THIS''"
| "op_name OpStoreTypedName = ''STORE_TYPED_NAME''"
| "op_name OpJump = ''JUMP''"
| "op_name OpJumpIfFalse = ''JUMP_IF_FALSE''"
| "op_name OpJumpIfTrue = ''JUMP_IF_TRUE''"
| "op_name OpLoop = ''LOOP''"
| "op_name OpSuperMethod = ''SUPER_METHOD''"
| "op_name OpClosure = ''CLOSURE''"
| "op_name OpCall = ''CALL''"
| "op_name OpReturn = ''RETURN''"
| "op_name OpReturnNull = ''RETURN_NULL''"
| "op_name OpPushArg = ''PUSH_ARG''"
| "op_name OpCallSpread = ''CALL_SPREAD''"
| "op_name OpNewObject = ''NEW_OBJECT''"
| "op_name OpNewArray = ''NEW_ARRAY''"
| "op_name OpGetProperty = ''GET_PROPERTY''"
| "op_name OpSetProperty = ''SET_PROPERTY''"
| "op_name OpGetIndex = ''GET_INDEX''"
| "op_name OpSetIndex = ''SET_INDEX''"
| "op_name OpSpread = ''SPREAD''"
| "op_name OpNewClass = ''NEW_CLASS''"
| "op_name OpDefineMethod = ''DEFINE_METHOD''"
| "op_name OpNew = ''NEW''"
| "op_name OpIterKeys = ''ITER_KEYS''"
| "op_name OpIterValues = ''ITER_VALUES''"
| "op_name OpLen = ''LEN''"
| "op_name OpIterNext = ''ITER_NEXT''"
| "op_name OpThrow = ''THROW''"
| "op_name OpAwait = ''AWAIT''"
| "op_name OpToString = ''TO_STRING''"
| "op_name OpThrowMatchError = ''THROW_MATCH_ERROR''"
| "op_name OpTypeOf = ''TYPEOF''"
| "op_name OpImportModule = ''IMPORT_MODULE''"
| "op_name OpExportName = ''EXPORT_NAME''"
| "op_name OpArraySliceFrom = ''ARRAY_SLICE_FROM''"
| "op_name OpExportAll = ''EXPORT_ALL''"
| "op_name OpWrapResolvedPromise = ''WRAP_RESOLVED_PROMISE''"

section \<open>Operand widths\<close>

definition ops_u16 :: "opcode list" where
  "ops_u16 =
     [OpConst, OpLoadName, OpStoreName, OpAssignName, OpLoadGlobal, OpStoreGlobal, OpGetProperty,
      OpSetProperty, OpDefineMethod, OpNewClass, OpSuperMethod, OpNewArray, OpNew, OpCall,
      OpClosure, OpImportModule, OpExportName]"

definition ops_jump :: "opcode list" where
  "ops_jump = [OpJump, OpJumpIfFalse, OpJumpIfTrue, OpLoop]"

definition ops_u8 :: "opcode list" where
  "ops_u8 = [OpLoadLocal, OpStoreLocal, OpLoadUpvalue, OpStoreUpvalue]"

definition operand_width :: "opcode \<Rightarrow> nat" where
  "operand_width op =
     (if op \<in> set ops_u16 then 2
      else if op = OpStoreTypedName then 4
      else if op \<in> set ops_jump then 4
      else if op \<in> set ops_u8 then 1
      else 0)"

section \<open>Decoding inverts encoding\<close>

lemma from_byte_op_byte [simp]: "from_byte (op_byte op) = Some op"
  by (cases op) (simp_all add: from_byte_def op_table_def)

lemma from_byte_SomeD: "from_byte b = Some op \<Longrightarrow> b = op_byte op"
  unfolding from_byte_def by (drule map_of_SomeD) (auto simp: op_table_def)

lemma op_byte_inj [simp]: "op_byte a = op_byte b \<longleftrightarrow> a = b"
  by (metis from_byte_op_byte option.inject)

lemma from_byte_iff: "from_byte b = Some op \<longleftrightarrow> b = op_byte op"
  by (auto dest: from_byte_SomeD)

end
