(* ===== verification/Chunk.thy ===== *)
theory Chunk
  imports Gts_Object Opcode
begin

unbundle bit_operations_syntax

text \<open>
  The compiled-code container (\<^verbatim>\<open>crates/night24-gts/src/bytecode/chunk.rs\<close>) and the function
  prototypes it holds (\<^verbatim>\<open>closure.rs\<close>). A chunk and a prototype contain each other, so both
  are one mutual datatype; \<open>map_code\<close> and its siblings are the field updates.

  The lemmas establish the two invariants the rest relies on: the constant pool is an
  injective interning table for primitive values (\<open>pool_inv\<close>), and the position table is
  strictly sorted, so that the binary search of \<open>position_at\<close> finds the instruction that
  owns a byte (\<open>lines_inv\<close>).
\<close>

section \<open>Prototype metadata\<close>

datatype upvalue_source = LocalSlot u16 | ParentUpvalue u16

record upvalue_desc =
  ud_name :: string
  ud_source :: upvalue_source

record param_slot =
  ps_name :: string
  ps_slot :: u16
  ps_has_default :: bool
  ps_is_rest :: bool
  ps_optional :: bool

definition required_arity :: "gparam list \<Rightarrow> nat" where
  "required_arity params =
     length (takeWhile (\<lambda>p. \<not> param_spread p \<and> \<not> param_optional p \<and> param_default p = None) params)"

definition build_param_slots :: "gparam list \<Rightarrow> param_slot list" where
  "build_param_slots params =
     map (\<lambda>(slot, p). \<lparr>ps_name = param_name p, ps_slot = of_nat slot,
            ps_has_default = param_default p \<noteq> None, ps_is_rest = param_spread p,
            ps_optional = param_optional p\<rparr>)
       (enumerate 0 params)"

section \<open>Chunks\<close>

record protected_region =
  try_start :: u32
  try_end :: u32
  handler_ip :: u32
  finally_ip :: "u32 option"
  catch_binding_slot :: "u8 option"

record line_entry =
  line_ip :: u32
  line_pos :: position

datatype const_key = KNumberBits u64 | KString string | KBool bool | KNull | KUndefined

datatype (plugins only: code size) chunk =
  Chunk (code: "u8 list") (constants: "obj list") (const_index: "const_key \<Rightarrow> u16 option")
    (protos: "function_proto list") (classes: "gclass list") (types: "type_annotation list")
    (lines: "line_entry list") (protected_regions: "protected_region list")
and function_proto =
  FunctionProto (proto_name: string) (proto_params: "gparam list") (proto_arity: nat)
    (proto_param_slots: "param_slot list") (proto_upvalue_desc: "upvalue_desc list")
    (proto_body: gblock) (proto_is_async: bool) (proto_lexical_this: bool)
    (proto_return_t: "type_annotation option") (proto_pos: position) (proto_chunk: "chunk option")

text \<open>\<^verbatim>\<open>FunctionProto::with_upvalues\<close>.\<close>

definition proto_with_upvalues ::
  "string \<Rightarrow> gparam list \<Rightarrow> gblock \<Rightarrow> bool \<Rightarrow> bool \<Rightarrow> type_annotation option \<Rightarrow> position
   \<Rightarrow> upvalue_desc list \<Rightarrow> function_proto" where
  "proto_with_upvalues name params body is_async lexical_this return_t pos upvalue_desc =
     FunctionProto name params (required_arity params) (build_param_slots params) upvalue_desc
       body is_async lexical_this return_t pos None"

fun set_proto_chunk :: "chunk option \<Rightarrow> function_proto \<Rightarrow> function_proto" where
  "set_proto_chunk ch (FunctionProto n ps ar sl ud b ia lt rt p _) =
     FunctionProto n ps ar sl ud b ia lt rt p ch"

definition empty_chunk :: chunk where
  "empty_chunk = Chunk [] [] (\<lambda>_. None) [] [] [] [] []"

fun map_code :: "(u8 list \<Rightarrow> u8 list) \<Rightarrow> chunk \<Rightarrow> chunk" where
  "map_code f (Chunk a b c d e g h i) = Chunk (f a) b c d e g h i"

fun map_constants :: "(obj list \<Rightarrow> obj list) \<Rightarrow> chunk \<Rightarrow> chunk" where
  "map_constants f (Chunk a b c d e g h i) = Chunk a (f b) c d e g h i"

fun map_const_index ::
  "((const_key \<Rightarrow> u16 option) \<Rightarrow> const_key \<Rightarrow> u16 option) \<Rightarrow> chunk \<Rightarrow> chunk" where
  "map_const_index f (Chunk a b c d e g h i) = Chunk a b (f c) d e g h i"

fun map_protos :: "(function_proto list \<Rightarrow> function_proto list) \<Rightarrow> chunk \<Rightarrow> chunk" where
  "map_protos f (Chunk a b c d e g h i) = Chunk a b c (f d) e g h i"

fun map_classes :: "(gclass list \<Rightarrow> gclass list) \<Rightarrow> chunk \<Rightarrow> chunk" where
  "map_classes f (Chunk a b c d e g h i) = Chunk a b c d (f e) g h i"

fun map_types :: "(type_annotation list \<Rightarrow> type_annotation list) \<Rightarrow> chunk \<Rightarrow> chunk" where
  "map_types f (Chunk a b c d e g h i) = Chunk a b c d e (f g) h i"

fun map_lines :: "(line_entry list \<Rightarrow> line_entry list) \<Rightarrow> chunk \<Rightarrow> chunk" where
  "map_lines f (Chunk a b c d e g h i) = Chunk a b c d e g (f h) i"

fun map_regions :: "(protected_region list \<Rightarrow> protected_region list) \<Rightarrow> chunk \<Rightarrow> chunk" where
  "map_regions f (Chunk a b c d e g h i) = Chunk a b c d e g h (f i)"

lemma chunk_update_simps [simp]:
  "code (map_code f c) = f (code c)" "constants (map_code f c) = constants c"
  "const_index (map_code f c) = const_index c" "protos (map_code f c) = protos c"
  "classes (map_code f c) = classes c" "types (map_code f c) = types c"
  "lines (map_code f c) = lines c" "protected_regions (map_code f c) = protected_regions c"
  "code (map_constants g c) = code c" "constants (map_constants g c) = g (constants c)"
  "const_index (map_constants g c) = const_index c" "protos (map_constants g c) = protos c"
  "classes (map_constants g c) = classes c" "types (map_constants g c) = types c"
  "lines (map_constants g c) = lines c"
  "protected_regions (map_constants g c) = protected_regions c"
  "code (map_const_index h c) = code c" "constants (map_const_index h c) = constants c"
  "const_index (map_const_index h c) = h (const_index c)"
  "protos (map_const_index h c) = protos c" "classes (map_const_index h c) = classes c"
  "types (map_const_index h c) = types c" "lines (map_const_index h c) = lines c"
  "protected_regions (map_const_index h c) = protected_regions c"
  by (cases c; simp)+

lemma chunk_update_simps2 [simp]:
  "code (map_protos f c) = code c" "constants (map_protos f c) = constants c"
  "const_index (map_protos f c) = const_index c" "protos (map_protos f c) = f (protos c)"
  "classes (map_protos f c) = classes c" "types (map_protos f c) = types c"
  "lines (map_protos f c) = lines c" "protected_regions (map_protos f c) = protected_regions c"
  "code (map_classes g c) = code c" "constants (map_classes g c) = constants c"
  "const_index (map_classes g c) = const_index c" "protos (map_classes g c) = protos c"
  "classes (map_classes g c) = g (classes c)" "types (map_classes g c) = types c"
  "lines (map_classes g c) = lines c"
  "protected_regions (map_classes g c) = protected_regions c"
  "code (map_types h c) = code c" "constants (map_types h c) = constants c"
  "const_index (map_types h c) = const_index c" "protos (map_types h c) = protos c"
  "classes (map_types h c) = classes c" "types (map_types h c) = h (types c)"
  "lines (map_types h c) = lines c" "protected_regions (map_types h c) = protected_regions c"
  by (cases c; simp)+

lemma chunk_update_simps3 [simp]:
  "code (map_lines k c) = code c" "constants (map_lines k c) = constants c"
  "const_index (map_lines k c) = const_index c" "protos (map_lines k c) = protos c"
  "classes (map_lines k c) = classes c" "types (map_lines k c) = types c"
  "lines (map_lines k c) = k (lines c)"
  "protected_regions (map_lines k c) = protected_regions c"
  "code (map_regions r c) = code c" "constants (map_regions r c) = constants c"
  "const_index (map_regions r c) = const_index c" "protos (map_regions r c) = protos c"
  "classes (map_regions r c) = classes c" "types (map_regions r c) = types c"
  "lines (map_regions r c) = lines c"
  "protected_regions (map_regions r c) = r (protected_regions c)"
  by (cases c; simp)+

lemma empty_chunk_simps [simp]:
  "code empty_chunk = []" "constants empty_chunk = []" "const_index empty_chunk = (\<lambda>_. None)"
  "protos empty_chunk = []" "classes empty_chunk = []" "types empty_chunk = []"
  "lines empty_chunk = []" "protected_regions empty_chunk = []"
  by (simp_all add: empty_chunk_def)

section \<open>Writers\<close>

text \<open>\<^verbatim>\<open>self.code.len() as u32\<close>.\<close>

definition here :: "chunk \<Rightarrow> u32" where
  "here c = of_nat (length (code c))"

definition push_line :: "line_entry \<Rightarrow> chunk \<Rightarrow> chunk" where
  "push_line e = map_lines (\<lambda>ls. ls @ [e])"

definition push_bytes :: "u8 list \<Rightarrow> chunk \<Rightarrow> chunk" where
  "push_bytes bs = map_code (\<lambda>cs. cs @ bs)"

text \<open>\<^verbatim>\<open>write_op\<close>; the offset it returns is \<open>here\<close> of the chunk before.\<close>

definition write_op :: "opcode \<Rightarrow> position \<Rightarrow> chunk \<Rightarrow> chunk" where
  "write_op op pos c =
     push_line \<lparr>line_ip = here c, line_pos = pos\<rparr> (push_bytes [op_byte op] c)"

definition write_byte :: "u8 \<Rightarrow> chunk \<Rightarrow> chunk" where
  "write_byte b = push_bytes [b]"

definition write_u16 :: "u16 \<Rightarrow> chunk \<Rightarrow> chunk" where
  "write_u16 v = push_bytes (be16 v)"

definition write_u32 :: "u32 \<Rightarrow> chunk \<Rightarrow> chunk" where
  "write_u32 v = push_bytes (be32 v)"

section \<open>Constant pool\<close>

text \<open>\<^verbatim>\<open>ConstKey::from_object\<close>.\<close>

definition key_of :: "obj \<Rightarrow> const_key option" where
  "key_of v =
     (case v of
        ONumber n \<Rightarrow>
          if is_nan n then None
          else Some (KNumberBits (if n = 0x8000000000000000 then 0 else n))
      | OString s \<Rightarrow> Some (KString s)
      | OBoolean b \<Rightarrow> Some (KBool b)
      | ONull \<Rightarrow> Some KNull
      | OUndefined \<Rightarrow> Some KUndefined
      | _ \<Rightarrow> None)"

text \<open>The linear scan of \<^verbatim>\<open>add_constant\<close> for values without a key.\<close>

fun scan_constants :: "obj \<Rightarrow> nat \<Rightarrow> obj list \<Rightarrow> nat option" where
  "scan_constants v i [] = None"
| "scan_constants v i (x # xs) = (if obj_eq x v then Some i else scan_constants v (Suc i) xs)"

definition push_constant :: "obj \<Rightarrow> chunk \<Rightarrow> chunk" where
  "push_constant v = map_constants (\<lambda>cs. cs @ [v])"

definition add_constant :: "obj \<Rightarrow> chunk \<Rightarrow> u16 \<times> chunk" where
  "add_constant v c =
     (case key_of v of
        Some key \<Rightarrow>
          (case const_index c key of
             Some idx \<Rightarrow> (idx, c)
           | None \<Rightarrow>
               let idx = of_nat (length (constants c))
               in (idx, push_constant v (map_const_index (\<lambda>m. m(key := Some idx)) c)))
      | None \<Rightarrow>
          (case scan_constants v 0 (constants c) of
             Some i \<Rightarrow> (of_nat i, c)
           | None \<Rightarrow> (of_nat (length (constants c)), push_constant v c)))"

section \<open>Readers\<close>

text \<open>
  \<^verbatim>\<open>read_u16\<close> and \<^verbatim>\<open>read_u32\<close>: indexing past the end panics, \<open>None\<close> here.
\<close>

definition word16 :: "u8 \<Rightarrow> u8 \<Rightarrow> u16" where
  "word16 hi lo = push_bit 8 (ucast hi) OR ucast lo"

definition word32 :: "u8 \<Rightarrow> u8 \<Rightarrow> u8 \<Rightarrow> u8 \<Rightarrow> u32" where
  "word32 b0 b1 b2 b3 =
     push_bit 24 (ucast b0) OR push_bit 16 (ucast b1) OR push_bit 8 (ucast b2) OR ucast b3"

definition read_u16 :: "chunk \<Rightarrow> nat \<Rightarrow> u16 option" where
  "read_u16 c ip =
     (if ip + 1 < length (code c) then Some (word16 (code c ! ip) (code c ! (ip + 1))) else None)"

definition read_u32 :: "chunk \<Rightarrow> nat \<Rightarrow> u32 option" where
  "read_u32 c ip =
     (if ip + 3 < length (code c)
      then Some (word32 (code c ! ip) (code c ! (ip + 1)) (code c ! (ip + 2)) (code c ! (ip + 3)))
      else None)"

text \<open>
  \<^verbatim>\<open>slice::binary_search_by_key\<close> of the Rust standard library: halve the window while it
  has more than one element, then compare once. \<open>Inr i\<close> is \<^verbatim>\<open>Ok(i)\<close>, \<open>Inl i\<close> is \<^verbatim>\<open>Err(i)\<close>.
\<close>

function bsearch_base :: "u32 list \<Rightarrow> u32 \<Rightarrow> nat \<Rightarrow> nat \<Rightarrow> nat" where
  "bsearch_base ks t base sz =
     (if sz \<le> 1 then base
      else let half = sz div 2; mid = base + half
           in bsearch_base ks t (if ks ! mid > t then base else mid) (sz - half))"
  by pat_completeness auto
termination
  by (relation "measure (\<lambda>(ks, t, base, sz). sz)") auto

declare bsearch_base.simps [simp del]

definition binary_search :: "u32 list \<Rightarrow> u32 \<Rightarrow> nat + nat" where
  "binary_search ks t =
     (if ks = [] then Inl 0
      else let base = bsearch_base ks t 0 (length ks)
           in if ks ! base = t then Inr base
              else Inl (if ks ! base < t then base + 1 else base))"

definition position_at :: "chunk \<Rightarrow> nat \<Rightarrow> position" where
  "position_at c ip =
     (case binary_search (map line_ip (lines c)) (of_nat ip) of
        Inr idx \<Rightarrow> line_pos (lines c ! idx)
      | Inl insertion \<Rightarrow>
          if insertion = 0 then default_pos else line_pos (lines c ! (insertion - 1)))"

section \<open>Field equations of the writers\<close>

named_theorems chunk_simps \<open>fields of a chunk after a writer\<close>

lemma writer_fields [chunk_simps]:
  "code (write_op op pos c) = code c @ [op_byte op]"
  "constants (write_op op pos c) = constants c" "const_index (write_op op pos c) = const_index c"
  "protos (write_op op pos c) = protos c" "classes (write_op op pos c) = classes c"
  "types (write_op op pos c) = types c"
  "lines (write_op op pos c) = lines c @ [\<lparr>line_ip = here c, line_pos = pos\<rparr>]"
  "protected_regions (write_op op pos c) = protected_regions c"
  by (simp_all add: write_op_def push_line_def push_bytes_def)

lemma writer_fields_bytes [chunk_simps]:
  "code (push_bytes bs c) = code c @ bs" "constants (push_bytes bs c) = constants c"
  "const_index (push_bytes bs c) = const_index c" "protos (push_bytes bs c) = protos c"
  "classes (push_bytes bs c) = classes c" "types (push_bytes bs c) = types c"
  "lines (push_bytes bs c) = lines c"
  "protected_regions (push_bytes bs c) = protected_regions c"
  by (simp_all add: push_bytes_def)

lemmas writer_defs [chunk_simps] = write_byte_def write_u16_def write_u32_def

section \<open>The constant pool interns\<close>

text \<open>
  Values have the same key exactly when the source's \<^verbatim>\<open>PartialEq\<close> identifies them, NaN and
  reference values apart, which have no key.
\<close>

lemma f64_mag_0_iff: "f64_mag n = 0 \<longleftrightarrow> n = 0 \<or> n = 0x8000000000000000"
proof -
  have "unat n = (if f64_neg n then 2 ^ 63 else 0) + f64_mag n" by (rule f64_mag_neg)
  then have "f64_mag n = 0 \<Longrightarrow> unat n = 0 \<or> unat n = unat (0x8000000000000000 :: 64 word)"
    by (auto split: if_splits)
  then have "f64_mag n = 0 \<Longrightarrow> n = 0 \<or> n = 0x8000000000000000"
    by (auto simp: word_unat_eq_iff)
  moreover have "f64_mag 0 = 0" "f64_mag 0x8000000000000000 = 0"
    by (simp_all add: f64_mag_def)
  ultimately show ?thesis by auto
qed

definition canonical_bits :: "f64 \<Rightarrow> f64" where
  "canonical_bits n = (if n = 0x8000000000000000 then 0 else n)"

lemma canonical_bits_eq:
  "\<not> is_nan x \<Longrightarrow> \<not> is_nan y \<Longrightarrow> canonical_bits x = canonical_bits y \<longleftrightarrow> f64_eq x y"
  unfolding f64_eq_iff canonical_bits_def f64_mag_0_iff by (auto split: if_splits)

lemma key_of_simps [simp]:
  "key_of (ONumber n) = (if is_nan n then None else Some (KNumberBits (canonical_bits n)))"
  "key_of (OString s) = Some (KString s)" "key_of (OBoolean b) = Some (KBool b)"
  "key_of ONull = Some KNull" "key_of OUndefined = Some KUndefined"
  by (simp_all add: key_of_def canonical_bits_def)

lemma key_of_cases:
  assumes "key_of v = Some k"
  obtains (Number) n where "v = ONumber n" "\<not> is_nan n" "k = KNumberBits (canonical_bits n)"
    | (String) s where "v = OString s" "k = KString s"
    | (Bool) b where "v = OBoolean b" "k = KBool b"
    | (Null) "v = ONull" "k = KNull"
    | (Undefined) "v = OUndefined" "k = KUndefined"
proof (cases v)
  case (ONumber n)
  with assms Number show ?thesis by (auto split: if_splits)
qed (use assms that in \<open>auto simp: key_of_def\<close>)

lemma key_of_obj_eq:
  assumes a: "key_of a = Some k"
  shows "key_of b = Some k \<longleftrightarrow> obj_eq a b"
proof
  assume b: "key_of b = Some k"
  show "obj_eq a b"
    using a
  proof (cases rule: key_of_cases)
    case (Number n)
    from b show ?thesis
      by (cases rule: key_of_cases) (use Number canonical_bits_eq in \<open>auto simp: obj_eq_def\<close>)
  qed (use b in \<open>cases rule: key_of_cases; simp add: obj_eq_def\<close>)+
next
  assume eq: "obj_eq a b"
  show "key_of b = Some k"
    using a
  proof (cases rule: key_of_cases)
    case (Number n)
    with eq obtain m where "b = ONumber m" "f64_eq n m"
      by (auto simp: obj_eq_def split: obj.splits)
    with Number canonical_bits_eq show ?thesis by (auto simp: f64_eq_def)
  qed (use eq in \<open>auto simp: obj_eq_def split: obj.splits\<close>)
qed

definition pool_inv :: "chunk \<Rightarrow> bool" where
  "pool_inv c \<longleftrightarrow>
     (\<forall>k i. const_index c k = Some i \<longrightarrow>
        unat i < length (constants c) \<and> key_of (constants c ! unat i) = Some k)
   \<and> (\<forall>i < length (constants c). \<forall>k. key_of (constants c ! i) = Some k \<longrightarrow>
        const_index c k = Some (of_nat i))"

lemma pool_inv_empty [simp]: "pool_inv empty_chunk"
  by (simp add: pool_inv_def)

lemma scan_constants_Some:
  "scan_constants v i xs = Some j \<Longrightarrow> i \<le> j \<and> j < i + length xs \<and> obj_eq (xs ! (j - i)) v"
proof (induction xs arbitrary: i)
  case (Cons x xs)
  show ?case
  proof (cases "obj_eq x v")
    case True
    with Cons.prems show ?thesis by auto
  next
    case False
    with Cons.prems have "scan_constants v (Suc i) xs = Some j" by simp
    from Cons.IH [OF this] show ?thesis by (auto simp: nth_Cons' Suc_diff_Suc)
  qed
qed simp

lemma scan_constants_None: "scan_constants v i xs = None \<longleftrightarrow> (\<forall>x\<in>set xs. \<not> obj_eq x v)"
  by (induction xs arbitrary: i) auto

text \<open>What \<open>add_constant\<close> never touches.\<close>

lemma add_constant_fields [chunk_simps]:
  assumes "add_constant v c = (i, c')"
  shows "code c' = code c" "protos c' = protos c" "classes c' = classes c" "types c' = types c"
    "lines c' = lines c" "protected_regions c' = protected_regions c"
  using assms
  by (auto simp: add_constant_def push_constant_def Let_def split: option.splits)

lemma add_constant_extends:
  "add_constant v c = (i, c') \<Longrightarrow> \<exists>ext. constants c' = constants c @ ext"
  by (auto simp: add_constant_def push_constant_def Let_def split: option.splits)

lemma pool_invI:
  assumes "\<And>k i. const_index c k = Some i \<Longrightarrow>
      unat i < length (constants c) \<and> key_of (constants c ! unat i) = Some k"
    and "\<And>i k. i < length (constants c) \<Longrightarrow> key_of (constants c ! i) = Some k \<Longrightarrow>
      const_index c k = Some (of_nat i)"
  shows "pool_inv c"
  using assms unfolding pool_inv_def by blast

lemma pool_invD1:
  "pool_inv c \<Longrightarrow> const_index c k = Some i \<Longrightarrow>
     unat i < length (constants c) \<and> key_of (constants c ! unat i) = Some k"
  unfolding pool_inv_def by blast

lemma pool_invD2:
  "pool_inv c \<Longrightarrow> i < length (constants c) \<Longrightarrow> key_of (constants c ! i) = Some k \<Longrightarrow>
     const_index c k = Some (of_nat i)"
  unfolding pool_inv_def by blast

lemma push_constant_fields [simp]:
  "constants (push_constant v c) = constants c @ [v]"
  "const_index (push_constant v c) = const_index c"
  by (simp_all add: push_constant_def)

lemma pool_inv_push_keyed:
  assumes inv: "pool_inv c" and key: "key_of v = Some k" and new: "const_index c k = None"
    and i: "unat i = length (constants c)"
  shows "pool_inv (push_constant v (map_const_index (\<lambda>m. m(k := Some i)) c))"
proof (rule pool_invI, goal_cases)
  case (1 k' i')
  show ?case
  proof (cases "k' = k")
    case True
    with 1 i key show ?thesis by simp
  next
    case False
    with 1 have "const_index c k' = Some i'" by simp
    from pool_invD1 [OF inv this] show ?thesis by (simp add: nth_append)
  qed
next
  case (2 j k')
  show ?case
  proof (cases "j = length (constants c)")
    case True
    with 2 key have "k' = k" by simp
    moreover have "of_nat j = i" using i [symmetric] True by simp
    ultimately show ?thesis by simp
  next
    case False
    with 2 have j: "j < length (constants c)" "key_of (constants c ! j) = Some k'"
      by (simp_all add: nth_append)
    from pool_invD2 [OF inv this] new have "const_index c k' = Some (of_nat j)" "k' \<noteq> k" by auto
    then show ?thesis by simp
  qed
qed

lemma pool_inv_push_unkeyed:
  assumes inv: "pool_inv c" and key: "key_of v = None"
  shows "pool_inv (push_constant v c)"
proof (rule pool_invI, goal_cases)
  case (1 k i)
  with pool_invD1 [OF inv, of k i] show ?case by (simp add: nth_append)
next
  case (2 j k)
  show ?case
  proof (cases "j = length (constants c)")
    case True
    with 2 key show ?thesis by simp
  next
    case False
    with 2 pool_invD2 [OF inv, of j k] show ?thesis by (simp add: nth_append)
  qed
qed

text \<open>
  The contract of \<open>add_constant\<close>: the invariant is kept, and the index it returns names the
  value itself or one that the source's equality identifies with it.
\<close>

lemma add_constant_pool_all:
  assumes inv: "pool_inv c" and small: "length (constants c) < 2 ^ 16"
    and add: "add_constant v c = (i, c')"
  shows "pool_inv c' \<and> unat i < length (constants c') \<and>
    (constants c' ! unat i = v \<or> obj_eq (constants c' ! unat i) v)"
proof -
  have un: "unat (of_nat n :: u16) = n" if "n \<le> length (constants c)" for n
    using that small by (intro unat_of_nat_small) simp
  consider
      (hit) k idx where "key_of v = Some k" "const_index c k = Some idx"
    | (keyed) k where "key_of v = Some k" "const_index c k = None"
    | (found) j where "key_of v = None" "scan_constants v 0 (constants c) = Some j"
    | (unkeyed) "key_of v = None" "scan_constants v 0 (constants c) = None"
    by (metis not_Some_eq)
  then show ?thesis
  proof cases
    case hit
    with add have [simp]: "c' = c" "i = idx" by (simp_all add: add_constant_def)
    from pool_invD1 [OF inv hit(2)] have "unat idx < length (constants c)"
      "key_of (constants c ! unat idx) = Some k" by blast+
    moreover from this(2) hit(1) have "obj_eq (constants c ! unat idx) v"
      using key_of_obj_eq by blast
    ultimately show ?thesis using inv by simp
  next
    case keyed
    with add have c': "c' = push_constant v (map_const_index (\<lambda>m. m(k := Some i)) c)"
      and i: "i = of_nat (length (constants c))" by (auto simp: add_constant_def Let_def)
    have ui: "unat i = length (constants c)" using un i by simp
    from pool_inv_push_keyed [OF inv keyed ui] ui show ?thesis by (simp add: c')
  next
    case found
    with add have "c' = c" "i = of_nat j" by (simp_all add: add_constant_def)
    moreover from scan_constants_Some [OF found(2)]
    have "j < length (constants c)" "obj_eq (constants c ! j) v" by auto
    ultimately show ?thesis using inv un by simp
  next
    case unkeyed
    with add have c': "c' = push_constant v c" and i: "i = of_nat (length (constants c))"
      by (simp_all add: add_constant_def)
    have ui: "unat i = length (constants c)" using un i by simp
    from pool_inv_push_unkeyed [OF inv unkeyed(1)] ui show ?thesis by (simp add: c')
  qed
qed

lemmas add_constant_pool = add_constant_pool_all [THEN conjunct1]
  add_constant_pool_all [THEN conjunct2, THEN conjunct1]
  add_constant_pool_all [THEN conjunct2, THEN conjunct2]

lemma add_constant_string:
  assumes "pool_inv c" "length (constants c) < 2 ^ 16" "add_constant (OString s) c = (i, c')"
  shows "constants c' ! unat i = OString s"
  using add_constant_pool(3) [OF assms]
  by (auto simp: obj_eq_def split: obj.splits)

section \<open>The position table\<close>

text \<open>
  Binary search over a strictly sorted table of keys: \<open>Inr i\<close> is the index of the key,
  \<open>Inl i\<close> the number of smaller keys.
\<close>

lemma bsearch_base_inv:
  assumes "sorted_wrt (<) ks" "1 \<le> sz" "base + sz \<le> length ks"
    and "base = 0 \<or> ks ! base \<le> t"
    and "\<And>j. base + sz \<le> j \<Longrightarrow> j < length ks \<Longrightarrow> t < ks ! j"
  shows "bsearch_base ks t base sz < length ks \<and>
    (bsearch_base ks t base sz = 0 \<or> ks ! bsearch_base ks t base sz \<le> t) \<and>
    (\<forall>j. bsearch_base ks t base sz < j \<and> j < length ks \<longrightarrow> t < ks ! j)"
  using assms
proof (induction ks t base sz rule: bsearch_base.induct)
  case (1 ks t base sz)
  show ?case
  proof (cases "sz \<le> 1")
    case True
    with "1.prems" show ?thesis by (subst (1 2 3 4) bsearch_base.simps) auto
  next
    case False
    define half where "half = sz div 2"
    define b where "b = (if t < ks ! (base + half) then base else base + half)"
    have half: "1 \<le> half" "half < sz" "half \<le> sz - half" using False by (auto simp: half_def)
    have step: "bsearch_base ks t base sz = bsearch_base ks t b (sz - half)"
      using False by (subst bsearch_base.simps) (simp add: Let_def half_def b_def)
    have above: "t < ks ! j" if "b + (sz - half) \<le> j" "j < length ks" for j
    proof (cases "t < ks ! (base + half)")
      case True
      with that half have "base + half \<le> j" by (simp add: b_def)
      with True "1.prems"(1) that(2) show ?thesis
        by (metis le_neq_implies_less less_trans sorted_wrt_nth_less)
    next
      case False
      with that half have "base + sz \<le> j" by (simp add: b_def)
      with that(2) "1.prems"(5) show ?thesis by blast
    qed
    have "bsearch_base ks t b (sz - half) < length ks \<and>
        (bsearch_base ks t b (sz - half) = 0 \<or> ks ! bsearch_base ks t b (sz - half) \<le> t) \<and>
        (\<forall>j. bsearch_base ks t b (sz - half) < j \<and> j < length ks \<longrightarrow> t < ks ! j)"
    proof (rule "1.IH" [OF False half_def refl, folded b_def])
      show "sorted_wrt (<) ks" by (rule "1.prems"(1))
      show "1 \<le> sz - half" using half by simp
      show "b + (sz - half) \<le> length ks" using half "1.prems"(3) by (auto simp: b_def)
      show "b = 0 \<or> ks ! b \<le> t" using "1.prems"(4) by (auto simp: b_def)
    qed (rule above)
    then show ?thesis by (simp add: step)
  qed
qed

lemma binary_search_owner:
  assumes sorted: "sorted_wrt (<) ks" and i: "i < length ks" "ks ! i \<le> t"
    and next_key: "Suc i < length ks \<Longrightarrow> t < ks ! Suc i"
  shows "binary_search ks t = (if ks ! i = t then Inr i else Inl (Suc i))"
proof -
  define b where "b = bsearch_base ks t 0 (length ks)"
  have ne: "ks \<noteq> []" using i by auto
  have inv: "b < length ks" "b = 0 \<or> ks ! b \<le> t" "\<And>j. b < j \<Longrightarrow> j < length ks \<Longrightarrow> t < ks ! j"
    using bsearch_base_inv [OF sorted, of "length ks" 0 t] ne
    by (auto simp: b_def Suc_le_eq)
  have mono: "ks ! j < ks ! k" if "j < k" "k < length ks" for j k
    using sorted that by (rule sorted_wrt_nth_less)
  have "i \<le> b" using inv(3) [of i] i by (meson leD not_le)
  moreover have "b \<le> i"
  proof (rule ccontr)
    assume "\<not> b \<le> i"
    then have "Suc i \<le> b" by simp
    with inv(1) have "t < ks ! b"
      using next_key mono by (metis le_neq_implies_less less_trans)
    with inv(2) \<open>\<not> b \<le> i\<close> show False by auto
  qed
  ultimately have "b = i" by simp
  with ne i(2) show ?thesis by (auto simp: binary_search_def Let_def b_def)
qed

definition lines_inv :: "chunk \<Rightarrow> bool" where
  "lines_inv c \<longleftrightarrow> sorted_wrt (<) (map line_ip (lines c))
     \<and> (\<forall>e\<in>set (lines c). unat (line_ip e) < length (code c))"

lemma lines_inv_empty [simp]: "lines_inv empty_chunk"
  by (simp add: lines_inv_def)

lemma lines_inv_write_op:
  assumes "lines_inv c" "length (code c) < 2 ^ 32"
  shows "lines_inv (write_op op pos c)"
proof -
  have "unat (here c) = length (code c)" using assms(2) by (simp add: here_def)
  with assms(1) show ?thesis
    by (auto simp: lines_inv_def chunk_simps sorted_wrt_append word_less_nat_alt less_Suc_eq)
qed

lemma lines_inv_extend:
  "lines_inv c \<Longrightarrow> lines c' = lines c \<Longrightarrow> length (code c) \<le> length (code c') \<Longrightarrow> lines_inv c'"
  by (auto simp: lines_inv_def)

text \<open>
  \<open>position_at\<close> returns the position recorded with the instruction that owns the byte: the
  entry whose offset is the greatest one not above it.
\<close>

lemma position_at_owner:
  assumes inv: "lines_inv c" and i: "i < length (lines c)"
    and lo: "unat (line_ip (lines c ! i)) \<le> ip"
    and hi: "Suc i < length (lines c) \<Longrightarrow> ip < unat (line_ip (lines c ! Suc i))"
    and ip: "ip < 2 ^ 32"
  shows "position_at c ip = line_pos (lines c ! i)"
proof -
  have un: "unat (of_nat ip :: u32) = ip" using ip by (intro unat_of_nat_small) simp
  have "binary_search (map line_ip (lines c)) (of_nat ip) =
      (if map line_ip (lines c) ! i = of_nat ip then Inr i else Inl (Suc i))"
    using inv i lo hi un
    by (intro binary_search_owner) (simp_all add: lines_inv_def word_less_nat_alt word_le_nat_alt)
  then show ?thesis by (auto simp: position_at_def)
qed

end
