(* ===== verification/String_Lit.thy ===== *)
theory String_Lit
  imports Gts_Object
begin

text \<open>
  Literals at compile time: escape processing, templates without interpolation, splitting
  of regular-expression tokens and the scanner that finds the end of a \<^verbatim>\<open>${...}\<close> segment
  (\<^verbatim>\<open>crates/night24-gts/src/evaluator/string_lit.rs\<close>, \<^verbatim>\<open>strip_quotes\<close> of
  \<^verbatim>\<open>evaluator/eval_core.rs\<close>, the scanner of \<^verbatim>\<open>bytecode/compiler_templates.rs\<close>). Functions that
  slice a string return an option: \<open>None\<close> is the panic of a slice off a character boundary.

  The Rust loops index a byte slice; here the state of a loop is the suffix that starts at
  the index.
\<close>

section \<open>Characters\<close>

text \<open>\<^verbatim>\<open>String::push(char)\<close>: the UTF-8 encoding of a scalar value.\<close>

definition utf8_encode :: "nat \<Rightarrow> string" where
  "utf8_encode n =
     (if n < 0x80 then [char_of n]
      else if n < 0x800 then [char_of (0xC0 + n div 64), char_of (0x80 + n mod 64)]
      else if n < 0x10000 then
        [char_of (0xE0 + n div 4096), char_of (0x80 + n div 64 mod 64), char_of (0x80 + n mod 64)]
      else
        [char_of (0xF0 + n div 262144), char_of (0x80 + n div 4096 mod 64),
         char_of (0x80 + n div 64 mod 64), char_of (0x80 + n mod 64)])"

text \<open>\<^verbatim>\<open>char::from_u32\<close>, encoded.\<close>

definition char_from_u32 :: "nat \<Rightarrow> string option" where
  "char_from_u32 v =
     (if v < 0xD800 \<or> 0xDFFF < v \<and> v \<le> 0x10FFFF then Some (utf8_encode v) else None)"

definition is_hex :: "char \<Rightarrow> bool" where
  "is_hex c \<longleftrightarrow>
     (let n = (of_char c :: nat) in 48 \<le> n \<and> n \<le> 57 \<or> 97 \<le> n \<and> n \<le> 102 \<or> 65 \<le> n \<and> n \<le> 70)"

definition hex_digit :: "char \<Rightarrow> nat" where
  "hex_digit c =
     (let n = (of_char c :: nat)
      in if n \<le> 57 then n - 48 else if n \<le> 70 then n - 55 else n - 87)"

text \<open>\<^verbatim>\<open>u32::from_str_radix(hex, 16)\<close> on a string of hexadecimal digits.\<close>

definition from_hex :: "string \<Rightarrow> nat option" where
  "from_hex s =
     (let v = foldl (\<lambda>n c. 16 * n + hex_digit c) 0 s in if v < 2 ^ 32 then Some v else None)"

section \<open>Escapes\<close>

text \<open>
  One escape, \<open>rest\<close> being the bytes after the backslash: what it pushes and how many bytes
  it consumes.
\<close>

definition escape_x :: "string \<Rightarrow> string \<times> nat" where
  "escape_x r =
     (case r of
        h1 # h2 # _ \<Rightarrow>
          if is_hex h1 \<and> is_hex h2 then (utf8_encode (16 * hex_digit h1 + hex_digit h2), 3)
          else (''x'', 1)
      | _ \<Rightarrow> (''x'', 1))"

definition escape_u_braced :: "string \<Rightarrow> string \<times> nat" where
  "escape_u_braced r =
     (case r of
        b # c # cs \<Rightarrow>
          if b = CHR ''{'' \<and> CHR 0x7D \<in> set (c # cs) then
            let hex = takeWhile (\<lambda>c. c \<noteq> CHR 0x7D) (c # cs)
            in if hex \<noteq> [] \<and> list_all is_hex hex then
                 (case from_hex hex of
                    Some v \<Rightarrow>
                      (case char_from_u32 v of
                         Some out \<Rightarrow> (out, 3 + length hex)
                       | None \<Rightarrow> (''u'', 1))
                  | None \<Rightarrow> (''u'', 1))
               else (''u'', 1)
          else (''u'', 1)
      | _ \<Rightarrow> (''u'', 1))"

definition escape_u :: "string \<Rightarrow> string \<times> nat" where
  "escape_u r =
     (case r of
        h1 # h2 # h3 # h4 # _ \<Rightarrow>
          if is_hex h1 \<and> is_hex h2 \<and> is_hex h3 \<and> is_hex h4 then
            (case from_hex [h1, h2, h3, h4] of
               Some v \<Rightarrow> (case char_from_u32 v of Some out \<Rightarrow> (out, 5) | None \<Rightarrow> ([], 5))
             | None \<Rightarrow> ([], 5))
          else escape_u_braced r
      | _ \<Rightarrow> escape_u_braced r)"

definition simple_escapes :: "(char \<times> char) list" where
  "simple_escapes =
     [(CHR ''n'', CHR 0x0A), (CHR ''t'', CHR 0x09), (CHR ''r'', CHR 0x0D), (CHR ''b'', CHR 0x08),
      (CHR ''f'', CHR 0x0C), (CHR ''v'', CHR 0x0B), (CHR ''0'', CHR 0x00),
      (CHR 0x5C, CHR 0x5C), (CHR 0x22, CHR 0x22), (CHR 0x27, CHR 0x27), (CHR 0x60, CHR 0x60)]"

definition escape_at :: "char \<Rightarrow> string \<Rightarrow> string \<times> nat" where
  "escape_at nxt r =
     (case map_of simple_escapes nxt of
        Some c \<Rightarrow> ([c], 1)
      | None \<Rightarrow>
          if nxt = CHR ''x'' then escape_x r
          else if nxt = CHR ''u'' then escape_u r
          else (utf8_encode (of_char nxt), 1))"

text \<open>
  \<^verbatim>\<open>unescape_string\<close>. The copy branch slices \<^verbatim>\<open>s[i..]\<close>, which panics when the byte at \<open>i\<close>
  continues a character.
\<close>

function (sequential) unescape_string :: "string \<Rightarrow> string option" where
  "unescape_string [] = Some []"
| "unescape_string (b # nxt # rest) =
     (if b = CHR 0x5C then
        (case escape_at nxt rest of
           (out, n) \<Rightarrow> map_option ((@) out) (unescape_string (drop n (nxt # rest))))
      else if is_cont b then None
      else map_option ((@) (b # takeWhile is_cont (nxt # rest)))
             (unescape_string (dropWhile is_cont (nxt # rest))))"
| "unescape_string [b] = (if is_cont b then None else Some [b])"
  by pat_completeness auto
termination
  by (relation "measure length")
    (auto simp: less_Suc_eq_le length_dropWhile_le intro: le_trans [OF length_dropWhile_le])

text \<open>\<^verbatim>\<open>eval_string_lit\<close>.\<close>

definition eval_string_lit :: "string \<Rightarrow> obj option" where
  "eval_string_lit lit =
     (if length lit < 2 then Some (OString [])
      else (case str_slice lit 1 (length lit - 1) of
              Some inner \<Rightarrow> map_option OString (unescape_string inner)
            | None \<Rightarrow> None))"

text \<open>The part of a template token between its back-quotes, and \<^verbatim>\<open>eval_template_static\<close>.\<close>

definition template_inner :: "string \<Rightarrow> string" where
  "template_inner lit =
     (let inner = drop 1 lit
      in if ends_with inner [CHR 0x60] then take (length inner - 1) inner else inner)"

definition eval_template_static :: "string \<Rightarrow> obj option" where
  "eval_template_static lit =
     (if length lit < 2 \<or> \<not> starts_with lit [CHR 0x60] then Some (OString lit)
      else map_option OString (unescape_string (template_inner lit)))"

section \<open>Regular expressions and quotes\<close>

text \<open>\<^verbatim>\<open>split_regexp\<close>: \<open>acc\<close> holds the bytes \<^verbatim>\<open>lit[1..i]\<close>.\<close>

fun split_regexp_from :: "bool \<Rightarrow> bool \<Rightarrow> string \<Rightarrow> string \<Rightarrow> string \<times> string" where
  "split_regexp_from in_class escape acc [] = ([], [])"
| "split_regexp_from in_class escape acc (ch # cs) =
     (if escape then split_regexp_from in_class False (acc @ [ch]) cs
      else if ch = CHR 0x5C then split_regexp_from in_class True (acc @ [ch]) cs
      else if in_class then split_regexp_from (ch \<noteq> CHR '']'') False (acc @ [ch]) cs
      else if ch = CHR ''['' then split_regexp_from True False (acc @ [ch]) cs
      else if ch = CHR ''/'' then (acc, cs)
      else split_regexp_from False False (acc @ [ch]) cs)"

definition split_regexp :: "string \<Rightarrow> string \<times> string" where
  "split_regexp lit =
     (case lit of
        c # rest \<Rightarrow>
          if rest = [] \<or> c \<noteq> CHR ''/'' then ([], []) else split_regexp_from False False [] rest
      | [] \<Rightarrow> ([], []))"

text \<open>\<^verbatim>\<open>eval_regexp_lit\<close>; \<open>regex_ok\<close> is whether \<^verbatim>\<open>regex::Regex::new\<close> accepts a pattern.\<close>

definition eval_regexp_lit :: "(string \<Rightarrow> bool) \<Rightarrow> position \<Rightarrow> string \<Rightarrow> obj" where
  "eval_regexp_lit regex_ok pos lit =
     (let (source, flags) = split_regexp lit;
          pattern = (if contains flags ''i'' then ''(?i)'' @ source else source)
      in if regex_ok pattern then ORegexp source flags
         else new_error pos (''SyntaxError: invalid regexp /'' @ source @ ''/'' @ flags))"

definition strip_quotes :: "string \<Rightarrow> string" where
  "strip_quotes lit =
     (if 2 \<le> length lit \<and> (lit ! 0 = CHR 0x22 \<or> lit ! 0 = CHR 0x27)
         \<and> lit ! (length lit - 1) = lit ! 0
      then take (length lit - 2) (drop 1 lit) else lit)"

section \<open>Template segments\<close>

text \<open>
  \<^verbatim>\<open>find_template_expr_end\<close>: the offset, from the start of the scan, of the brace that
  closes the segment. \<open>quote\<close> is the quote character the scan is inside of.
\<close>

fun template_end_from ::
  "nat \<Rightarrow> int \<Rightarrow> char option \<Rightarrow> bool \<Rightarrow> string \<Rightarrow> nat option" where
  "template_end_from i depth quote escape [] = None"
| "template_end_from i depth quote escape (ch # cs) =
     (case quote of
        Some q \<Rightarrow>
          if escape then template_end_from (Suc i) depth quote False cs
          else if ch = CHR 0x5C then template_end_from (Suc i) depth quote True cs
          else if ch = q then template_end_from (Suc i) depth None False cs
          else template_end_from (Suc i) depth quote False cs
      | None \<Rightarrow>
          if ch = CHR 0x22 \<or> ch = CHR 0x27 then
            template_end_from (Suc i) depth (Some ch) escape cs
          else if ch = CHR 0x7B then template_end_from (Suc i) (depth + 1) None escape cs
          else if ch = CHR 0x7D then
            (if depth = 0 then Some i else template_end_from (Suc i) (depth - 1) None escape cs)
          else template_end_from (Suc i) depth None escape cs)"

definition find_template_expr_end :: "string \<Rightarrow> nat option" where
  "find_template_expr_end s = template_end_from 0 0 None False s"

text \<open>The run of literal bytes up to the next \<^verbatim>\<open>${\<close>, and what follows it.\<close>

fun template_text :: "string \<Rightarrow> string \<times> string" where
  "template_text [] = ([], [])"
| "template_text (c # cs) =
     (if starts_with (c # cs) [CHR 0x24, CHR 0x7B] then ([], c # cs)
      else (let (tx, rest) = template_text cs in (c # tx, rest)))"

section \<open>Properties\<close>

lemma template_text_append: "template_text s = (tx, rest) \<Longrightarrow> s = tx @ rest"
  by (induction s arbitrary: tx rest) (auto split: if_splits prod.splits)

lemma template_text_shrinks: "template_text s = (tx, rest) \<Longrightarrow> length rest \<le> length s"
  using template_text_append by fastforce

lemma template_text_consumes:
  assumes "template_text (c # cs) = (tx, rest)" "\<not> starts_with (c # cs) [CHR 0x24, CHR 0x7B]"
  shows "length rest \<le> length cs"
  using assms template_text_shrinks by (auto split: prod.splits)

lemma template_end_from_bound:
  "template_end_from i depth quote escape s = Some j \<Longrightarrow>
     i \<le> j \<and> j < i + length s \<and> s ! (j - i) = CHR 0x7D"
proof (induction s arbitrary: i depth quote escape)
  case (Cons ch cs)
  have step: ?case if rec: "template_end_from (Suc i) d q e cs = Some j" for d q e
    using Cons.IH [OF rec] by (auto simp: Suc_diff_Suc nth_Cons')
  show ?case
    using Cons.prems by (auto split: option.splits if_splits dest: step)
qed simp

lemma find_template_expr_end_bound:
  "find_template_expr_end s = Some j \<Longrightarrow> j < length s \<and> s ! j = CHR 0x7D"
  unfolding find_template_expr_end_def by (drule template_end_from_bound) simp

text \<open>
  A string without a backslash is copied, so a plain literal is its own tx between the
  quotes.
\<close>

lemma unescape_plain:
  assumes "CHR 0x5C \<notin> set s" and "\<forall>c\<in>set s. \<not> is_cont c"
  shows "unescape_string s = Some s"
  using assms
proof (induction s rule: unescape_string.induct)
  case (2 b nxt rest)
  then have "takeWhile is_cont (nxt # rest) = []" "dropWhile is_cont (nxt # rest) = nxt # rest"
    by auto
  with 2 show ?case by auto
qed auto

end
