(* ===== verification/Emit.thy ===== *)
theory Emit
  imports Chunk String_Lit
begin

text \<open>
  The emission helpers of the bytecode compiler
  (\<^verbatim>\<open>crates/night24-gts/src/bytecode/emit.rs\<close>, \<^verbatim>\<open>compiler_decl_store.rs\<close>,
  \<^verbatim>\<open>compiler_helpers.rs\<close>, \<^verbatim>\<open>compiler_classes.rs\<close> and \<^verbatim>\<open>unsupported\<close> of \<^verbatim>\<open>compiler.rs\<close>).
  A helper that mutates the chunk returns the new chunk; one that also returns a value
  returns the pair.
\<close>

section \<open>Errors of the compiler\<close>

text \<open>
  \<open>CErr\<close> is the \<^verbatim>\<open>Err\<close> of the Rust functions, \<open>CPanic\<close> a panic (a slice off a character
  boundary), \<open>CFuel\<close> stands for a recursion deeper than the fuel of the model.
\<close>

datatype cerr = CErr obj | CPanic | CFuel

definition unsupported :: "position \<Rightarrow> string \<Rightarrow> cerr" where
  "unsupported pos what =
     CErr (new_error pos (''CompileError: bytecode VM does not yet support '' @ what))"

section \<open>Operands\<close>

definition emit_string_operand :: "opcode \<Rightarrow> string \<Rightarrow> position \<Rightarrow> chunk \<Rightarrow> chunk" where
  "emit_string_operand op value pos c =
     (case add_constant (OString value) c of
        (idx, c1) \<Rightarrow> write_u16 idx (write_op op pos c1))"

definition emit_load_name :: "string \<Rightarrow> position \<Rightarrow> chunk \<Rightarrow> chunk" where
  "emit_load_name name = emit_string_operand OpLoadName name"

definition emit_const :: "u16 \<Rightarrow> position \<Rightarrow> chunk \<Rightarrow> chunk" where
  "emit_const idx pos c = write_u16 idx (write_op OpConst pos c)"

text \<open>\<^verbatim>\<open>emit_value_constant\<close>; it never fails.\<close>

definition emit_value_constant :: "obj \<Rightarrow> position \<Rightarrow> chunk \<Rightarrow> chunk" where
  "emit_value_constant v pos c = (case add_constant v c of (idx, c1) \<Rightarrow> emit_const idx pos c1)"

text \<open>
  \<^verbatim>\<open>decl_name_operand\<close>: the high bit of the name index marks a constant binding.
\<close>

definition decl_name_operand :: "string \<Rightarrow> bool \<Rightarrow> chunk \<Rightarrow> u16 \<times> chunk" where
  "decl_name_operand name is_const c =
     (case add_constant (OString name) c of
        (name_idx, c1) \<Rightarrow> (if is_const then name_idx OR 0x8000 else name_idx, c1))"

definition emit_decl_store :: "string \<Rightarrow> bool \<Rightarrow> position \<Rightarrow> chunk \<Rightarrow> chunk" where
  "emit_decl_store name is_const pos c =
     (case decl_name_operand name is_const c of
        (operand, c1) \<Rightarrow> write_u16 operand (write_op OpStoreName pos c1))"

definition add_class_decl :: "gclass \<Rightarrow> chunk \<Rightarrow> u16 \<times> chunk" where
  "add_class_decl decl c = (of_nat (length (classes c)), map_classes (\<lambda>cs. cs @ [decl]) c)"

text \<open>\<^verbatim>\<open>emit_class_value\<close>, \<^verbatim>\<open>compile_class_decl\<close> and \<^verbatim>\<open>compile_class_expr\<close>.\<close>

definition emit_class_value :: "gclass \<Rightarrow> chunk \<Rightarrow> chunk" where
  "emit_class_value d c =
     (case add_class_decl d c of
        (class_idx, c1) \<Rightarrow> write_u16 class_idx (write_op OpNewClass (cd_pos d) c1))"

definition compile_class_decl :: "gclass \<Rightarrow> chunk \<Rightarrow> cerr + chunk" where
  "compile_class_decl d c =
     Inr (emit_string_operand OpStoreName (cd_name d) (cd_pos d) (emit_class_value d c))"

definition compile_class_expr :: "gclass \<Rightarrow> chunk \<Rightarrow> cerr + chunk" where
  "compile_class_expr d c = Inr (emit_class_value d c)"

section \<open>Jumps\<close>

text \<open>
  \<^verbatim>\<open>patch_jump_to\<close> overwrites the four operand bytes. Its callers only pass an offset that
  \<^verbatim>\<open>emit_jump_placeholder\<close> returned, where the four bytes exist
  (\<open>emit_jump_placeholder_room\<close>); past the end the Rust indexing would panic.
\<close>

definition patch_jump_to :: "u32 \<Rightarrow> u32 \<Rightarrow> chunk \<Rightarrow> chunk" where
  "patch_jump_to operand_ip target =
     (let ip = unat operand_ip; bytes = be32 target
      in map_code (\<lambda>cs. cs[ip := bytes ! 0, ip + 1 := bytes ! 1,
                           ip + 2 := bytes ! 2, ip + 3 := bytes ! 3]))"

definition emit_jump_placeholder :: "opcode \<Rightarrow> position \<Rightarrow> chunk \<Rightarrow> u32 \<times> chunk" where
  "emit_jump_placeholder op pos c =
     (let c1 = write_op op pos c; patch = here c1 in (patch, write_u32 0 c1))"

definition patch_jump_here :: "u32 \<Rightarrow> chunk \<Rightarrow> chunk" where
  "patch_jump_here operand_ip c = patch_jump_to operand_ip (here c) c"

text \<open>\<^verbatim>\<open>for p in patches { patch_jump_to(chunk, p, target) }\<close>.\<close>

definition patch_all :: "u32 list \<Rightarrow> u32 \<Rightarrow> chunk \<Rightarrow> chunk" where
  "patch_all ps target c = fold (\<lambda>p. patch_jump_to p target) ps c"

section \<open>The last instruction\<close>

text \<open>\<^verbatim>\<open>matches_last_opcode\<close>: a linear decode from the start.\<close>

function last_opcode :: "u8 list \<Rightarrow> opcode option \<Rightarrow> opcode option" where
  "last_opcode [] last_op = last_op"
| "last_opcode (byte # bytes) last_op =
     (let op = from_byte byte
      in last_opcode (drop (case op of Some opc \<Rightarrow> operand_width opc | None \<Rightarrow> 0) bytes) op)"
  by pat_completeness auto
termination
  by (relation "measure (\<lambda>(bytes, _). length bytes)") auto

definition matches_last_opcode :: "chunk \<Rightarrow> opcode \<Rightarrow> bool" where
  "matches_last_opcode c op \<longleftrightarrow> last_opcode (code c) None = Some op"

section \<open>Keys\<close>

text \<open>
  \<^verbatim>\<open>object_property_key_expr\<close> and \<^verbatim>\<open>object_property_key\<close>; \<open>fmt\<close> is the number formatter of
  Rust's standard library.
\<close>

fun object_property_key_expr :: "(f64 \<Rightarrow> string) \<Rightarrow> expr \<Rightarrow> string" where
  "object_property_key_expr fmt (EIdent _ name) = name"
| "object_property_key_expr fmt (EString _ literal) = strip_quotes literal"
| "object_property_key_expr fmt (ENumber _ _ val _) = format_number fmt val"
| "object_property_key_expr fmt _ = []"

definition object_property_key :: "(f64 \<Rightarrow> string) \<Rightarrow> expr property \<Rightarrow> cerr + string" where
  "object_property_key fmt prop =
     (let key = object_property_key_expr fmt (prop_key prop);
          result = (if key = [] then Inl (unsupported (prop_pos prop) ''object property key'')
                    else Inr key)
      in if prop_shorthand prop
         then (case prop_key prop of EIdent _ name \<Rightarrow> Inr name | _ \<Rightarrow> result)
         else result)"

section \<open>Facts about the helpers\<close>

lemma unat_Suc_of_nat: "Suc n < 2 ^ 32 \<Longrightarrow> unat (1 + of_nat n :: u32) = Suc n"
  using unat_of_nat_small [of "Suc n", where 'a = 32] by simp

lemma emit_jump_placeholder_room:
  assumes "emit_jump_placeholder op pos c = (ip, c')" "length (code c) + 5 \<le> 2 ^ 32"
  shows "unat ip = length (code c) + 1 \<and> length (code c') = length (code c) + 5"
  using assms
  by (auto simp: emit_jump_placeholder_def here_def chunk_simps Let_def unat_Suc_of_nat)

lemma code_patch_jump_to:
  "code (patch_jump_to ip t c) =
     (code c)[unat ip := be32 t ! 0, unat ip + 1 := be32 t ! 1,
              unat ip + 2 := be32 t ! 2, unat ip + 3 := be32 t ! 3]"
  by (simp add: patch_jump_to_def Let_def)

lemma patch_jump_to_fields [simp]:
  "length (code (patch_jump_to ip t c)) = length (code c)"
  "constants (patch_jump_to ip t c) = constants c"
  "const_index (patch_jump_to ip t c) = const_index c"
  "protos (patch_jump_to ip t c) = protos c" "classes (patch_jump_to ip t c) = classes c"
  "types (patch_jump_to ip t c) = types c" "lines (patch_jump_to ip t c) = lines c"
  "protected_regions (patch_jump_to ip t c) = protected_regions c"
  by (simp_all add: patch_jump_to_def Let_def)

text \<open>Overwriting four bytes in the middle.\<close>

lemma update_four:
  assumes "length old = 4" "length new = 4" "n = length xs"
  shows "(xs @ old @ ys)[n := new ! 0, n + 1 := new ! 1, n + 2 := new ! 2, n + 3 := new ! 3]
         = xs @ new @ ys"
proof -
  obtain a b d e where "old = [a, b, d, e]"
    using assms(1) by (auto simp: numeral_eq_Suc length_Suc_conv)
  moreover obtain a' b' d' e' where "new = [a', b', d', e']"
    using assms(2) by (auto simp: numeral_eq_Suc length_Suc_conv)
  ultimately show ?thesis
    by (simp add: assms(3) list_update_append numeral_eq_Suc)
qed

end
