(* ===== verification/Layout.thy ===== *)
theory Layout
  imports Emit
begin

unbundle bit_operations_syntax

text \<open>
  What it means for a chunk to be well formed, and the calculus that shows the compiler
  keeps it so.

  \<open>instrs\<close> decodes the code into instructions with their offsets. \<open>verify\<close> is an executable
  bytecode verifier: the code decodes to its end, every jump and every protected region
  points at an instruction boundary, every operand that indexes a table is in range (and a
  name operand denotes a string), the position table lists exactly the instruction
  offsets, and the same holds of the chunks of all nested function prototypes.

  \<open>flow\<close> relates the chunk before and after a piece of compiler code; it is reflexive and
  transitive, and one rule per emission helper extends it.
\<close>

section \<open>Instructions of a chunk\<close>

type_synonym instr = "nat \<times> opcode \<times> u8 list"

function layout :: "nat \<Rightarrow> u8 list \<Rightarrow> instr list option" where
  "layout off [] = Some []"
| "layout off (b # bs) =
     (case from_byte b of
        None \<Rightarrow> None
      | Some op \<Rightarrow>
          let w = operand_width op
          in if length bs < w then None
             else map_option ((#) (off, op, take w bs)) (layout (off + 1 + w) (drop w bs)))"
  by pat_completeness auto
termination
  by (relation "measure (\<lambda>(_, bs). length bs)") auto

definition instrs :: "chunk \<Rightarrow> instr list option" where
  "instrs c = layout 0 (code c)"

lemma layout_cons:
  "length ops = operand_width op \<Longrightarrow>
     layout off (op_byte op # ops @ cs) =
       map_option ((#) (off, op, ops)) (layout (off + 1 + operand_width op) cs)"
  by (simp add: Let_def)

declare layout.simps(2) [simp del]

lemma layout_ConsE:
  assumes "layout off (b # bs) = Some xs"
  obtains op ops cs ys where "b = op_byte op" "bs = ops @ cs" "length ops = operand_width op"
    "layout (off + 1 + operand_width op) cs = Some ys" "xs = (off, op, ops) # ys"
proof -
  from assms obtain op where op: "from_byte b = Some op" and len: "operand_width op \<le> length bs"
    and rest: "map_option ((#) (off, op, take (operand_width op) bs))
      (layout (off + 1 + operand_width op) (drop (operand_width op) bs)) = Some xs"
    by (auto simp: layout.simps(2) Let_def split: option.splits if_splits)
  from rest obtain ys where
    "layout (off + 1 + operand_width op) (drop (operand_width op) bs) = Some ys"
    "xs = (off, op, take (operand_width op) bs) # ys" by auto
  moreover have "bs = take (operand_width op) bs @ drop (operand_width op) bs" by simp
  ultimately show ?thesis using that op len by (metis from_byte_SomeD length_take min_absorb2)
qed

lemma layout_append:
  "layout off bs = Some xs \<Longrightarrow>
     layout off (bs @ cs) = map_option ((@) xs) (layout (off + length bs) cs)"
proof (induction "length bs" arbitrary: off bs xs rule: less_induct)
  case less
  show ?case
  proof (cases bs)
    case Nil
    then show ?thesis using less.prems by (cases "layout off cs") auto
  next
    case (Cons b bs')
    from less.prems obtain op ops ds ys where
      d: "b = op_byte op" "bs' = ops @ ds" "length ops = operand_width op"
      "layout (off + 1 + operand_width op) ds = Some ys" "xs = (off, op, ops) # ys"
      unfolding Cons by (rule layout_ConsE)
    have "length ds < length bs" using Cons d(2) by simp
    from less.hyps [OF this d(4)] d(3)
    have "layout (off + 1 + operand_width op) (ds @ cs) =
        map_option ((@) ys) (layout (off + length bs) cs)"
      by (simp add: Cons d(2) algebra_simps)
    with d(3) show ?thesis
      by (cases "layout (Suc (off + (operand_width op + length ds))) cs")
        (simp_all add: Cons d(1,2,5) layout_cons)
  qed
qed

text \<open>Every decoded instruction splits the code around its operands.\<close>

lemma layout_split:
  "layout off bs = Some xs \<Longrightarrow> (i, op, ops) \<in> set xs \<Longrightarrow>
     \<exists>pre post ys zs. bs = pre @ op_byte op # ops @ post \<and> i = off + length pre
       \<and> length ops = operand_width op \<and> xs = ys @ (i, op, ops) # zs
       \<and> layout off pre = Some ys \<and> layout (i + 1 + operand_width op) post = Some zs"
proof (induction "length bs" arbitrary: off bs xs rule: less_induct)
  case less
  show ?case
  proof (cases bs)
    case Nil
    then show ?thesis using less.prems by simp
  next
    case (Cons b bs')
    from less.prems(1) obtain op' ops' ds ys where
      d: "b = op_byte op'" "bs' = ops' @ ds" "length ops' = operand_width op'"
      "layout (off + 1 + operand_width op') ds = Some ys" "xs = (off, op', ops') # ys"
      unfolding Cons by (rule layout_ConsE)
    from less.prems(2) d(5) consider "(i, op, ops) = (off, op', ops')" | "(i, op, ops) \<in> set ys"
      by auto
    then show ?thesis
    proof cases
      case 1
      with d Cons show ?thesis
        by (intro exI [of _ "[]"] exI [of _ ds] exI [of _ ys]) auto
    next
      case 2
      have "length ds < length bs" using Cons d(2) by simp
      from less.hyps [OF this d(4) 2] obtain pre post us vs where
        r: "ds = pre @ op_byte op # ops @ post" "i = off + 1 + operand_width op' + length pre"
        "length ops = operand_width op" "ys = us @ (i, op, ops) # vs"
        "layout (off + 1 + operand_width op') pre = Some us"
        "layout (i + 1 + operand_width op) post = Some vs" by blast
      have "layout off (op_byte op' # ops' @ pre) = Some ((off, op', ops') # us)"
        using d(3) r(5) by (simp add: layout_cons)
      with r d Cons show ?thesis
        by (intro exI [of _ "op_byte op' # ops' @ pre"] exI [of _ post]
            exI [of _ "(off, op', ops') # us"] exI [of _ vs]) auto
    qed
  qed
qed

lemma layout_bounds:
  "layout off bs = Some xs \<Longrightarrow> (i, op, ops) \<in> set xs \<Longrightarrow>
     off \<le> i \<and> i + 1 + operand_width op \<le> off + length bs"
  by (drule layout_split, assumption) auto

lemma layout_sorted: "layout off bs = Some xs \<Longrightarrow> sorted_wrt (<) (map fst xs)"
proof (induction "length bs" arbitrary: off bs xs rule: less_induct)
  case less
  show ?case
  proof (cases bs)
    case Nil
    then show ?thesis using less.prems by simp
  next
    case (Cons b bs')
    from less.prems obtain op ops ds ys where
      d: "b = op_byte op" "bs' = ops @ ds" "length ops = operand_width op"
      "layout (off + 1 + operand_width op) ds = Some ys" "xs = (off, op, ops) # ys"
      unfolding Cons by (rule layout_ConsE)
    have "length ds < length bs" using Cons d(2) by simp
    from less.hyps [OF this d(4)] have "sorted_wrt (<) (map fst ys)" .
    moreover have "off < i" if "i \<in> set (map fst ys)" for i
      using that layout_bounds [OF d(4)] by fastforce
    ultimately show ?thesis using d(5) by simp
  qed
qed

text \<open>Replacing the operands of one instruction replaces them in the decoded list.\<close>

lemma layout_replace:
  assumes "layout off (pre @ op_byte op # old @ post) = Some (ys @ (i, op, old) # zs)"
    and "layout off pre = Some ys" "layout (i + 1 + operand_width op) post = Some zs"
    and "i = off + length pre" "length old = operand_width op" "length new = operand_width op"
  shows "layout off (pre @ op_byte op # new @ post) = Some (ys @ (i, op, new) # zs)"
  using assms by (simp add: layout_append layout_cons)

section \<open>The verifier\<close>

definition word16_of :: "u8 list \<Rightarrow> u16" where
  "word16_of ops = word16 (ops ! 0) (ops ! 1)"

definition word32_of :: "u8 list \<Rightarrow> u32" where
  "word32_of ops = word32 (ops ! 0) (ops ! 1) (ops ! 2) (ops ! 3)"

definition string_const :: "obj list \<Rightarrow> u16 \<Rightarrow> bool" where
  "string_const cs idx \<longleftrightarrow> unat idx < length cs \<and> is_string (cs ! unat idx)"

definition name_ops :: "opcode list" where
  "name_ops = [OpLoadName, OpAssignName, OpLoadGlobal, OpGetProperty, OpSetProperty,
     OpSuperMethod, OpImportModule, OpExportName]"

text \<open>The opcodes that the VM decodes but does not implement.\<close>

definition unimplemented_ops :: "opcode list" where
  "unimplemented_ops = [OpAnd, OpOr, OpDefineMethod]"

lemma unimplemented_iff [simp]:
  "op \<in> set unimplemented_ops \<longleftrightarrow> op = OpAnd \<or> op = OpOr \<or> op = OpDefineMethod"
  by (auto simp: unimplemented_ops_def)

lemma jump_implemented [simp]:
  assumes "op \<in> set ops_jump"
  shows "op \<noteq> OpAnd" "op \<noteq> OpOr" "op \<noteq> OpDefineMethod"
  using assms by (auto simp: ops_jump_def)

definition operands_ok :: "chunk \<Rightarrow> nat list \<Rightarrow> opcode \<Rightarrow> u8 list \<Rightarrow> bool" where
  "operands_ok c bounds op ops =
     (if op \<in> set unimplemented_ops then False
      else if op \<in> set ops_jump then unat (word32_of ops) \<in> set bounds
      else if op \<in> set name_ops then string_const (constants c) (word16_of ops)
      else if op = OpStoreName \<or> op = OpStoreGlobal then string_const (constants c) (word16_of ops AND 0x7FFF)
      else if op = OpStoreTypedName then
        string_const (constants c) (word16_of ops AND 0x7FFF)
        \<and> unat (word16_of (drop 2 ops)) < length (types c)
      else if op = OpConst then unat (word16_of ops) < length (constants c)
      else if op = OpClosure then unat (word16_of ops) < length (protos c)
      else if op = OpNewClass then unat (word16_of ops) < length (classes c)
      else True)"

definition region_ok :: "nat list \<Rightarrow> protected_region \<Rightarrow> bool" where
  "region_ok bounds r \<longleftrightarrow>
     unat (try_start r) \<in> set bounds \<and> unat (try_end r) \<in> set bounds \<and> try_start r \<le> try_end r
     \<and> unat (handler_ip r) \<in> set bounds
     \<and> (case finally_ip r of None \<Rightarrow> True | Some ip \<Rightarrow> unat ip \<in> set bounds)"

text \<open>The boundaries: the offsets of the instructions and the end of the code.\<close>

definition bounds_of :: "chunk \<Rightarrow> instr list \<Rightarrow> nat list" where
  "bounds_of c xs = map fst xs @ [length (code c)]"

definition local_ok :: "chunk \<Rightarrow> bool" where
  "local_ok c \<longleftrightarrow>
     (case instrs c of
        None \<Rightarrow> False
      | Some xs \<Rightarrow>
          list_all (\<lambda>(off, op, ops). operands_ok c (bounds_of c xs) op ops) xs
          \<and> list_all (region_ok (bounds_of c xs)) (protected_regions c)
          \<and> map (unat \<circ> line_ip) (lines c) = map fst xs)"

text \<open>A property of a chunk and of the chunks of all prototypes nested in it.\<close>

primrec all_chunks :: "(chunk \<Rightarrow> bool) \<Rightarrow> chunk \<Rightarrow> bool"
  and all_chunks_proto :: "(chunk \<Rightarrow> bool) \<Rightarrow> function_proto \<Rightarrow> bool" where
  "all_chunks Q (Chunk cd cs ci ps cls ts ls rs) =
     (Q (Chunk cd cs ci ps cls ts ls rs) \<and> list_all id (map (all_chunks_proto Q) ps))"
| "all_chunks_proto Q (FunctionProto n pa ar sl ud b ia lt rt p ch) =
     (case map_option (all_chunks Q) ch of None \<Rightarrow> True | Some r \<Rightarrow> r)"

definition verify :: "chunk \<Rightarrow> bool" where
  "verify c = all_chunks local_ok c"

lemma all_chunks_iff: "all_chunks Q c \<longleftrightarrow> Q c \<and> (\<forall>p\<in>set (protos c). all_chunks_proto Q p)"
  by (cases c) (auto simp: list_all_iff)

lemma all_chunks_proto_iff:
  "all_chunks_proto Q p \<longleftrightarrow> (\<forall>c. proto_chunk p = Some c \<longrightarrow> all_chunks Q c)"
  by (cases p) (auto split: option.splits)

declare all_chunks.simps [simp del] all_chunks_proto.simps [simp del]

section \<open>Well-formed chunks\<close>

text \<open>
  \<open>sound\<close> adds the interning invariant of the constant pool, which the verifier cannot see.
  \<open>small\<close> bounds the sizes that the operand encodings can express: 32-bit jump targets,
  15-bit name indices (the high bit is the constant flag), 16-bit table indices.
\<close>

definition sound1 :: "chunk \<Rightarrow> bool" where
  "sound1 c \<longleftrightarrow> local_ok c \<and> pool_inv c"

definition small1 :: "chunk \<Rightarrow> bool" where
  "small1 c \<longleftrightarrow> length (code c) < 2 ^ 32 \<and> length (constants c) \<le> 2 ^ 15
     \<and> length (protos c) \<le> 2 ^ 16 \<and> length (classes c) \<le> 2 ^ 16 \<and> length (types c) \<le> 2 ^ 16"

definition sound :: "chunk \<Rightarrow> bool" where
  "sound c = all_chunks sound1 c"

definition small :: "chunk \<Rightarrow> bool" where
  "small c = all_chunks small1 c"

lemma all_chunks_mono:
  assumes "\<And>c. P c \<Longrightarrow> Q c"
  shows "all_chunks P c \<longrightarrow> all_chunks Q c"
    and "all_chunks_proto P p \<longrightarrow> all_chunks_proto Q p"
  by (induction c and p)
    (auto simp: all_chunks.simps all_chunks_proto.simps list_all_iff assms split: option.splits)

lemma sound_verify: "sound c \<Longrightarrow> verify c"
  using all_chunks_mono(1) [of sound1 local_ok c] by (simp add: sound_def verify_def sound1_def)

text \<open>The boundaries of a chunk and the operand offsets of its jumps.\<close>

definition bnds :: "chunk \<Rightarrow> nat set" where
  "bnds c = (case instrs c of None \<Rightarrow> {} | Some xs \<Rightarrow> set (bounds_of c xs))"

definition jops :: "chunk \<Rightarrow> nat set" where
  "jops c = (case instrs c of None \<Rightarrow> {}
     | Some xs \<Rightarrow> {i + 1 | i op ops. (i, op, ops) \<in> set xs \<and> op \<in> set ops_jump})"

lemma local_okI:
  assumes "instrs c = Some xs"
    and "\<And>i op ops. (i, op, ops) \<in> set xs \<Longrightarrow> operands_ok c (bounds_of c xs) op ops"
    and "\<And>r. r \<in> set (protected_regions c) \<Longrightarrow> region_ok (bounds_of c xs) r"
    and "map (unat \<circ> line_ip) (lines c) = map fst xs"
  shows "local_ok c"
  using assms by (auto simp: local_ok_def list_all_iff)

lemma local_okE:
  assumes "local_ok c"
  obtains xs where "instrs c = Some xs"
    "\<And>i op ops. (i, op, ops) \<in> set xs \<Longrightarrow> operands_ok c (bounds_of c xs) op ops"
    "\<And>r. r \<in> set (protected_regions c) \<Longrightarrow> region_ok (bounds_of c xs) r"
    "map (unat \<circ> line_ip) (lines c) = map fst xs"
  using assms by (fastforce simp: local_ok_def list_all_iff split: option.splits)

lemma sound_empty [simp]: "sound empty_chunk"
  by (simp add: sound_def all_chunks_iff sound1_def local_ok_def instrs_def bounds_of_def)

section \<open>Growth\<close>

text \<open>Compilation only appends to the tables and never shortens the code.\<close>

definition grows :: "chunk \<Rightarrow> chunk \<Rightarrow> bool" where
  "grows c c' \<longleftrightarrow> length (code c) \<le> length (code c')
     \<and> (\<exists>e. constants c' = constants c @ e) \<and> (\<exists>e. protos c' = protos c @ e)
     \<and> (\<exists>e. classes c' = classes c @ e) \<and> (\<exists>e. types c' = types c @ e)"

lemma grows_refl [simp]: "grows c c"
  by (simp add: grows_def)

lemma ex_append_assoc: "\<exists>e. (xs @ ys) @ zs = xs @ e"
  by simp

lemma grows_trans: "grows a b \<Longrightarrow> grows b c \<Longrightarrow> grows a c"
  unfolding grows_def by (elim conjE exE) (simp add: ex_append_assoc)

lemma grows_small: "grows c c' \<Longrightarrow> small c' \<Longrightarrow> small c"
  by (auto simp: grows_def small_def all_chunks_iff [of small1] small1_def)

lemma grows_same:
  "length (code c) \<le> length (code c') \<Longrightarrow> constants c' = constants c \<Longrightarrow> protos c' = protos c \<Longrightarrow>
     classes c' = classes c \<Longrightarrow> types c' = types c \<Longrightarrow> grows c c'"
  by (simp add: grows_def)

text \<open>Operands that are valid stay valid.\<close>

lemma string_const_mono: "string_const cs i \<Longrightarrow> string_const (cs @ e) i"
  by (auto simp: string_const_def nth_append)

lemma operands_ok_mono:
  assumes "operands_ok c bs op ops" "grows c c'" "set bs \<subseteq> set bs'"
  shows "operands_ok c' bs' op ops"
  using assms unfolding operands_ok_def grows_def
  by (auto split: if_splits dest: string_const_mono)

lemma region_ok_mono: "region_ok bs r \<Longrightarrow> set bs \<subseteq> set bs' \<Longrightarrow> region_ok bs' r"
  by (auto simp: region_ok_def split: option.splits)

section \<open>The flow relation\<close>

text \<open>
  \<open>flow F A B c\<^sub>0 c\<close>: the compiler went from \<open>c\<^sub>0\<close> to \<open>c\<close>. If the result is small, \<open>c\<^sub>0\<close> is
  sound and the offsets \<open>F\<close> are operands of jumps of \<open>c\<^sub>0\<close>, then \<open>c\<close> is sound, every
  boundary and jump operand of \<open>c\<^sub>0\<close> is one of \<open>c\<close>, the offsets \<open>A\<close> are operands of jumps of
  \<open>c\<close>, and the offsets \<open>B\<close> are boundaries of \<open>c\<close>.
\<close>

definition flow :: "u32 set \<Rightarrow> u32 set \<Rightarrow> u32 set \<Rightarrow> chunk \<Rightarrow> chunk \<Rightarrow> bool" where
  "flow F A B c0 c \<longleftrightarrow> grows c0 c \<and>
     (small c \<and> sound c0 \<and> unat ` F \<subseteq> jops c0 \<longrightarrow>
        sound c \<and> bnds c0 \<subseteq> bnds c \<and> jops c0 \<subseteq> jops c
        \<and> unat ` A \<subseteq> jops c \<and> unat ` B \<subseteq> bnds c)"

lemma flowI:
  assumes "grows c0 c"
    and "small c \<Longrightarrow> sound c0 \<Longrightarrow> unat ` F \<subseteq> jops c0 \<Longrightarrow>
        sound c \<and> bnds c0 \<subseteq> bnds c \<and> jops c0 \<subseteq> jops c
        \<and> unat ` A \<subseteq> jops c \<and> unat ` B \<subseteq> bnds c"
  shows "flow F A B c0 c"
  using assms unfolding flow_def by blast

lemma flow_start: "flow F F {} c c"
  by (rule flowI) simp_all

text \<open>A step that starts from any reached state: the general extension rule.\<close>

lemma flowD:
  assumes "flow F A B c0 c" "small c" "sound c0" "unat ` F \<subseteq> jops c0"
  shows "sound c" "bnds c0 \<subseteq> bnds c" "jops c0 \<subseteq> jops c" "unat ` A \<subseteq> jops c" "unat ` B \<subseteq> bnds c"
  using assms by (simp_all add: flow_def)

lemma flow_grows: "flow F A B c0 c \<Longrightarrow> grows c0 c"
  by (simp add: flow_def)

lemma flow_trans:
  assumes "flow F A B c0 c" "flow F' A' B' c c'" "F' \<subseteq> A"
  shows "flow F (A \<union> A') (B \<union> B') c0 c'"
proof (rule flowI)
  show "grows c0 c'" using assms(1,2) by (blast intro: grows_trans flow_grows)
next
  assume h: "small c'" "sound c0" "unat ` F \<subseteq> jops c0"
  have "small c" using flow_grows [OF assms(2)] h(1) by (rule grows_small)
  note 1 = flowD [OF assms(1) this h(2,3)]
  have "unat ` F' \<subseteq> jops c" using image_mono [OF assms(3)] 1(4) by (rule order_trans)
  note 2 = flowD [OF assms(2) h(1) 1(1) this]
  show "sound c' \<and> bnds c0 \<subseteq> bnds c' \<and> jops c0 \<subseteq> jops c'
      \<and> unat ` (A \<union> A') \<subseteq> jops c' \<and> unat ` (B \<union> B') \<subseteq> bnds c'"
    unfolding image_Un
    by (intro conjI Un_least 2 order_trans [OF 1(2) 2(2)] order_trans [OF 1(3) 2(3)]
        order_trans [OF 1(4) 2(3)] order_trans [OF 1(5) 2(2)])
qed

lemma flow_step:
  "flow F A B c0 c \<Longrightarrow> flow {} {} {} c c' \<Longrightarrow> flow F A B c0 c'"
  using flow_trans [of F A B c0 c "{}" "{}" "{}" c'] by simp

lemma flow_weaken: "flow F A B c0 c \<Longrightarrow> A' \<subseteq> A \<Longrightarrow> B' \<subseteq> B \<Longrightarrow> F \<subseteq> F' \<Longrightarrow> flow F' A' B' c0 c"
  unfolding flow_def by (meson image_mono order_trans)

lemma flow_drop: "flow F A B c0 c \<Longrightarrow> flow F {} {} c0 c"
  by (erule flow_weaken) simp_all

text \<open>The current end of the code is a boundary.\<close>

lemma here_boundary: "sound c \<Longrightarrow> small c \<Longrightarrow> unat (here c) \<in> bnds c"
  by (auto simp: sound_def small_def all_chunks_iff sound1_def small1_def bnds_def bounds_of_def
      here_def local_ok_def split: option.splits)

lemma flow_mark: "flow F A B c0 c \<Longrightarrow> flow F A (insert (here c) B) c0 c"
  unfolding flow_def by (simp add: here_boundary)

section \<open>Emission keeps chunks well formed\<close>

text \<open>Table additions: the code, the position table and the regions stay as they are.\<close>

lemma bnds_code: "code c' = code c \<Longrightarrow> bnds c' = bnds c"
  by (simp add: bnds_def bounds_of_def instrs_def split: option.splits)

lemma jops_code: "code c' = code c \<Longrightarrow> jops c' = jops c"
  by (simp add: jops_def instrs_def)

lemma local_ok_tables:
  assumes "local_ok c" "grows c c'" "code c' = code c" "lines c' = lines c"
    "set (protected_regions c') \<subseteq> set (protected_regions c)"
  shows "local_ok c'"
proof -
  from assms(1) obtain xs where xs: "instrs c = Some xs"
    "\<And>i op ops. (i, op, ops) \<in> set xs \<Longrightarrow> operands_ok c (bounds_of c xs) op ops"
    "\<And>r. r \<in> set (protected_regions c) \<Longrightarrow> region_ok (bounds_of c xs) r"
    "map (unat \<circ> line_ip) (lines c) = map fst xs" by (rule local_okE) blast
  have b: "bounds_of c' xs = bounds_of c xs" using assms(3) by (simp add: bounds_of_def)
  show ?thesis
  proof (rule local_okI)
    show "instrs c' = Some xs" using xs(1) assms(3) by (simp add: instrs_def)
    show "operands_ok c' (bounds_of c' xs) op ops" if "(i, op, ops) \<in> set xs" for i op ops
      using operands_ok_mono [OF xs(2) [OF that] assms(2) subset_refl] by (simp add: b)
    show "region_ok (bounds_of c' xs) r" if "r \<in> set (protected_regions c')" for r
      using xs(3) that assms(5) by (auto simp: b)
    show "map (unat \<circ> line_ip) (lines c') = map fst xs" using xs(4) assms(4) by simp
  qed
qed

lemma flow_tables:
  assumes "grows c c'" "code c' = code c" "lines c' = lines c"
    "protected_regions c' = protected_regions c"
    and "pool_inv c \<Longrightarrow> small c' \<Longrightarrow> pool_inv c'"
    and "\<And>p. small c' \<Longrightarrow> p \<in> set (protos c') \<Longrightarrow>
      p \<in> set (protos c) \<or> all_chunks_proto sound1 p"
  shows "flow {} {} {} c c'"
proof (rule flowI [OF assms(1)])
  assume h: "small c'" "sound c"
  from h(2) have "local_ok c" "pool_inv c" "\<forall>p\<in>set (protos c). all_chunks_proto sound1 p"
    by (simp_all add: sound_def all_chunks_iff sound1_def)
  moreover have "local_ok c'"
    using \<open>local_ok c\<close> assms(1-3) by (rule local_ok_tables) (simp add: assms(4))
  ultimately have "sound c'"
    using assms(5) [OF _ h(1)] assms(6) [OF h(1)] by (auto simp: sound_def all_chunks_iff [of sound1] sound1_def)
  then show "sound c' \<and> bnds c \<subseteq> bnds c' \<and> jops c \<subseteq> jops c' \<and>
      unat ` {} \<subseteq> jops c' \<and> unat ` {} \<subseteq> bnds c'"
    using bnds_code [OF assms(2)] jops_code [OF assms(2)] by simp
qed

lemma small_constants: "small c \<Longrightarrow> length (constants c) \<le> 2 ^ 15"
  by (simp add: small_def all_chunks_iff small1_def)

lemma sound_pool: "sound c \<Longrightarrow> pool_inv c"
  by (simp add: sound_def all_chunks_iff sound1_def)

lemma add_constant_grows: "add_constant v c = (i, c') \<Longrightarrow> grows c c'"
  using add_constant_extends [of v c i c'] by (simp add: grows_def chunk_simps)

lemma add_constant_small:
  "add_constant v c = (i, c') \<Longrightarrow> small c' \<Longrightarrow> length (constants c) \<le> 2 ^ 15"
  by (blast dest: add_constant_grows grows_small small_constants)

lemma flow_add_constant:
  assumes "add_constant v c = (i, c')"
  shows "flow {} {} {} c c'"
proof (rule flow_tables)
  show "grows c c'" using assms by (rule add_constant_grows)
  show "pool_inv c'" if "pool_inv c" "small c'"
    using add_constant_pool(1) [OF that(1) _ assms] add_constant_small [OF assms that(2)] by simp
qed (use assms in \<open>simp_all add: chunk_simps\<close>)

text \<open>One instruction.\<close>

lemma instrs_snoc:
  assumes "instrs c = Some xs" "length ops = operand_width op"
    "code c' = code c @ op_byte op # ops"
  shows "instrs c' = Some (xs @ [(length (code c), op, ops)])"
  using assms layout_cons [OF assms(2), of _ "[]"] by (simp add: instrs_def layout_append)

lemma local_ok_snoc:
  assumes ok: "local_ok c" and len: "length ops = operand_width op"
    and code: "code c' = code c @ op_byte op # ops" and grows: "grows c c'"
    and lines: "lines c' = lines c @ [\<lparr>line_ip = here c, line_pos = pos\<rparr>]"
    and regions: "protected_regions c' = protected_regions c"
    and small: "length (code c') < 2 ^ 32"
    and ops: "\<And>bs. bnds c \<subseteq> set bs \<Longrightarrow> operands_ok c' bs op ops"
  shows "local_ok c'" "bnds c \<subseteq> bnds c'" "jops c \<subseteq> jops c'"
    "op \<in> set ops_jump \<Longrightarrow> length (code c) + 1 \<in> jops c'"
proof -
  from ok obtain xs where xs: "instrs c = Some xs"
    "\<And>i op ops. (i, op, ops) \<in> set xs \<Longrightarrow> operands_ok c (bounds_of c xs) op ops"
    "\<And>r. r \<in> set (protected_regions c) \<Longrightarrow> region_ok (bounds_of c xs) r"
    "map (unat \<circ> line_ip) (lines c) = map fst xs" by (rule local_okE) blast
  let ?ys = "xs @ [(length (code c), op, ops)]"
  have ys: "instrs c' = Some ?ys" by (rule instrs_snoc [OF xs(1) len code])
  have sub: "set (bounds_of c xs) \<subseteq> set (bounds_of c' ?ys)" by (auto simp: bounds_of_def)
  have bnds: "bnds c = set (bounds_of c xs)" "bnds c' = set (bounds_of c' ?ys)"
    using xs(1) ys by (simp_all add: bnds_def)
  show "bnds c \<subseteq> bnds c'" using sub by (simp add: bnds)
  show "jops c \<subseteq> jops c'" using xs(1) ys by (auto simp: jops_def)
  show "length (code c) + 1 \<in> jops c'" if "op \<in> set ops_jump"
    using that ys by (auto simp: jops_def)
  show "local_ok c'"
  proof (rule local_okI [OF ys])
    show "operands_ok c' (bounds_of c' ?ys) op' ops'" if "(i, op', ops') \<in> set ?ys" for i op' ops'
    proof (cases "(i, op', ops') \<in> set xs")
      case True
      show ?thesis by (rule operands_ok_mono [OF xs(2) [OF True] grows sub])
    next
      case False
      with that ops [of "bounds_of c' ?ys"] sub bnds show ?thesis by auto
    qed
    show "region_ok (bounds_of c' ?ys) r" if "r \<in> set (protected_regions c')" for r
      using region_ok_mono [OF xs(3) sub] that regions by simp
    show "map (unat \<circ> line_ip) (lines c') = map fst ?ys"
      using xs(4) lines small code by (simp add: here_def)
  qed
qed

lemma flow_instr:
  assumes flow: "flow F A B c0 c" and len: "length ops = operand_width op"
    and ops: "\<And>bs. small c \<Longrightarrow> sound c \<Longrightarrow> unat ` B \<subseteq> set bs \<Longrightarrow> bnds c \<subseteq> set bs \<Longrightarrow>
      operands_ok c bs op ops"
  shows "flow F A B c0 (push_bytes ops (write_op op pos c))"
    and "op \<in> set ops_jump \<Longrightarrow>
      flow F (insert (here (write_op op pos c)) A) B c0 (push_bytes ops (write_op op pos c))"
proof -
  let ?c = "push_bytes ops (write_op op pos c)"
  have g: "grows c ?c" by (rule grows_same) (simp_all add: chunk_simps)
  have step: "sound ?c \<and> bnds c \<subseteq> bnds ?c \<and> jops c \<subseteq> jops ?c \<and>
      (op \<in> set ops_jump \<longrightarrow> unat (here (write_op op pos c)) \<in> jops ?c)"
    if small: "small ?c" and s: "sound c" and B: "unat ` B \<subseteq> bnds c"
  proof -
    have sc: "small c" using g small by (rule grows_small)
    from s have ok: "local_ok c" "pool_inv c" "\<forall>p\<in>set (protos c). all_chunks_proto sound1 p"
      by (simp_all add: sound_def all_chunks_iff sound1_def)
    have code: "code ?c = code c @ op_byte op # ops" by (simp add: chunk_simps)
    have lines: "lines ?c = lines c @ [\<lparr>line_ip = here c, line_pos = pos\<rparr>]"
      by (simp add: chunk_simps)
    have regions: "protected_regions ?c = protected_regions c" by (simp add: chunk_simps)
    have len32: "length (code ?c) < 2 ^ 32"
      using small by (simp add: small_def all_chunks_iff small1_def)
    have oks: "operands_ok ?c bs op ops" if "bnds c \<subseteq> set bs" for bs
      using ops [OF sc s order_trans [OF B that] that] g by (rule operands_ok_mono) simp
    note r = local_ok_snoc [OF ok(1) len code g lines regions len32 oks]
    have "pool_inv ?c" using ok(2) by (simp add: pool_inv_def chunk_simps)
    with r(1) ok(3) have "sound ?c"
      by (simp add: sound_def all_chunks_iff [of sound1] sound1_def chunk_simps)
    moreover have "unat (here (write_op op pos c)) = length (code c) + 1"
      using len32 by (simp add: here_def chunk_simps unat_Suc_of_nat)
    ultimately show ?thesis using r(2-4) by simp
  qed
  have main: "flow F A' B c0 ?c"
    if A': "A' = A \<or> A' = insert (here (write_op op pos c)) A \<and> op \<in> set ops_jump" for A'
  proof (rule flowI)
    show "grows c0 ?c" using flow_grows [OF flow] g by (rule grows_trans)
    assume h: "small ?c" "sound c0" "unat ` F \<subseteq> jops c0"
    note 1 = flowD [OF flow grows_small [OF g h(1)] h(2,3)]
    note 2 = step [OF h(1) 1(1,5)]
    show "sound ?c \<and> bnds c0 \<subseteq> bnds ?c \<and> jops c0 \<subseteq> jops ?c \<and>
        unat ` A' \<subseteq> jops ?c \<and> unat ` B \<subseteq> bnds ?c"
      using 1 2 A' by auto
  qed
  show "flow F A B c0 ?c" by (rule main) simp
  show "flow F (insert (here (write_op op pos c)) A) B c0 ?c" if "op \<in> set ops_jump"
    by (rule main) (simp add: that)
qed

section \<open>Operands read back\<close>

lemma word16_be16: "word16_of (be16 v) = v"
  unfolding word16_of_def word16_def be16_def
  by (rule bit_word_eqI) (auto simp: bit_simps)

lemma word32_be32: "word32_of (be32 v) = v"
  unfolding word32_of_def word32_def be32_def
proof (rule bit_word_eqI)
  fix n assume "n < LENGTH(32)"
  consider "n < 8" | "8 \<le> n" "n < 16" | "16 \<le> n" "n < 24" | "24 \<le> n" by linarith
  then show "bit (push_bit 24 (ucast ([ucast (drop_bit 24 v), ucast (drop_bit 16 v),
      ucast (drop_bit 8 v), ucast v] ! 0 :: u8)) OR push_bit 16 (ucast ([ucast (drop_bit 24 v),
      ucast (drop_bit 16 v), ucast (drop_bit 8 v), ucast v] ! 1 :: u8)) OR push_bit 8
      (ucast ([ucast (drop_bit 24 v), ucast (drop_bit 16 v), ucast (drop_bit 8 v), ucast v] ! 2 :: u8))
      OR ucast ([ucast (drop_bit 24 v), ucast (drop_bit 16 v), ucast (drop_bit 8 v), ucast v] ! 3 :: u8)
      :: u32) n = bit v n"
    using \<open>n < LENGTH(32)\<close> by cases (auto simp: bit_simps)
qed

lemma low_bits: "unat v < 2 ^ 15 \<Longrightarrow> (v :: u16) AND 0x7FFF = v"
proof -
  assume v: "unat v < 2 ^ 15"
  have "take_bit 15 v = v" using v by (simp add: word_unat_eq_iff unsigned_take_bit_eq take_bit_nat_eq_self)
  then show ?thesis by (simp add: take_bit_eq_mask mask_eq_exp_minus_1)
qed

lemma low_bits_flag: "unat v < 2 ^ 15 \<Longrightarrow> ((v :: u16) OR 0x8000) AND 0x7FFF = v"
  using low_bits [of v] by (simp add: word_ao_dist)

section \<open>Patching\<close>

lemma patch_jump_layout:
  assumes ok: "local_ok c" and a: "unat a \<in> jops c" and t: "unat t \<in> bnds c"
  shows "local_ok (patch_jump_to a t c)" "bnds (patch_jump_to a t c) = bnds c"
    "jops (patch_jump_to a t c) = jops c"
proof -
  let ?c = "patch_jump_to a t c"
  from ok obtain xs where xs: "instrs c = Some xs"
    "\<And>i op ops. (i, op, ops) \<in> set xs \<Longrightarrow> operands_ok c (bounds_of c xs) op ops"
    "\<And>r. r \<in> set (protected_regions c) \<Longrightarrow> region_ok (bounds_of c xs) r"
    "map (unat \<circ> line_ip) (lines c) = map fst xs" by (rule local_okE) blast
  from a xs(1) obtain i op ops where i: "unat a = i + 1" "(i, op, ops) \<in> set xs" "op \<in> set ops_jump"
    by (auto simp: jops_def)
  from layout_split [OF xs(1) [unfolded instrs_def] i(2)] obtain pre post ys zs where
    sp: "code c = pre @ op_byte op # ops @ post" "i = length pre" "length ops = operand_width op"
    "xs = ys @ (i, op, ops) # zs" "layout 0 pre = Some ys"
    "layout (i + 1 + operand_width op) post = Some zs" by auto
  have w: "operand_width op = 4" using i(3) by (auto simp: operand_width_def ops_jump_def ops_u16_def)
  have code: "code ?c = pre @ op_byte op # be32 t @ post"
    using update_four [of ops "be32 t" "unat a" "pre @ [op_byte op]" post] sp(1-3) i(1) w
    by (simp add: code_patch_jump_to)
  let ?zs = "ys @ (i, op, be32 t) # zs"
  have new: "instrs ?c = Some ?zs"
    unfolding instrs_def code
    using layout_replace [of 0 pre op ops post ys i zs "be32 t"] xs(1) sp w by (simp add: instrs_def)
  have fst_eq: "map fst ?zs = map fst xs" using sp(4) by simp
  have b: "bounds_of ?c ?zs = bounds_of c xs" using sp(4) by (simp add: bounds_of_def)
  show bnds: "bnds ?c = bnds c" using xs(1) new b by (simp add: bnds_def)
  show "jops ?c = jops c" using xs(1) new sp(4) i(3) by (auto simp: jops_def)
  have same: "operands_ok ?c bs o' p' = operands_ok c bs o' p'" for bs o' p'
    by (simp add: operands_ok_def)
  show "local_ok ?c"
  proof (rule local_okI [OF new])
    show "operands_ok ?c (bounds_of ?c ?zs) op' ops'" if "(j, op', ops') \<in> set ?zs" for j op' ops'
    proof (cases "(j, op', ops') \<in> set xs")
      case True
      from xs(2) [OF this] show ?thesis by (simp only: same b)
    next
      case False
      with that sp(4) have "op' = op" "ops' = be32 t" by auto
      with t i(3) xs(1) show ?thesis
        unfolding same b by (simp add: operands_ok_def word32_be32 bnds_def)
    qed
    show "region_ok (bounds_of ?c ?zs) r" if "r \<in> set (protected_regions ?c)" for r
      using xs(3) that by (simp only: b patch_jump_to_fields)
    show "map (unat \<circ> line_ip) (lines ?c) = map fst ?zs" using xs(4) fst_eq by simp
  qed
qed

lemma flow_patch_to:
  assumes "flow F A B c0 c" "a \<in> A" "t \<in> B"
  shows "flow F A B c0 (patch_jump_to a t c)"
proof (rule flowI)
  let ?c = "patch_jump_to a t c"
  have g: "grows c ?c" by (rule grows_same) simp_all
  show "grows c0 ?c" using flow_grows [OF assms(1)] g by (rule grows_trans)
  assume h: "small ?c" "sound c0" "unat ` F \<subseteq> jops c0"
  note 1 = flowD [OF assms(1) grows_small [OF g h(1)] h(2,3)]
  have "unat a \<in> jops c" "unat t \<in> bnds c" using 1 assms(2,3) by auto
  moreover have "local_ok c" using 1(1) by (simp add: sound_def all_chunks_iff sound1_def)
  ultimately have 2: "local_ok ?c" "bnds ?c = bnds c" "jops ?c = jops c"
    by (simp_all add: patch_jump_layout)
  moreover have "pool_inv ?c" using sound_pool [OF 1(1)] by (simp add: pool_inv_def)
  ultimately have "sound ?c"
    using 1(1) by (simp add: sound_def all_chunks_iff [of sound1] sound1_def)
  with 1 2 show "sound ?c \<and> bnds c0 \<subseteq> bnds ?c \<and> jops c0 \<subseteq> jops ?c \<and>
      unat ` A \<subseteq> jops ?c \<and> unat ` B \<subseteq> bnds ?c" by simp
qed

lemma flow_patch_here: "flow F A B c0 c \<Longrightarrow> a \<in> A \<Longrightarrow> flow F A B c0 (patch_jump_here a c)"
  unfolding patch_jump_here_def
  by (rule flow_weaken [OF flow_patch_to [OF flow_mark]]) auto

lemma flow_patch_all:
  "flow F A B c0 c \<Longrightarrow> set ps \<subseteq> A \<Longrightarrow> t \<in> B \<Longrightarrow> flow F A B c0 (patch_all ps t c)"
  unfolding patch_all_def by (induction ps arbitrary: c) (auto intro: flow_patch_to)

section \<open>Rules for the emission helpers\<close>

lemma zero_boundary: "local_ok c \<Longrightarrow> 0 \<in> bnds c"
proof -
  assume "local_ok c"
  then obtain xs where xs: "instrs c = Some xs" by (rule local_okE) blast
  show ?thesis
  proof (cases "code c")
    case Nil
    with xs show ?thesis by (simp add: bnds_def bounds_of_def)
  next
    case (Cons b bs)
    from xs [unfolded instrs_def Cons] show ?thesis
      by (rule layout_ConsE) (use xs in \<open>simp add: bnds_def bounds_of_def\<close>)
  qed
qed

lemma sound_local: "sound c \<Longrightarrow> local_ok c"
  by (simp add: sound_def all_chunks_iff sound1_def)

lemma push_bytes_append: "push_bytes ys (push_bytes xs c) = push_bytes (xs @ ys) c"
  by (cases c) (simp add: push_bytes_def)

lemma push_bytes_nil: "push_bytes [] c = c"
  by (cases c) (simp add: push_bytes_def)

text \<open>The instructions without operand.\<close>

definition plain :: "opcode \<Rightarrow> bool" where
  "plain op \<longleftrightarrow> operand_width op = 0 \<and> op \<notin> set unimplemented_ops"

lemma plain_width: "plain op \<Longrightarrow> operand_width op = 0"
  by (simp add: plain_def)

lemma flow_op:
  assumes "flow F A B c0 c" "plain op"
  shows "flow F A B c0 (write_op op pos c)"
proof -
  have "op \<notin> set ops_jump \<and> op \<notin> set name_ops \<and> op \<notin> {OpStoreName, OpStoreGlobal, OpStoreTypedName, OpConst,
      OpClosure, OpNewClass} \<and> op \<notin> set unimplemented_ops"
    using assms(2) by (auto simp: plain_def operand_width_def ops_u16_def ops_jump_def name_ops_def)
  then have "operands_ok c bs op []" for bs by (simp add: operands_ok_def)
  from flow_instr(1) [OF assms(1), of "[]" op pos] plain_width [OF assms(2)] this
  show ?thesis by (simp add: push_bytes_nil)
qed

lemma flow_count:
  assumes "flow F A B c0 c" "op \<in> {OpNewArray, OpNew, OpCall}"
  shows "flow F A B c0 (write_u16 n (write_op op pos c))"
  unfolding write_u16_def
  by (rule flow_instr(1) [OF assms(1)])
    (use assms(2) in \<open>auto simp: operand_width_def ops_u16_def operands_ok_def ops_jump_def name_ops_def\<close>)

lemma string_constI:
  assumes "pool_inv c" "length (constants c) \<le> 2 ^ 15" "add_constant (OString s) c = (i, c')"
  shows "string_const (constants c') i"
  using add_constant_pool(2) [OF assms(1) _ assms(3)] add_constant_string [OF assms(1) _ assms(3)]
    assms(2) by (simp add: string_const_def)

text \<open>
  After interning (and a further change \<open>c1\<close> to \<open>c2\<close> of the other tables) the instruction may
  use the index.
\<close>

lemma flow_interned2:
  assumes flow: "flow F A B c0 c" and add: "add_constant v c = (i, c1)"
    and tables: "flow {} {} {} c1 c2" "constants c2 = constants c1"
    and len: "length ops = operand_width op"
    and ops: "\<And>bs. small c2 \<Longrightarrow> length (constants c2) \<le> 2 ^ 15 \<Longrightarrow> unat i < length (constants c2) \<Longrightarrow>
      (is_string v \<Longrightarrow> string_const (constants c2) i) \<Longrightarrow> operands_ok c2 bs op ops"
  shows "flow F A B c0 (push_bytes ops (write_op op pos c2))"
proof -
  have f1: "flow F A B c0 c1" using flow flow_add_constant [OF add] by (rule flow_step)
  have f2: "flow F A B c0 c2" using f1 tables(1) by (rule flow_step)
  have g: "grows c c1" using add by (rule add_constant_grows)
  show ?thesis
  proof (rule flowI)
    let ?c = "push_bytes ops (write_op op pos c2)"
    have g2: "grows c2 ?c" by (rule grows_same) (simp_all add: chunk_simps)
    show "grows c0 ?c" using flow_grows [OF f2] g2 by (rule grows_trans)
    assume h: "small ?c" "sound c0" "unat ` F \<subseteq> jops c0"
    have s2: "small c2" using g2 h(1) by (rule grows_small)
    have s1: "small c1" using flow_grows [OF tables(1)] s2 by (rule grows_small)
    have "small c" using g s1 by (rule grows_small)
    note sc = flowD(1) [OF flow this h(2,3)]
    have lc: "length (constants c) \<le> 2 ^ 15" using add s1 by (rule add_constant_small)
    have "unat i < length (constants c2)"
      using add_constant_pool(2) [OF sound_pool [OF sc] _ add] lc tables(2) by simp
    moreover have "string_const (constants c2) i" if "is_string v"
      using that string_constI [OF sound_pool [OF sc] lc] add tables(2) by (cases v) auto
    ultimately have "operands_ok c2 bs op ops" for bs
      using ops s2 small_constants [OF s2] by blast
    then have "flow F A B c0 ?c" using flow_instr(1) [OF f2 len] by blast
    from flowD [OF this h] show "sound ?c \<and> bnds c0 \<subseteq> bnds ?c \<and> jops c0 \<subseteq> jops ?c \<and>
        unat ` A \<subseteq> jops ?c \<and> unat ` B \<subseteq> bnds ?c" by blast
  qed
qed

lemmas flow_interned = flow_interned2 [OF _ _ flow_drop [OF flow_start] refl]

lemma flow_string:
  assumes "flow F A B c0 c" "op \<in> insert OpStoreName (set name_ops)"
  shows "flow F A B c0 (emit_string_operand op s pos c)"
proof -
  obtain i c1 where add: "add_constant (OString s) c = (i, c1)" by force
  have "flow F A B c0 (push_bytes (be16 i) (write_op op pos c1))"
  proof (rule flow_interned [OF assms(1) add])
    show "length (be16 i) = operand_width op"
      using assms(2) by (auto simp: operand_width_def ops_u16_def name_ops_def)
    fix bs assume "small c1" "length (constants c1) \<le> 2 ^ 15" "unat i < length (constants c1)"
      "is_string (OString s) \<Longrightarrow> string_const (constants c1) i"
    then have "string_const (constants c1) i" "i AND 0x7FFF = i" by (simp_all add: low_bits)
    with assms(2) show "operands_ok c1 bs op (be16 i)"
      by (auto simp: operands_ok_def word16_be16 ops_jump_def name_ops_def)
  qed
  then show ?thesis by (simp add: emit_string_operand_def add write_u16_def)
qed

lemma flow_load_name: "flow F A B c0 c \<Longrightarrow> flow F A B c0 (emit_load_name s pos c)"
  unfolding emit_load_name_def by (erule flow_string) (simp add: name_ops_def)

lemma emit_value_constant_fold:
  "(case add_constant v c of (idx, c1) \<Rightarrow> emit_const idx pos c1) = emit_value_constant v pos c"
  by (simp add: emit_value_constant_def)

lemma flow_value:
  assumes "flow F A B c0 c"
  shows "flow F A B c0 (emit_value_constant v pos c)"
proof -
  obtain i c1 where add: "add_constant v c = (i, c1)" by force
  have "flow F A B c0 (push_bytes (be16 i) (write_op OpConst pos c1))"
    by (rule flow_interned [OF assms add])
      (auto simp: operand_width_def ops_u16_def operands_ok_def word16_be16 ops_jump_def name_ops_def)
  then show ?thesis by (simp add: emit_value_constant_def emit_const_def add write_u16_def)
qed

lemma decl_operand:
  assumes "unat i < length cs" "length cs \<le> 2 ^ 15" "string_const cs i"
  shows "string_const cs ((if k then i OR 0x8000 else i) AND 0x7FFF)"
  using assms by (simp add: low_bits low_bits_flag)

lemma flow_decl_store:
  assumes "flow F A B c0 c"
  shows "flow F A B c0 (emit_decl_store name is_const pos c)"
proof -
  obtain i c1 where add: "add_constant (OString name) c = (i, c1)" by force
  let ?o = "if is_const then i OR 0x8000 else i"
  have "flow F A B c0 (push_bytes (be16 ?o) (write_op OpStoreName pos c1))"
    by (rule flow_interned [OF assms add])
      (auto simp: operand_width_def ops_u16_def operands_ok_def word16_be16 ops_jump_def name_ops_def
        decl_operand)
  then show ?thesis by (simp add: emit_decl_store_def decl_name_operand_def add write_u16_def)
qed

text \<open>The typed declaration: an index of the name and one of the annotation.\<close>

lemma of_nat_index: "n < 2 ^ 16 \<Longrightarrow> unat (of_nat n :: u16) = n"
  by (rule unat_of_nat_small) simp

lemma flow_typed_store:
  assumes flow: "flow F A B c0 c" and operand: "decl_name_operand name is_const c = (o1, c1)"
    and c2: "c2 = map_types (\<lambda>ts. ts @ [t]) c1"
  shows "flow F A B c0
    (write_u16 (of_nat (length (types c1))) (write_u16 o1 (write_op OpStoreTypedName pos c2)))"
proof -
  from operand obtain i where add: "add_constant (OString name) c = (i, c1)"
    and o1: "o1 = (if is_const then i OR 0x8000 else i)"
    by (auto simp: decl_name_operand_def split: prod.splits)
  let ?ops = "be16 o1 @ be16 (of_nat (length (types c1)))"
  have "flow F A B c0 (push_bytes ?ops (write_op OpStoreTypedName pos c2))"
  proof (rule flow_interned2 [OF flow add])
    show "flow {} {} {} c1 c2"
      by (rule flow_tables) (auto simp: c2 grows_def pool_inv_def)
    show "constants c2 = constants c1" by (simp add: c2)
    show "length ?ops = operand_width OpStoreTypedName"
      by (simp add: operand_width_def ops_u16_def)
    fix bs assume h: "small c2" "length (constants c2) \<le> 2 ^ 15" "unat i < length (constants c2)"
      "is_string (OString name) \<Longrightarrow> string_const (constants c2) i"
    have "length (types c1) < 2 ^ 16"
      using h(1) by (simp add: small_def all_chunks_iff small1_def c2)
    then have "unat (of_nat (length (types c1)) :: u16) < length (types c2)"
      by (simp only: of_nat_index) (simp add: c2)
    moreover have "word16_of ?ops = o1" "word16_of (drop 2 ?ops) = of_nat (length (types c1))"
      using word16_be16 by (simp_all add: word16_of_def be16_def)
    ultimately show "operands_ok c2 bs OpStoreTypedName ?ops"
      using decl_operand [OF h(3,2), of is_const] h(4)
      by (simp add: operands_ok_def o1 ops_jump_def name_ops_def)
  qed
  then show ?thesis by (simp add: write_u16_def push_bytes_append)
qed

lemma flow_class_value: 
  assumes "flow F A B c0 c"
  shows "flow F A B c0 (emit_class_value d c)"
proof -
  let ?c1 = "map_classes (\<lambda>cs. cs @ [d]) c" and ?i = "of_nat (length (classes c)) :: u16"
  have "flow {} {} {} c ?c1" by (rule flow_tables) (auto simp: grows_def pool_inv_def)
  with assms have f1: "flow F A B c0 ?c1" by (rule flow_step)
  have "flow F A B c0 (push_bytes (be16 ?i) (write_op OpNewClass (cd_pos d) ?c1))"
  proof (rule flow_instr(1) [OF f1])
    fix bs assume "small ?c1"
    then have "length (classes c) < 2 ^ 16" by (simp add: small_def all_chunks_iff small1_def)
    then have "unat ?i = length (classes c)" by (rule of_nat_index)
    then show "operands_ok ?c1 bs OpNewClass (be16 ?i)"
      by (simp add: operands_ok_def word16_be16 ops_jump_def name_ops_def)
  qed (simp add: operand_width_def ops_u16_def)
  then show ?thesis by (simp add: emit_class_value_def add_class_decl_def write_u16_def)
qed

text \<open>Adding a prototype whose chunk is sound and creating its closure.\<close>

lemma flow_closure:
  assumes "flow F A B c0 c" "all_chunks_proto small1 p \<Longrightarrow> all_chunks_proto sound1 p"
  shows "flow F A B c0
    (write_u16 (of_nat (length (protos c))) (write_op OpClosure pos (map_protos (\<lambda>ps. ps @ [p]) c)))"
proof -
  let ?c1 = "map_protos (\<lambda>ps. ps @ [p]) c" and ?i = "of_nat (length (protos c)) :: u16"
  have "flow {} {} {} c ?c1"
    by (rule flow_tables)
      (use assms(2) in \<open>auto simp: grows_def pool_inv_def small_def all_chunks_iff [of small1]\<close>)
  with assms(1) have f1: "flow F A B c0 ?c1" by (rule flow_step)
  have "flow F A B c0 (push_bytes (be16 ?i) (write_op OpClosure pos ?c1))"
  proof (rule flow_instr(1) [OF f1])
    fix bs assume "small ?c1"
    then have "length (protos c) < 2 ^ 16" by (simp add: small_def all_chunks_iff small1_def)
    then have "unat ?i = length (protos c)" by (rule of_nat_index)
    then show "operands_ok ?c1 bs OpClosure (be16 ?i)"
      by (simp add: operands_ok_def word16_be16 ops_jump_def name_ops_def)
  qed (simp add: operand_width_def ops_u16_def)
  then show ?thesis by (simp add: write_u16_def)
qed

text \<open>Jumps: a placeholder is valid as it stands, its target \<open>0\<close> being the first boundary.\<close>

lemma flow_jump:
  assumes flow: "flow F A B c0 c" and emit: "emit_jump_placeholder op pos c = (a, c')"
    and op: "op \<in> set ops_jump"
  shows "flow F (insert a A) B c0 c'"
proof -
  have a: "a = here (write_op op pos c)" and c': "c' = push_bytes (be32 0) (write_op op pos c)"
    using emit by (simp_all add: emit_jump_placeholder_def Let_def write_u32_def)
  have "operands_ok c bs op (be32 0)" if "sound c" "bnds c \<subseteq> set bs" for bs
    using that op zero_boundary [OF sound_local [OF that(1)]]
    by (auto simp: operands_ok_def word32_be32)
  then show ?thesis
    unfolding a c' using op by (intro flow_instr(2) [OF flow])
      (auto simp: operand_width_def ops_jump_def ops_u16_def)
qed

lemma flow_loop:
  assumes flow: "flow F A B c0 c" and t: "t \<in> B"
  shows "flow F A B c0 (write_u32 t (write_op OpLoop pos c))"
  unfolding write_u32_def
proof (rule flow_instr(1) [OF flow])
  fix bs assume "unat ` B \<subseteq> set bs"
  with t show "operands_ok c bs OpLoop (be32 t)"
    by (auto simp: operands_ok_def word32_be32 ops_jump_def)
qed (simp add: operand_width_def ops_u16_def ops_jump_def)

section \<open>Protected regions\<close>

lemma here_mono: "grows c c' \<Longrightarrow> small c' \<Longrightarrow> here c \<le> here c'"
  by (simp add: grows_def small_def all_chunks_iff [of small1] small1_def here_def word_le_nat_alt)

lemma flow_region:
  assumes flow: "flow F A B c0 c"
    and r: "try_start r \<in> B" "try_end r \<in> B" "handler_ip r \<in> B"
    "\<And>ip. finally_ip r = Some ip \<Longrightarrow> ip \<in> B" "small c \<Longrightarrow> try_start r \<le> try_end r"
  shows "flow F A B c0 (map_regions (\<lambda>rs. rs @ [r]) c)"
proof (rule flowI)
  let ?c = "map_regions (\<lambda>rs. rs @ [r]) c"
  have g: "grows c ?c" by (rule grows_same) simp_all
  show "grows c0 ?c" using flow_grows [OF flow] g by (rule grows_trans)
  assume h: "small ?c" "sound c0" "unat ` F \<subseteq> jops c0"
  have sc: "small c" using g h(1) by (rule grows_small)
  note 1 = flowD [OF flow sc h(2,3)]
  from sound_local [OF 1(1)] obtain xs where xs: "instrs c = Some xs"
    "\<And>i op ops. (i, op, ops) \<in> set xs \<Longrightarrow> operands_ok c (bounds_of c xs) op ops"
    "\<And>r. r \<in> set (protected_regions c) \<Longrightarrow> region_ok (bounds_of c xs) r"
    "map (unat \<circ> line_ip) (lines c) = map fst xs" by (rule local_okE) blast
  have same: "operands_ok ?c bs op ops = operands_ok c bs op ops" for bs op ops
    by (simp add: operands_ok_def)
  have b: "bounds_of ?c xs = bounds_of c xs" by (simp add: bounds_of_def)
  have "region_ok (bounds_of c xs) r"
    using r 1(5) sc xs(1) by (auto simp: region_ok_def bnds_def split: option.splits)
  then have "local_ok ?c"
    using xs by (intro local_okI [of _ xs]) (auto simp: same b instrs_def)
  then have "sound ?c"
    using 1(1) by (auto simp: sound_def all_chunks_iff [of sound1] sound1_def pool_inv_def)
  with 1 show "sound ?c \<and> bnds c0 \<subseteq> bnds ?c \<and> jops c0 \<subseteq> jops ?c \<and>
      unat ` A \<subseteq> jops ?c \<and> unat ` B \<subseteq> bnds ?c"
    using bnds_code [of ?c c] jops_code [of ?c c] by simp
qed

section \<open>Weakest-precondition rules\<close>

text \<open>
  The rules in the form that runs backward over a piece of compiler code: the sets \<open>A\<close> and
  \<open>B\<close> of the conclusion are what the rest of the code needs.
\<close>

lemma wp_start: "A \<subseteq> F \<Longrightarrow> flow F A {} c c"
  by (rule flow_weaken [OF flow_start]) simp_all

lemma wp_step: "flow {} {} {} c c' \<Longrightarrow> flow F A B c0 c \<Longrightarrow> flow F A B c0 c'"
  by (rule flow_step)

lemma wp_patch_here: "flow F (insert a A) B c0 c \<Longrightarrow> flow F A B c0 (patch_jump_here a c)"
  by (rule flow_weaken [OF flow_patch_here]) auto

lemma wp_patches_here:
  "flow F (set as \<union> A) B c0 c \<Longrightarrow> flow F A B c0 (fold patch_jump_here as c)"
proof (induction as arbitrary: c)
  case (Cons a as)
  show ?case
    by (simp, rule Cons.IH, rule wp_patch_here) (use Cons.prems in simp)
qed simp

lemma wp_patch_to:
  "flow F (insert a A) (insert t B) c0 c \<Longrightarrow> flow F A B c0 (patch_jump_to a t c)"
  by (rule flow_weaken [OF flow_patch_to]) auto

lemma wp_jump:
  "emit_jump_placeholder op pos c = (a, c') \<Longrightarrow> op \<in> set ops_jump \<Longrightarrow>
     flow F (A - {a}) B c0 c \<Longrightarrow> flow F A B c0 c'"
  by (rule flow_weaken [OF flow_jump]) auto

lemma wp_patch_all:
  "flow F (set ps \<union> A) (insert t B) c0 c \<Longrightarrow> flow F A B c0 (patch_all ps t c)"
  by (rule flow_weaken [OF flow_patch_all]) auto

lemma wp_patch_all_here:
  assumes "flow F (set ps \<union> A) B c0 c"
  shows "flow F A B c0 (patch_all ps (here c) c)"
  by (rule flow_weaken [OF flow_patch_all [OF flow_mark [OF assms]]]) auto

lemma wp_loop:
  "flow F A (insert t B) c0 c \<Longrightarrow> flow F A B c0 (write_u32 t (write_op OpLoop pos c))"
  by (rule flow_weaken [OF flow_loop]) auto

lemma wp_mark: "flow F A (B - {here c}) c0 c \<Longrightarrow> flow F A B c0 c"
  by (rule flow_weaken [OF flow_mark]) auto

lemma wp_fold:
  assumes "fold_res f xs c = Inr c'"
    and "\<And>x s s'. x \<in> set xs \<Longrightarrow> f x s = Inr s' \<Longrightarrow> flow {} {} {} s s'"
    and "flow F A B c0 c"
  shows "flow F A B c0 c'"
  by (rule wp_step [OF fold_res_rel [where R = "flow {} {} {}", OF assms(1)] assms(3)])
    (auto intro: wp_start flow_step assms(2))

lemma opcode_kinds [simp]:
  "OpJump \<in> set ops_jump" "OpJumpIfFalse \<in> set ops_jump" "OpJumpIfTrue \<in> set ops_jump"
  "OpLoop \<in> set ops_jump"
  "OpLoadName \<in> set name_ops" "OpAssignName \<in> set name_ops" "OpGetProperty \<in> set name_ops"
  "OpSetProperty \<in> set name_ops" "OpSuperMethod \<in> set name_ops"
  "OpImportModule \<in> set name_ops" "OpExportName \<in> set name_ops"
  by (simp_all add: ops_jump_def name_ops_def)

lemma plain_ops [simp]:
  "plain OpPop" "plain OpDup" "plain OpAdd"
  "plain OpSub" "plain OpMul" "plain OpDiv"
  "plain OpMod" "plain OpPow" "plain OpConcat"
  "plain OpBitAnd" "plain OpBitOr" "plain OpBitXor"
  "plain OpEq" "plain OpNeq" "plain OpLt"
  "plain OpLe" "plain OpGt" "plain OpGe"
  "plain OpInstanceOf" "plain OpIn" "plain OpNot"
  "plain OpNeg" "plain OpBitNot" "plain OpShl"
  "plain OpShr" "plain OpUShr" "plain OpIdentity"
  "plain OpLoadThis" "plain OpReturn" "plain OpPushArg"
  "plain OpCallSpread" "plain OpNewObject" "plain OpGetIndex"
  "plain OpSetIndex" "plain OpSpread" "plain OpIterKeys"
  "plain OpIterValues" "plain OpLen" "plain OpIterNext"
  "plain OpThrow" "plain OpAwait" "plain OpToString"
  "plain OpThrowMatchError" "plain OpTypeOf"
  "plain OpArraySliceFrom" "plain OpExportAll"
  "plain OpWrapResolvedPromise"
  by (simp_all add: plain_def unimplemented_ops_def operand_width_def ops_u16_def ops_jump_def ops_u8_def)

lemma return_width [simp]: "operand_width OpReturn = 0"
  by (rule plain_width) simp

lemma wp_value_constant:
  "flow F A B c0 c \<Longrightarrow>
     flow F A B c0 (case add_constant v c of (idx, c1) \<Rightarrow> emit_const idx pos c1)"
  unfolding emit_value_constant_fold by (rule flow_value)

lemma wp_const:
  "add_constant v c = (idx, c1) \<Longrightarrow> flow F A B c0 c \<Longrightarrow> flow F A B c0 (emit_const idx pos c1)"
  using wp_value_constant [where v = v and c = c] by force

lemmas wp_writes =
  flow_string flow_load_name flow_value flow_decl_store flow_class_value flow_op flow_count
  wp_patch_here wp_patches_here wp_patch_all_here wp_start

end
