(* ===== verification/Resolve.thy ===== *)
theory Resolve
  imports Emit
begin

text \<open>
  The lexical resolver (\<^verbatim>\<open>crates/night24-gts/src/bytecode/resolve.rs\<close>): per function, the
  slots of its locals, the classification of every reference, and the list of captured
  upvalues with where each is captured from.

  The scope stack is the vector of the source, the innermost scope last. The traversal is
  written in open form: a step takes the functions it calls on sub-expressions (\<open>se\<close>) and
  sub-statements (\<open>ss\<close>), and \<open>scan_expr\<close>, \<open>scan_stmt\<close> tie the knot over a depth bound.
\<close>

section \<open>Data\<close>

record function_key =
  fk_file :: string
  fk_line :: nat
  fk_col :: nat
  fk_offset :: nat
  fk_name :: string

record local_binding =
  lb_name :: string
  lb_slot :: u16

datatype resolved_binding = RbLocalSlot u16 | RbUpvalue u16 upvalue_source | RbGlobal

record name_resolution =
  nr_name :: string
  nr_binding :: resolved_binding

record function_resolution =
  fr_key :: function_key
  fr_locals :: "local_binding list"
  fr_references :: "name_resolution list"
  fr_upvalues :: "upvalue_desc list"

record resolution_map =
  rm_functions :: "function_key \<Rightarrow> function_resolution option"
  rm_top_level_names :: "string list"

record function_scope =
  fs_key :: "function_key option"
  fs_can_capture :: bool
  fs_locals :: "local_binding list"
  fs_local_by_name :: "string \<Rightarrow> u16 option"
  fs_upvalues :: "upvalue_desc list"
  fs_upvalue_by_name :: "string \<Rightarrow> u16 option"
  fs_references :: "name_resolution list"

record resolver =
  rs_scopes :: "function_scope list"
  rs_resolutions :: "function_key \<Rightarrow> function_resolution option"

definition function_key_new :: "string \<Rightarrow> position \<Rightarrow> function_key" where
  "function_key_new name pos =
     \<lparr>fk_file = pos_file pos, fk_line = pos_line pos, fk_col = pos_col pos,
      fk_offset = pos_offset pos, fk_name = name\<rparr>"

text \<open>\<^verbatim>\<open>ResolutionMap::function\<close> and \<^verbatim>\<open>is_top_level_binding\<close>.\<close>

definition resolution_function ::
  "resolution_map \<Rightarrow> string \<Rightarrow> position \<Rightarrow> function_resolution option" where
  "resolution_function rm name pos = rm_functions rm (function_key_new name pos)"

definition is_top_level_binding :: "resolution_map \<Rightarrow> string \<Rightarrow> bool" where
  "is_top_level_binding rm name \<longleftrightarrow> list_ex (\<lambda>n. n = name) (rm_top_level_names rm)"

section \<open>Scopes\<close>

definition scope_root :: function_scope where
  "scope_root =
     \<lparr>fs_key = None, fs_can_capture = False, fs_locals = [], fs_local_by_name = (\<lambda>_. None),
      fs_upvalues = [], fs_upvalue_by_name = (\<lambda>_. None), fs_references = []\<rparr>"

definition scope_function :: "function_key \<Rightarrow> function_scope" where
  "scope_function key = scope_root\<lparr>fs_key := Some key, fs_can_capture := True\<rparr>"

definition scope_declare :: "string \<Rightarrow> function_scope \<Rightarrow> u16 \<times> function_scope" where
  "scope_declare name sc =
     (case fs_local_by_name sc name of
        Some slot \<Rightarrow> (slot, sc)
      | None \<Rightarrow>
          let slot = of_nat (length (fs_locals sc))
          in (slot, sc\<lparr>fs_locals := fs_locals sc @ [\<lparr>lb_name = name, lb_slot = slot\<rparr>],
                      fs_local_by_name := (fs_local_by_name sc)(name := Some slot)\<rparr>))"

definition local_slot :: "function_scope \<Rightarrow> string \<Rightarrow> u16 option" where
  "local_slot sc name = fs_local_by_name sc name"

definition resolver_new :: resolver where
  "resolver_new = \<lparr>rs_scopes = [], rs_resolutions = (\<lambda>_. None)\<rparr>"

text \<open>\<^verbatim>\<open>declare_current\<close>; without a scope the \<^verbatim>\<open>expect\<close> panics.\<close>

definition declare_current :: "string \<Rightarrow> resolver \<Rightarrow> cerr + resolver" where
  "declare_current name r =
     (if rs_scopes r = [] then Inl CPanic
      else Inr (r\<lparr>rs_scopes := butlast (rs_scopes r)
                    @ [snd (scope_declare name (last (rs_scopes r)))]\<rparr>))"

definition push_scope :: "function_scope \<Rightarrow> resolver \<Rightarrow> resolver" where
  "push_scope sc r = r\<lparr>rs_scopes := rs_scopes r @ [sc]\<rparr>"

section \<open>Declarations of a statement list\<close>

text \<open>\<^verbatim>\<open>collect_local_declarations\<close>, one statement.\<close>

function (sequential) collect_decl :: "stmt \<Rightarrow> resolver \<Rightarrow> cerr + resolver" where
  "collect_decl (SLet _ name _ _ _) r = declare_current name r"
| "collect_decl (SConst _ name _ _ _) r = declare_current name r"
| "collect_decl (SVar _ name _ _ _) r = declare_current name r"
| "collect_decl (SFuncDecl _ name _ _ _ _) r = declare_current name r"
| "collect_decl (SClassDecl d) r = declare_current (cd_name d) r"
| "collect_decl (SBlock b) r = fold_res collect_decl (block_statements b) r"
| "collect_decl (SIf _ _ consequence alternative) r =
     bind_res (fold_res collect_decl (block_statements consequence) r) (\<lambda>r.
     case alternative of Some alt \<Rightarrow> collect_decl alt r | None \<Rightarrow> Inr r)"
| "collect_decl (SWhile _ _ body) r = fold_res collect_decl (block_statements body) r"
| "collect_decl (SFor _ init _ _ body) r =
     bind_res (case init of Some s \<Rightarrow> collect_decl s r | None \<Rightarrow> Inr r) (\<lambda>r.
     fold_res collect_decl (block_statements body) r)"
| "collect_decl (SForIn _ name _ body) r =
     bind_res (declare_current name r) (\<lambda>r. fold_res collect_decl (block_statements body) r)"
| "collect_decl (SForOf _ name _ body) r =
     bind_res (declare_current name r) (\<lambda>r. fold_res collect_decl (block_statements body) r)"
| "collect_decl (STry _ block ctch finalizer) r =
     bind_res (fold_res collect_decl (block_statements block) r) (\<lambda>r.
     bind_res
       (case ctch of
          Some ct \<Rightarrow>
            bind_res (if catch_name ct \<noteq> [] then declare_current (catch_name ct) r else Inr r)
              (\<lambda>r. fold_res collect_decl (block_statements (catch_body ct)) r)
        | None \<Rightarrow> Inr r) (\<lambda>r.
     case finalizer of
       Some f \<Rightarrow> fold_res collect_decl (block_statements f) r
     | None \<Rightarrow> Inr r))"
| "collect_decl (SExport _ _ _ decl _ _) r =
     (case decl of Some d \<Rightarrow> collect_decl d r | None \<Rightarrow> Inr r)"
| "collect_decl (SImport _ deflt namespace names aliases _) r =
     bind_res (if deflt \<noteq> [] then declare_current deflt r else Inr r) (\<lambda>r.
     bind_res (if namespace \<noteq> [] then declare_current namespace r else Inr r) (\<lambda>r.
     bind_res (fold_res (\<lambda>(_, alias). declare_current alias) aliases r) (\<lambda>r.
     fold_res declare_current names r)))"
| "collect_decl _ r = Inr r"
  by pat_completeness auto

termination
  by (relation "measure (\<lambda>(s, _). size s)"; simp)
    (fastforce dest: size_block_statement size_catch_statement)+

section \<open>References\<close>

definition add_upvalue :: "nat \<Rightarrow> string \<Rightarrow> upvalue_source \<Rightarrow> resolver \<Rightarrow> u16 \<times> resolver" where
  "add_upvalue scope_idx name source r =
     (let sc = rs_scopes r ! scope_idx
      in case fs_upvalue_by_name sc name of
           Some index \<Rightarrow> (index, r)
         | None \<Rightarrow>
             let index = of_nat (length (fs_upvalues sc));
                 sc' = sc\<lparr>fs_upvalues := fs_upvalues sc @ [\<lparr>ud_name = name, ud_source = source\<rparr>],
                          fs_upvalue_by_name := (fs_upvalue_by_name sc)(name := Some index)\<rparr>
             in (index, r\<lparr>rs_scopes := (rs_scopes r)[scope_idx := sc']\<rparr>))"

fun resolve_upvalue ::
  "nat \<Rightarrow> string \<Rightarrow> resolver \<Rightarrow> (u16 \<times> upvalue_source) option \<times> resolver" where
  "resolve_upvalue 0 name r = (None, r)"
| "resolve_upvalue (Suc parent_idx) name r =
     (if \<not> fs_can_capture (rs_scopes r ! parent_idx) then (None, r)
      else case local_slot (rs_scopes r ! parent_idx) name of
             Some slot \<Rightarrow>
               (let src = LocalSlot slot; (index, r1) = add_upvalue (Suc parent_idx) name src r
                in (Some (index, src), r1))
           | None \<Rightarrow>
               (case resolve_upvalue parent_idx name r of
                  (None, r1) \<Rightarrow> (None, r1)
                | (Some (parent, _), r1) \<Rightarrow>
                    (let src = ParentUpvalue parent;
                         (index, r2) = add_upvalue (Suc parent_idx) name src r1
                     in (Some (index, src), r2))))"

definition resolve_binding :: "nat \<Rightarrow> string \<Rightarrow> resolver \<Rightarrow> resolved_binding \<times> resolver" where
  "resolve_binding current_idx name r =
     (case local_slot (rs_scopes r ! current_idx) name of
        Some slot \<Rightarrow> (RbLocalSlot slot, r)
      | None \<Rightarrow>
          (case resolve_upvalue current_idx name r of
             (Some (index, src), r1) \<Rightarrow> (RbUpvalue index src, r1)
           | (None, r1) \<Rightarrow> (RbGlobal, r1)))"

definition add_reference :: "nat \<Rightarrow> string \<Rightarrow> resolved_binding \<Rightarrow> resolver \<Rightarrow> resolver" where
  "add_reference idx name b r =
     r\<lparr>rs_scopes := (rs_scopes r)[idx := (rs_scopes r ! idx)
        \<lparr>fs_references := fs_references (rs_scopes r ! idx)
           @ [\<lparr>nr_name = name, nr_binding = b\<rparr>]\<rparr>]\<rparr>"

definition resolve_reference :: "string \<Rightarrow> resolver \<Rightarrow> cerr + resolver" where
  "resolve_reference name r =
     (if rs_scopes r = [] then Inl CPanic
      else let current_idx = length (rs_scopes r) - 1
           in case resolve_binding current_idx name r of
                (b, r1) \<Rightarrow> Inr (add_reference current_idx name b r1))"

section \<open>Traversal\<close>

type_synonym escan = "expr \<Rightarrow> resolver \<Rightarrow> cerr + resolver"
type_synonym sscan = "stmt \<Rightarrow> resolver \<Rightarrow> cerr + resolver"

definition scan_optional_expr :: "escan \<Rightarrow> expr option \<Rightarrow> resolver \<Rightarrow> cerr + resolver" where
  "scan_optional_expr se e r = (case e of Some e \<Rightarrow> se e r | None \<Rightarrow> Inr r)"

text \<open>\<^verbatim>\<open>enter_function\<close>; the tail of the source function, which pops the scope and records it.\<close>

definition leave_function :: "resolver \<Rightarrow> cerr + resolver" where
  "leave_function r =
     (if rs_scopes r = [] then Inl CPanic
      else let scope = last (rs_scopes r)
           in case fs_key scope of
                None \<Rightarrow> Inl CPanic
              | Some key \<Rightarrow>
                  Inr \<lparr>rs_scopes = butlast (rs_scopes r),
                       rs_resolutions = (rs_resolutions r)(key := Some
                         \<lparr>fr_key = key, fr_locals = fs_locals scope,
                          fr_references = fs_references scope, fr_upvalues = fs_upvalues scope\<rparr>)\<rparr>)"

definition enter_function ::
  "escan \<Rightarrow> sscan \<Rightarrow> string \<Rightarrow> gparam list \<Rightarrow> gblock \<Rightarrow> position \<Rightarrow> resolver \<Rightarrow> cerr + resolver" where
  "enter_function se ss name params body pos r =
     bind_res (let r = push_scope (scope_function (function_key_new name pos)) r
               in if name \<noteq> [] then declare_current name r else Inr r) (\<lambda>r.
     bind_res (fold_res (\<lambda>p. declare_current (param_name p)) params r) (\<lambda>r.
     bind_res (fold_res collect_decl (block_statements body) r) (\<lambda>r.
     bind_res (fold_res (\<lambda>p. scan_optional_expr se (param_default p)) params r) (\<lambda>r.
     bind_res (fold_res ss (block_statements body) r) leave_function))))"

definition scan_class :: "escan \<Rightarrow> sscan \<Rightarrow> gclass \<Rightarrow> resolver \<Rightarrow> cerr + resolver" where
  "scan_class se ss cls r =
     bind_res (scan_optional_expr se (cd_super cls) r) (\<lambda>r.
     fold_res (\<lambda>m r.
       bind_res (scan_optional_expr se (cm_default_val m) r) (\<lambda>r.
       case cm_body m of
         Some body \<Rightarrow> enter_function se ss (cm_name m) (cm_params m) body (cm_pos m) r
       | None \<Rightarrow> Inr r)) (cd_members cls) r)"

text \<open>\<^verbatim>\<open>scan_pattern_exprs\<close>.\<close>

function (sequential) scan_pattern_exprs :: "escan \<Rightarrow> expr pattern \<Rightarrow> resolver \<Rightarrow> cerr + resolver" where
  "scan_pattern_exprs se (PLiteral _ val) r = se val r"
| "scan_pattern_exprs se (POr _ alternatives) r = fold_res (scan_pattern_exprs se) alternatives r"
| "scan_pattern_exprs se (PRange _ start stop _) r =
     bind_res (se start r) (se stop)"
| "scan_pattern_exprs se _ r = Inr r"
  by pat_completeness auto
termination
  by (relation "measure (\<lambda>(se, p, r). size p)") (auto simp: less_Suc_eq_le size_list_estimation')

definition scan_match_arm ::
  "escan \<Rightarrow> sscan \<Rightarrow> (expr, stmt) match_arm \<Rightarrow> resolver \<Rightarrow> cerr + resolver" where
  "scan_match_arm se ss arm r =
     bind_res (scan_pattern_exprs se (arm_pattern arm) r) (\<lambda>r.
     bind_res (if arm_binding_name arm \<noteq> [] then declare_current (arm_binding_name arm) r
               else Inr r) (\<lambda>r.
     bind_res (scan_optional_expr se (arm_guard arm) r) (\<lambda>r.
     case arm_body arm of
       MbExpr e \<Rightarrow> se e r
     | MbBlock b \<Rightarrow> fold_res ss (block_statements b) r)))"

text \<open>The block an arrow body stands for.\<close>

definition arrow_block :: "position \<Rightarrow> (expr, stmt) arrow_body \<Rightarrow> gblock" where
  "arrow_block pos body =
     (case body of
        AbExpr e \<Rightarrow> Block pos [SReturn pos (Some e)]
      | AbBlock b \<Rightarrow> b)"

definition scan_property :: "escan \<Rightarrow> expr property \<Rightarrow> resolver \<Rightarrow> cerr + resolver" where
  "scan_property se prop r =
     bind_res (if prop_computed prop then se (prop_key prop) r else Inr r) (\<lambda>r.
     bind_res (if prop_spread prop then se (prop_key prop) r else Inr r) (\<lambda>r.
     se (prop_value prop) r))"

fun scan_expr_step :: "escan \<Rightarrow> sscan \<Rightarrow> expr \<Rightarrow> resolver \<Rightarrow> cerr + resolver" where
  "scan_expr_step se ss (EIdent _ name) r = resolve_reference name r"
| "scan_expr_step se ss (EDynamicImport _ src) r = se src r"
| "scan_expr_step se ss (EArray _ elements) r = fold_res se elements r"
| "scan_expr_step se ss (EObject _ properties) r = fold_res (scan_property se) properties r"
| "scan_expr_step se ss (EPrefix _ _ right) r = se right r"
| "scan_expr_step se ss (EInfix _ _ left right) r =
     bind_res (se left r) (scan_optional_expr se right)"
| "scan_expr_step se ss (ETernary _ cnd consequent alternate) r =
     bind_res (se cnd r) (\<lambda>r. bind_res (se consequent r) (se alternate))"
| "scan_expr_step se ss (EAssign _ _ left right) r =
     bind_res (case left of EIdent _ name \<Rightarrow> resolve_reference name r | _ \<Rightarrow> se left r) (se right)"
| "scan_expr_step se ss (ECall _ callee args) r = bind_res (se callee r) (fold_res se args)"
| "scan_expr_step se ss (EMember _ ob prop computed) r =
     bind_res (se ob r) (\<lambda>r. if computed then se prop r else Inr r)"
| "scan_expr_step se ss (EIndex _ left index) r = bind_res (se left r) (se index)"
| "scan_expr_step se ss (EOptional _ ob prop computed _ args) r =
     bind_res (se ob r) (\<lambda>r.
     bind_res (if computed then se prop r else Inr r) (fold_res se args))"
| "scan_expr_step se ss (EFunc pos name params _ body _) r =
     enter_function se ss name params body pos r"
| "scan_expr_step se ss (EArrow pos params _ body _) r =
     enter_function se ss [] params (arrow_block pos body) pos r"
| "scan_expr_step se ss (ENew _ callee args) r = bind_res (se callee r) (fold_res se args)"
| "scan_expr_step se ss (EAwait _ val) r = se val r"
| "scan_expr_step se ss (ESpread _ val) r = se val r"
| "scan_expr_step se ss (EMatch _ subject arms) r =
     bind_res (se subject r) (fold_res (scan_match_arm se ss) arms)"
| "scan_expr_step se ss (EClass cls) r = scan_class se ss cls r"
| "scan_expr_step se ss _ r = Inr r"

fun scan_stmt_step :: "escan \<Rightarrow> sscan \<Rightarrow> stmt \<Rightarrow> resolver \<Rightarrow> cerr + resolver" where
  "scan_stmt_step se ss (SLet _ _ _ _ val) r = scan_optional_expr se val r"
| "scan_stmt_step se ss (SConst _ _ _ _ val) r = scan_optional_expr se val r"
| "scan_stmt_step se ss (SVar _ _ _ _ val) r = scan_optional_expr se val r"
| "scan_stmt_step se ss (SFuncDecl pos name params _ body _) r =
     enter_function se ss name params body pos r"
| "scan_stmt_step se ss (SClassDecl cls) r = scan_class se ss cls r"
| "scan_stmt_step se ss (SBlock b) r = fold_res ss (block_statements b) r"
| "scan_stmt_step se ss (SIf _ cnd consequence alternative) r =
     bind_res (se cnd r) (\<lambda>r.
     bind_res (fold_res ss (block_statements consequence) r) (\<lambda>r.
     case alternative of Some alt \<Rightarrow> ss alt r | None \<Rightarrow> Inr r))"
| "scan_stmt_step se ss (SWhile _ cnd body) r =
     bind_res (se cnd r) (fold_res ss (block_statements body))"
| "scan_stmt_step se ss (SFor _ init cnd post body) r =
     bind_res (case init of Some s \<Rightarrow> ss s r | None \<Rightarrow> Inr r) (\<lambda>r.
     bind_res (scan_optional_expr se cnd r) (\<lambda>r.
     bind_res (scan_optional_expr se post r) (fold_res ss (block_statements body))))"
| "scan_stmt_step se ss (SForIn _ _ iterable body) r =
     bind_res (se iterable r) (fold_res ss (block_statements body))"
| "scan_stmt_step se ss (SForOf _ _ iterable body) r =
     bind_res (se iterable r) (fold_res ss (block_statements body))"
| "scan_stmt_step se ss (SReturn _ val) r = scan_optional_expr se val r"
| "scan_stmt_step se ss (SThrow _ val) r = se val r"
| "scan_stmt_step se ss (STry _ block ctch finalizer) r =
     bind_res (fold_res ss (block_statements block) r) (\<lambda>r.
     bind_res (case ctch of Some ct \<Rightarrow> fold_res ss (block_statements (catch_body ct)) r
               | None \<Rightarrow> Inr r) (\<lambda>r.
     case finalizer of Some f \<Rightarrow> fold_res ss (block_statements f) r | None \<Rightarrow> Inr r))"
| "scan_stmt_step se ss (SExpr _ e) r = se e r"
| "scan_stmt_step se ss (SLabeled _ _ s) r = ss s r"
| "scan_stmt_step se ss (SExport _ _ _ decl _ _) r =
     (case decl of Some d \<Rightarrow> ss d r | None \<Rightarrow> Inr r)"
| "scan_stmt_step se ss _ r = Inr r"

text \<open>The knot: \<open>n\<close> bounds the depth of the recursion.\<close>

fun scan_expr :: "nat \<Rightarrow> expr \<Rightarrow> resolver \<Rightarrow> cerr + resolver"
  and scan_stmt :: "nat \<Rightarrow> stmt \<Rightarrow> resolver \<Rightarrow> cerr + resolver" where
  "scan_expr 0 e r = Inl CFuel"
| "scan_expr (Suc n) e r = scan_expr_step (scan_expr n) (scan_stmt n) e r"
| "scan_stmt 0 s r = Inl CFuel"
| "scan_stmt (Suc n) s r = scan_stmt_step (scan_expr n) (scan_stmt n) s r"

text \<open>A depth that is enough for a statement list (\<open>resolve_program_total\<close>).\<close>

definition stmts_depth :: "stmt list \<Rightarrow> nat" where
  "stmts_depth ss = 2 * size_list size ss + 2"

text \<open>\<^verbatim>\<open>resolve_program\<close>, \<^verbatim>\<open>enter_root\<close> and \<^verbatim>\<open>finish_root\<close>.\<close>

definition finish_root :: "resolver \<Rightarrow> resolution_map" where
  "finish_root r =
     \<lparr>rm_functions = rs_resolutions r,
      rm_top_level_names =
        (if rs_scopes r = [] then [] else map lb_name (fs_locals (last (rs_scopes r))))\<rparr>"

definition resolve_program :: "program \<Rightarrow> cerr + resolution_map" where
  "resolve_program prog =
     (let body = prog_body prog
      in bind_res (fold_res collect_decl body (push_scope scope_root resolver_new)) (\<lambda>r.
         bind_res (fold_res (scan_stmt (stmts_depth body)) body r) (\<lambda>r.
         Inr (finish_root r))))"

section \<open>The resolver is total and keeps its tables consistent\<close>

text \<open>
  The slots of a scope are \<open>0, 1, ...\<close> in declaration order, no name is declared twice, the
  name tables agree with the lists, and every recorded reference agrees with them.
\<close>

definition slots_ok :: "local_binding list \<Rightarrow> (string \<Rightarrow> u16 option) \<Rightarrow> bool" where
  "slots_ok ls m \<longleftrightarrow> distinct (map lb_name ls) \<and> map lb_slot ls = map of_nat [0..<length ls]
     \<and> m = map_of (map (\<lambda>b. (lb_name b, lb_slot b)) ls)"

definition upvalues_ok :: "upvalue_desc list \<Rightarrow> (string \<Rightarrow> u16 option) \<Rightarrow> bool" where
  "upvalues_ok us m \<longleftrightarrow> distinct (map ud_name us)
     \<and> m = map_of (zip (map ud_name us) (map of_nat [0..<length us]))"

definition reference_ok ::
  "(string \<Rightarrow> u16 option) \<Rightarrow> (string \<Rightarrow> u16 option) \<Rightarrow> name_resolution \<Rightarrow> bool" where
  "reference_ok locals upvalues r =
     (case nr_binding r of
        RbLocalSlot slot \<Rightarrow> locals (nr_name r) = Some slot
      | RbUpvalue index _ \<Rightarrow> upvalues (nr_name r) = Some index
      | RbGlobal \<Rightarrow> True)"

definition scope_ok :: "function_scope \<Rightarrow> bool" where
  "scope_ok sc \<longleftrightarrow> slots_ok (fs_locals sc) (fs_local_by_name sc)
     \<and> upvalues_ok (fs_upvalues sc) (fs_upvalue_by_name sc)
     \<and> (\<forall>r\<in>set (fs_references sc). reference_ok (fs_local_by_name sc) (fs_upvalue_by_name sc) r)"

definition resolution_ok :: "function_resolution \<Rightarrow> bool" where
  "resolution_ok fr \<longleftrightarrow> (\<exists>l u. slots_ok (fr_locals fr) l \<and> upvalues_ok (fr_upvalues fr) u
     \<and> (\<forall>r\<in>set (fr_references fr). reference_ok l u r))"

definition resolver_ok :: "resolver \<Rightarrow> bool" where
  "resolver_ok r \<longleftrightarrow> (\<forall>sc\<in>set (rs_scopes r). scope_ok sc)
     \<and> (\<forall>k fr. rs_resolutions r k = Some fr \<longrightarrow> resolution_ok fr \<and> fr_key fr = k)"

lemma scope_ok_root: "scope_ok scope_root" "scope_ok (scope_function k)"
  by (simp_all add: scope_ok_def scope_root_def scope_function_def slots_ok_def upvalues_ok_def)

lemma map_add_single: "m k = None \<Longrightarrow> [k \<mapsto> v] ++ m = m(k := Some v)"
  by (auto simp: map_add_def split: option.splits)

lemma slots_ok_snoc:
  assumes "slots_ok ls m" "m name = None"
  shows "slots_ok (ls @ [\<lparr>lb_name = name, lb_slot = of_nat (length ls)\<rparr>])
    (m(name := Some (of_nat (length ls))))"
proof -
  have "name \<notin> lb_name ` set ls"
    using assms by (auto simp: slots_ok_def map_of_eq_None_iff image_image)
  with assms show ?thesis by (auto simp: slots_ok_def map_add_single)
qed

lemma upvalues_ok_snoc:
  assumes "upvalues_ok us m" "m name = None"
  shows "upvalues_ok (us @ [\<lparr>ud_name = name, ud_source = src\<rparr>]) (m(name := Some (of_nat (length us))))"
proof -
  have "name \<notin> ud_name ` set us"
    using assms by (auto simp: upvalues_ok_def map_of_zip_is_None)
  with assms show ?thesis by (auto simp: upvalues_ok_def map_add_single)
qed

lemma reference_ok_mono:
  "reference_ok l u r \<Longrightarrow> l \<subseteq>\<^sub>m l' \<Longrightarrow> u \<subseteq>\<^sub>m u' \<Longrightarrow> reference_ok l' u' r"
  by (auto simp: reference_ok_def map_le_def dom_def split: resolved_binding.splits)

lemma map_le_new: "m k = None \<Longrightarrow> m \<subseteq>\<^sub>m m(k := Some v)"
  by (auto simp: map_le_def)

lemma scope_ok_declare: "scope_ok sc \<Longrightarrow> scope_ok (snd (scope_declare name sc))"
  by (auto simp: scope_declare_def scope_ok_def Let_def slots_ok_snoc map_le_new
      intro: reference_ok_mono split: option.splits)

text \<open>
  \<open>step_ok r x\<close>: from a consistent resolver with an open scope, \<open>x\<close> is a success, and its
  resolver is consistent and has the same scopes open.
\<close>

definition scope_keys :: "resolver \<Rightarrow> function_key option list" where
  "scope_keys r = map fs_key (rs_scopes r)"

definition step_ok :: "resolver \<Rightarrow> cerr + resolver \<Rightarrow> bool" where
  "step_ok r x \<longleftrightarrow> (resolver_ok r \<and> rs_scopes r \<noteq> [] \<longrightarrow>
     (\<exists>r'. x = Inr r' \<and> resolver_ok r' \<and> scope_keys r' = scope_keys r))"

lemma step_okI:
  assumes "resolver_ok r \<Longrightarrow> rs_scopes r \<noteq> [] \<Longrightarrow>
    \<exists>r'. x = Inr r' \<and> resolver_ok r' \<and> scope_keys r' = scope_keys r"
  shows "step_ok r x"
  using assms by (simp add: step_ok_def)

lemma scope_keys_ne: "scope_keys r' = scope_keys r \<Longrightarrow> rs_scopes r' = [] \<longleftrightarrow> rs_scopes r = []"
  unfolding scope_keys_def by (metis map_is_Nil_conv)

lemma step_ok_Inr [simp, intro]: "step_ok r (Inr r)"
  by (simp add: step_ok_def)

lemma step_ok_bind [intro]:
  assumes "step_ok r x" "\<And>r'. x = Inr r' \<Longrightarrow> step_ok r' (g r')"
  shows "step_ok r (bind_res x g)"
proof (rule step_okI)
  assume r: "resolver_ok r" "rs_scopes r \<noteq> []"
  with assms(1) obtain r1 where r1: "x = Inr r1" "resolver_ok r1" "scope_keys r1 = scope_keys r"
    by (auto simp: step_ok_def)
  with assms(2) [of r1] r scope_keys_ne [OF r1(3)]
  show "\<exists>r'. bind_res x g = Inr r' \<and> resolver_ok r' \<and> scope_keys r' = scope_keys r"
    by (auto simp: step_ok_def)
qed

lemma step_ok_fold [intro]:
  "(\<And>x r. x \<in> set xs \<Longrightarrow> step_ok r (f x r)) \<Longrightarrow> step_ok r (fold_res f xs r)"
  by (induction xs arbitrary: r) auto

lemma step_ok_update:
  assumes "rs_scopes r' = (rs_scopes r)[i := sc]" "rs_resolutions r' = rs_resolutions r"
    and "i < length (rs_scopes r)" "fs_key sc = fs_key (rs_scopes r ! i)"
    and "resolver_ok r \<Longrightarrow> scope_ok sc"
  shows "step_ok r (Inr r')"
  using assms set_update_subset_insert [of "rs_scopes r" i sc]
  by (auto simp: step_ok_def resolver_ok_def scope_keys_def map_update list_update_same_conv
      dest!: subsetD)

lemma scope_declare_key [simp]: "fs_key (snd (scope_declare name sc)) = fs_key sc"
  by (simp add: scope_declare_def Let_def split: option.split)

lemma butlast_snoc_update: "xs \<noteq> [] \<Longrightarrow> butlast xs @ [x] = xs[length xs - 1 := x]"
  by (induction xs rule: rev_induct) simp_all

lemma declare_current_ok [intro]: "step_ok r (declare_current name r)"
proof (cases "rs_scopes r = []")
  case False
  let ?sc = "snd (scope_declare name (last (rs_scopes r)))"
  let ?r = "r\<lparr>rs_scopes := butlast (rs_scopes r) @ [?sc]\<rparr>"
  have "step_ok r (Inr ?r)"
  proof (rule step_ok_update)
    show "rs_scopes ?r = (rs_scopes r)[length (rs_scopes r) - 1 := ?sc]"
      using False by (simp add: butlast_snoc_update)
  qed (use False in \<open>auto simp: last_conv_nth resolver_ok_def intro!: scope_ok_declare\<close>)
  with False show ?thesis by (simp add: declare_current_def)
qed (simp add: step_ok_def)

lemma collect_decl_ok [intro]: "step_ok r (collect_decl s r)"
  by (induction s r rule: collect_decl.induct)
    (auto simp: split_beta intro!: step_ok_bind step_ok_fold split: option.splits)

text \<open>Captures only extend the scopes between the reference and the declaring function.\<close>

lemma add_upvalue_ok:
  assumes "add_upvalue i name src r = (index, r')" "i < length (rs_scopes r)" "resolver_ok r"
  shows "resolver_ok r'" "scope_keys r' = scope_keys r"
    "fs_upvalue_by_name (rs_scopes r' ! i) name = Some index"
    "\<And>j. fs_local_by_name (rs_scopes r' ! j) = fs_local_by_name (rs_scopes r ! j)"
proof -
  let ?sc = "rs_scopes r ! i"
  have ok: "scope_ok ?sc" using assms(2,3) by (simp add: resolver_ok_def)
  have "resolver_ok r' \<and> scope_keys r' = scope_keys r \<and>
      fs_upvalue_by_name (rs_scopes r' ! i) name = Some index \<and>
      (\<forall>j. fs_local_by_name (rs_scopes r' ! j) = fs_local_by_name (rs_scopes r ! j))"
  proof (cases "fs_upvalue_by_name ?sc name")
    case None
    let ?sc' = "?sc\<lparr>fs_upvalues := fs_upvalues ?sc @ [\<lparr>ud_name = name, ud_source = src\<rparr>],
      fs_upvalue_by_name := (fs_upvalue_by_name ?sc)(name := Some (of_nat (length (fs_upvalues ?sc))))\<rparr>"
    have "scope_ok ?sc'"
      using ok None by (auto simp: scope_ok_def upvalues_ok_snoc map_le_new intro: reference_ok_mono)
    then have "step_ok r (Inr (r\<lparr>rs_scopes := (rs_scopes r)[i := ?sc']\<rparr>))"
      using assms(2) by (intro step_ok_update) auto
    moreover have "rs_scopes r \<noteq> []" using assms(2) by auto
    ultimately show ?thesis
      using assms None by (auto simp: add_upvalue_def Let_def step_ok_def nth_list_update)
  qed (use assms in \<open>auto simp: add_upvalue_def Let_def\<close>)
  then show "resolver_ok r'" "scope_keys r' = scope_keys r"
    "fs_upvalue_by_name (rs_scopes r' ! i) name = Some index"
    "\<And>j. fs_local_by_name (rs_scopes r' ! j) = fs_local_by_name (rs_scopes r ! j)" by blast+
qed

lemma scope_keys_length: "scope_keys r' = scope_keys r \<Longrightarrow> length (rs_scopes r') = length (rs_scopes r)"
  unfolding scope_keys_def by (metis length_map)

lemma resolve_upvalue_ok:
  assumes "resolve_upvalue i name r = (res, r')" "i < length (rs_scopes r)" "resolver_ok r"
  shows "resolver_ok r' \<and> scope_keys r' = scope_keys r \<and>
    (\<forall>index src. res = Some (index, src) \<longrightarrow> fs_upvalue_by_name (rs_scopes r' ! i) name = Some index)"
  using assms
proof (induction i arbitrary: r res r')
  case (Suc p)
  show ?case
  proof (cases "fs_can_capture (rs_scopes r ! p)")
    case True
    show ?thesis
    proof (cases "local_slot (rs_scopes r ! p) name")
      case (Some slot)
      with True Suc.prems show ?thesis
        by (auto simp: Let_def split: prod.splits dest: add_upvalue_ok)
    next
      case None
      obtain res1 r1 where r1: "resolve_upvalue p name r = (res1, r1)" by force
      from Suc.IH [OF r1] Suc.prems have "resolver_ok r1" "scope_keys r1 = scope_keys r" by auto
      with True None r1 Suc.prems scope_keys_length [of r1 r] show ?thesis
        by (auto simp: Let_def split: prod.splits option.splits dest: add_upvalue_ok)
    qed
  qed (use Suc.prems in auto)
qed simp

lemma resolve_reference_ok [intro]: "step_ok r (resolve_reference name r)"
proof (rule step_okI)
  assume r: "resolver_ok r" "rs_scopes r \<noteq> []"
  let ?i = "length (rs_scopes r) - 1"
  have i: "?i < length (rs_scopes r)" using r(2) by simp
  obtain b r1 where b: "resolve_binding ?i name r = (b, r1)" by force
  have r1: "resolver_ok r1" "scope_keys r1 = scope_keys r"
    and ref: "reference_ok (fs_local_by_name (rs_scopes r1 ! ?i)) (fs_upvalue_by_name (rs_scopes r1 ! ?i))
      \<lparr>nr_name = name, nr_binding = b\<rparr>"
  proof -
    obtain res r2 where u: "resolve_upvalue ?i name r = (res, r2)" by force
    from resolve_upvalue_ok [OF u i r(1)] b u r(1)
    show "resolver_ok r1" "scope_keys r1 = scope_keys r"
      "reference_ok (fs_local_by_name (rs_scopes r1 ! ?i)) (fs_upvalue_by_name (rs_scopes r1 ! ?i))
        \<lparr>nr_name = name, nr_binding = b\<rparr>"
      by (auto simp: resolve_binding_def reference_ok_def local_slot_def split: option.splits prod.splits)
  qed
  have ne: "rs_scopes r1 \<noteq> []" "?i < length (rs_scopes r1)"
    using scope_keys_length [OF r1(2)] r(2) by auto
  have "step_ok r1 (Inr (add_reference ?i name b r1))"
  proof (rule step_ok_update)
    show "rs_scopes (add_reference ?i name b r1) = (rs_scopes r1)[?i := (rs_scopes r1 ! ?i)
        \<lparr>fs_references := fs_references (rs_scopes r1 ! ?i) @ [\<lparr>nr_name = name, nr_binding = b\<rparr>]\<rparr>]"
      by (simp add: add_reference_def)
    assume "resolver_ok r1"
    then have "scope_ok (rs_scopes r1 ! ?i)" using ne by (simp add: resolver_ok_def)
    with ref show "scope_ok ((rs_scopes r1 ! ?i)
        \<lparr>fs_references := fs_references (rs_scopes r1 ! ?i) @ [\<lparr>nr_name = name, nr_binding = b\<rparr>]\<rparr>)"
      by (auto simp: scope_ok_def)
  qed (use ne in \<open>simp_all add: add_reference_def\<close>)
  with r r1 ne b show "\<exists>r'. resolve_reference name r = Inr r' \<and> resolver_ok r' \<and> scope_keys r' = scope_keys r"
    by (auto simp: resolve_reference_def step_ok_def)
qed

text \<open>
  A function body: the scope pushed at the start is the one popped at the end, so the scopes
  that were open before are untouched.
\<close>

lemma enter_function_ok:
  assumes params: "\<And>p e r. p \<in> set params \<Longrightarrow> param_default p = Some e \<Longrightarrow> step_ok r (se e r)"
    and body: "\<And>s r. s \<in> set (block_statements body) \<Longrightarrow> step_ok r (ss s r)"
  shows "step_ok r (enter_function se ss name params body pos r)"
proof (rule step_okI)
  assume r: "resolver_ok r" "rs_scopes r \<noteq> []"
  let ?k = "function_key_new name pos"
  let ?r0 = "push_scope (scope_function ?k) r"
  let ?inner = "bind_res (if name \<noteq> [] then declare_current name ?r0 else Inr ?r0) (\<lambda>r.
     bind_res (fold_res (\<lambda>p. declare_current (param_name p)) params r) (\<lambda>r.
     bind_res (fold_res collect_decl (block_statements body) r) (\<lambda>r.
     bind_res (fold_res (\<lambda>p. scan_optional_expr se (param_default p)) params r) (\<lambda>r.
     fold_res ss (block_statements body) r))))"
  have inner: "step_ok ?r0 ?inner"
    using params body
    by (auto simp: scan_optional_expr_def intro!: step_ok_bind step_ok_fold split: option.splits)
  have r0: "resolver_ok ?r0" "rs_scopes ?r0 \<noteq> []"
    using r by (auto simp: push_scope_def resolver_ok_def scope_ok_root)
  from inner r0 obtain r1 where r1: "?inner = Inr r1" "resolver_ok r1" "scope_keys r1 = scope_keys ?r0"
    by (auto simp: step_ok_def)
  have keys: "map fs_key (rs_scopes r1) = scope_keys r @ [Some ?k]"
    using r1(3) by (simp add: scope_keys_def push_scope_def scope_function_def)
  then obtain ys sc where ys: "rs_scopes r1 = ys @ [sc]" "map fs_key ys = scope_keys r" "fs_key sc = Some ?k"
    by (auto simp: map_eq_append_conv)
  let ?r2 = "\<lparr>rs_scopes = ys, rs_resolutions = (rs_resolutions r1)(?k := Some
       \<lparr>fr_key = ?k, fr_locals = fs_locals sc, fr_references = fs_references sc,
        fr_upvalues = fs_upvalues sc\<rparr>)\<rparr>"
  have "leave_function r1 = Inr ?r2" using ys by (simp add: leave_function_def)
  moreover have "enter_function se ss name params body pos r = bind_res ?inner leave_function"
    by (simp add: enter_function_def Let_def bind_res_assoc)
  moreover have "scope_ok sc" using r1(2) ys(1) by (simp add: resolver_ok_def)
  then have "resolver_ok ?r2"
    using r1(2) ys(1) by (auto simp: resolver_ok_def resolution_ok_def scope_ok_def)
  ultimately show "\<exists>r'. enter_function se ss name params body pos r = Inr r' \<and> resolver_ok r' \<and>
      scope_keys r' = scope_keys r"
    using r1(1) ys(2) by (simp add: scope_keys_def)
qed

lemma arrow_block_statement:
  "s \<in> set (block_statements (arrow_block pos b)) \<Longrightarrow> size s \<le> size_arrow_body size size b + 1"
  by (cases b) (auto simp: arrow_block_def dest: size_block_statement)

text \<open>The traversal, given traversals of everything below a size bound.\<close>

locale scanner =
  fixes se :: escan and ss :: sscan and bound :: nat
  assumes se_ok: "2 * size e + 1 < bound \<Longrightarrow> step_ok r (se e r)"
    and ss_ok: "2 * size s < bound \<Longrightarrow> step_ok r (ss s r)"
begin

lemma block_ok: "2 * size_block size b \<le> bound \<Longrightarrow> step_ok r (fold_res ss (block_statements b) r)"
  by (intro step_ok_fold ss_ok) (auto dest: size_block_statement)

lemma exprs_ok: "2 * size_list size es + 1 < bound \<Longrightarrow> step_ok r (fold_res se es r)"
  by (intro step_ok_fold se_ok) (auto dest: size_list_member [where f = size])

lemma optional_ok:
  "(\<And>x. e = Some x \<Longrightarrow> 2 * size x + 1 < bound) \<Longrightarrow> step_ok r (scan_optional_expr se e r)"
  by (auto simp: scan_optional_expr_def intro: se_ok split: option.split)

lemma function_ok:
  assumes "2 * size_list (size_param size) ps < bound"
    and "\<And>s. s \<in> set (block_statements b) \<Longrightarrow> 2 * size s < bound"
  shows "step_ok r (enter_function se ss name ps b pos r)"
proof (rule enter_function_ok)
  show "step_ok r (se e r)" if "p \<in> set ps" "param_default p = Some e" for p e r
    using size_params_default [OF that] assms(1) by (intro se_ok) simp
  show "step_ok r (ss s r)" if "s \<in> set (block_statements b)" for s r
    using assms(2) [OF that] by (rule ss_ok)
qed

lemma pattern_ok:
  "2 * size_pattern size p \<le> bound \<Longrightarrow> step_ok r (scan_pattern_exprs se p r)"
proof (induction p arbitrary: r)
  case (POr pos ps)
  have "step_ok r (scan_pattern_exprs se p r)" if "p \<in> set ps" for p r
    using POr.IH [OF that, of r] POr.prems size_pattern_alternative [OF that, of size pos] by simp
  then show ?case by (simp add: step_ok_fold)
qed (auto intro!: step_ok_bind se_ok)

lemma arm_ok:
  assumes "2 * size_match_arm size size a \<le> bound"
  shows "step_ok r (scan_match_arm se ss a r)"
proof -
  have g: "2 * size x + 1 < bound" if "arm_guard a = Some x" for x
    using size_arm_parts(2) [OF that] assms by simp
  have "step_ok r (case arm_body a of MbExpr e \<Rightarrow> se e r | MbBlock b \<Rightarrow> fold_res ss (block_statements b) r)"
    for r
    using size_arm_parts(3,4) [of a] assms
    by (auto intro!: se_ok block_ok split: match_body.split)
  with size_arm_parts(1) [of a] assms g show ?thesis
    unfolding scan_match_arm_def by (auto intro!: step_ok_bind pattern_ok optional_ok)
qed

lemma class_ok:
  assumes "2 * size_class_decl size size d \<le> bound"
  shows "step_ok r (scan_class se ss d r)"
proof -
  have super: "2 * size x + 1 < bound" if "cd_super d = Some x" for x
    using size_class_parts(1) [OF that] assms by simp
  have "step_ok r (bind_res (scan_optional_expr se (cm_default_val m) r) (\<lambda>r. case cm_body m of
         Some body \<Rightarrow> enter_function se ss (cm_name m) (cm_params m) body (cm_pos m) r
       | None \<Rightarrow> Inr r))" if m: "m \<in> set (cd_members d)" for m r
  proof -
    note sz = size_class_parts(2) [OF m]
    have p: "step_ok r (se e r)" if "p \<in> set (cm_params m)" "param_default p = Some e" for p e r
      using size_member_parts(2) [OF that] sz assms by (intro se_ok) simp
    have b: "step_ok r (ss s r)" if "cm_body m = Some b" "s \<in> set (block_statements b)" for b s r
      using size_member_parts(3) [OF that(1)] size_block_statement [OF that(2)] sz assms
      by (intro ss_ok) simp
    have d: "2 * size x + 1 < bound" if "cm_default_val m = Some x" for x
      using size_member_parts(1) [OF that] sz assms by simp
    show ?thesis
      by (auto intro!: step_ok_bind optional_ok d enter_function_ok p b split: option.split)
  qed
  note member = this
  show ?thesis
    unfolding scan_class_def
    by (rule step_ok_bind [OF optional_ok step_ok_fold], erule super, erule member)
qed

lemma property_ok:
  assumes "p \<in> set ps" "2 * size_list (size_property size) ps \<le> bound"
  shows "step_ok r (scan_property se p r)"
  using size_properties [OF assms(1)] assms(2)
  by (auto simp: scan_property_def intro!: step_ok_bind se_ok)

lemma expr_step_ok: "2 * size e + 1 < Suc bound \<Longrightarrow> step_ok r (scan_expr_step se ss e r)"
proof (cases e)
  case (EFunc pos name params ret body async)
  then show "2 * size e + 1 < Suc bound \<Longrightarrow> ?thesis"
    by (auto intro!: function_ok dest!: size_block_statement)
next
  case (EArrow pos params ret body async)
  then show "2 * size e + 1 < Suc bound \<Longrightarrow> ?thesis"
    by (auto intro!: function_ok dest!: arrow_block_statement)
next
  case (EMatch pos subject arms)
  have "2 * size_match_arm size size a \<le> bound" if "a \<in> set arms" "2 * size e + 1 < Suc bound" for a
    using size_list_member [OF that(1), of "size_match_arm size size"] that(2) EMatch by simp
  with EMatch show "2 * size e + 1 < Suc bound \<Longrightarrow> ?thesis"
    by (auto intro!: step_ok_bind step_ok_fold se_ok arm_ok)
next
  case (EObject pos ps)
  then show "2 * size e + 1 < Suc bound \<Longrightarrow> ?thesis" by (auto intro!: step_ok_fold property_ok)
qed (auto intro!: step_ok_bind exprs_ok se_ok class_ok optional_ok split: expr.split)

lemma stmt_step_ok: "2 * size s < Suc bound \<Longrightarrow> step_ok r (scan_stmt_step se ss s r)"
proof (cases s)
  case (SFuncDecl pos name params ret body async)
  then show "2 * size s < Suc bound \<Longrightarrow> ?thesis"
    by (auto intro!: function_ok dest!: size_block_statement)
next
  case (STry pos block ctch finalizer)
  have c: "2 * size_block size (catch_body ct) \<le> bound"
    if "2 * size s < Suc bound" "ctch = Some ct" for ct
    using that STry by (cases ct) simp
  with STry show "2 * size s < Suc bound \<Longrightarrow> ?thesis"
    by (auto intro!: step_ok_bind block_ok split: option.split)
qed (auto intro!: step_ok_bind block_ok se_ok ss_ok class_ok optional_ok split: option.split)

end

text \<open>The knot satisfies the contract at every depth.\<close>

lemma scanner_knot: "scanner (scan_expr n) (scan_stmt n) n"
proof (induction n)
  case (Suc n)
  from scanner.expr_step_ok [OF Suc.IH] scanner.stmt_step_ok [OF Suc.IH]
  show ?case by unfold_locales simp_all
qed (unfold_locales, simp_all)

interpretation scan: scanner "scan_expr n" "scan_stmt n" n for n
  by (rule scanner_knot)

text \<open>
  From a fresh resolver the whole program is resolved,
  and every function's table is consistent.
\<close>

lemma resolve_program_ok:
  "\<exists>rm. resolve_program prog = Inr rm \<and>
     (\<forall>k fr. rm_functions rm k = Some fr \<longrightarrow> resolution_ok fr \<and> fr_key fr = k)
     \<and> distinct (rm_top_level_names rm)"
proof -
  let ?body = "prog_body prog" and ?r0 = "push_scope scope_root resolver_new"
  have r0: "resolver_ok ?r0" "rs_scopes ?r0 \<noteq> []"
    by (simp_all add: push_scope_def resolver_new_def resolver_ok_def scope_ok_root)
  have "step_ok ?r0 (bind_res (fold_res collect_decl ?body ?r0)
      (fold_res (scan_stmt (stmts_depth ?body)) ?body))"
  proof (rule step_ok_bind)
    fix r
    show "step_ok r (fold_res (scan_stmt (stmts_depth ?body)) ?body r)"
    proof (rule step_ok_fold)
      fix s r assume "s \<in> set ?body"
      then have "size s \<le> size_list size ?body" by (rule size_list_member)
      then show "step_ok r (scan_stmt (stmts_depth ?body) s r)"
        by (intro scan.ss_ok) (simp add: stmts_depth_def)
    qed
  qed auto
  with r0 obtain r where r: "bind_res (fold_res collect_decl ?body ?r0)
      (fold_res (scan_stmt (stmts_depth ?body)) ?body) = Inr r" "resolver_ok r"
    "scope_keys r = scope_keys ?r0" by (auto simp: step_ok_def)
  have ne: "rs_scopes r \<noteq> []" using scope_keys_ne [OF r(3)] r0(2) by simp
  have "resolve_program prog = Inr (finish_root r)"
    using r(1) by (auto simp: resolve_program_def Let_def)
  moreover have "scope_ok (last (rs_scopes r))" using r(2) ne by (simp add: resolver_ok_def)
  ultimately show ?thesis
    using r(2) ne by (auto simp: finish_root_def resolver_ok_def scope_ok_def slots_ok_def)
qed

end
