(* ===== verification/Compile_Expr.thy ===== *)
theory Compile_Expr
  imports Layout
begin

unbundle bit_operations_syntax

text \<open>
  The expression helpers of the bytecode compiler
  (\<^verbatim>\<open>crates/night24-gts/src/bytecode/compiler_{literals,templates,access,calls,collections,
  conditionals,operators,assign,match_patterns}.rs\<close>). As in the source, a helper that compiles
  sub-expressions takes the compiler of expressions as an argument, \<^verbatim>\<open>compile_expr\<close> there and
  \<open>ce\<close> here; the recursion is tied in \<^verbatim>\<open>Compiler.thy\<close>. The arguments of a helper are the fields
  of the syntax node in the order of the node.

  The locale \<open>expr_compiler\<close> states what the helpers need of \<open>ce\<close> (that it only appends
  well-formed code) and proves the same of every helper.
\<close>

section \<open>The world outside the compiler\<close>

text \<open>
  \<open>h_parse source file\<close> is the parsed program with the parser's errors, \<open>h_regex_ok\<close> whether
  the \<^verbatim>\<open>regex\<close> crate accepts a pattern, \<open>h_fmt\<close> the \<^verbatim>\<open>Display\<close> of a float.
\<close>

record host =
  h_parse :: "string \<Rightarrow> string \<Rightarrow> program \<times> string list"
  h_regex_ok :: "string \<Rightarrow> bool"
  h_fmt :: "f64 \<Rightarrow> string"

type_synonym ecompiler = "expr \<Rightarrow> chunk \<Rightarrow> cerr + chunk"

section \<open>Literals and templates\<close>

definition compile_string_literal :: "position \<Rightarrow> string \<Rightarrow> chunk \<Rightarrow> cerr + chunk" where
  "compile_string_literal pos literal c =
     (case eval_string_lit literal of
        None \<Rightarrow> Inl CPanic
      | Some val \<Rightarrow>
          if is_runtime_error val then Inl (CErr val)
          else (case add_constant val c of (idx, c) \<Rightarrow> Inr (emit_const idx pos c)))"

definition compile_regexp_literal :: "host \<Rightarrow> position \<Rightarrow> string \<Rightarrow> chunk \<Rightarrow> cerr + chunk" where
  "compile_regexp_literal h pos literal c =
     (let val = eval_regexp_lit (h_regex_ok h) pos literal
      in if is_runtime_error val then Inl (CErr val)
         else (case add_constant val c of (idx, c) \<Rightarrow> Inr (emit_const idx pos c)))"

definition compile_template_static :: "position \<Rightarrow> string \<Rightarrow> chunk \<Rightarrow> cerr + chunk" where
  "compile_template_static pos literal c =
     (case eval_template_static literal of
        None \<Rightarrow> Inl CPanic
      | Some val \<Rightarrow> (case add_constant val c of (idx, c) \<Rightarrow> Inr (emit_const idx pos c)))"

definition emit_template_string_const :: "string \<Rightarrow> position \<Rightarrow> chunk \<Rightarrow> chunk" where
  "emit_template_string_const val pos c =
     (case add_constant (OString val) c of (idx, c) \<Rightarrow> emit_const idx pos c)"

definition finish_template_segment :: "nat \<Rightarrow> position \<Rightarrow> chunk \<Rightarrow> nat \<times> chunk" where
  "finish_template_segment segments_emitted pos c =
     (segments_emitted + 1, if 0 < segments_emitted then write_op OpConcat pos c else c)"

text \<open>\<^verbatim>\<open>parse_template_expr\<close>: the value of the first \<^verbatim>\<open>let\<close> with an initializer.\<close>

fun first_let_value :: "stmt list \<Rightarrow> expr option" where
  "first_let_value [] = None"
| "first_let_value (SLet _ _ _ _ (Some v) # _) = Some v"
| "first_let_value (_ # ss) = first_let_value ss"

definition parse_template_expr :: "host \<Rightarrow> string \<Rightarrow> position \<Rightarrow> cerr + expr" where
  "parse_template_expr h src pos =
     (let wrap = ''let __gts_tpl = '' @ src @ '';'';
          (prog, errors) = h_parse h wrap (pos_file pos);
          failure = Inl (unsupported pos ''template expression parse error'')
      in if errors \<noteq> [] \<or> prog_errors prog \<noteq> [] then failure
         else (case first_let_value (prog_body prog) of Some v \<Rightarrow> Inr v | None \<Rightarrow> failure))"

text \<open>
  The loop of \<^verbatim>\<open>compile_template_interpolated\<close>; its index \<^verbatim>\<open>i\<close> is the start of the suffix.
\<close>

function (sequential) compile_template_segments ::
  "host \<Rightarrow> ecompiler \<Rightarrow> position \<Rightarrow> string \<Rightarrow> nat \<Rightarrow> chunk \<Rightarrow> cerr + (nat \<times> chunk)" where
  "compile_template_segments h ce pos [] n c = Inr (n, c)"
| "compile_template_segments h ce pos (b # bs) n c =
     (if starts_with (b # bs) [CHR 0x24, CHR 0x7B] then
        (case find_template_expr_end (drop 1 bs) of
           None \<Rightarrow> Inl (unsupported pos ''unterminated template expression'')
         | Some k \<Rightarrow>
             (let expr_str = trim (take k (drop 1 bs));
                  rest = drop (k + 2) bs
              in if expr_str \<noteq> [] then
                   bind_res (parse_template_expr h expr_str pos) (\<lambda>sub_expr.
                   bind_res (ce sub_expr c) (\<lambda>c.
                   case finish_template_segment n pos (write_op OpToString pos c) of
                     (n, c) \<Rightarrow> compile_template_segments h ce pos rest n c))
                 else compile_template_segments h ce pos rest n c))
      else
        (case template_text (b # bs) of
           (tx, rest) \<Rightarrow>
             (case unescape_string tx of
                None \<Rightarrow> Inl CPanic
              | Some s \<Rightarrow>
                  (case finish_template_segment n pos (emit_template_string_const s pos c) of
                     (n, c) \<Rightarrow> compile_template_segments h ce pos rest n c))))"
  by pat_completeness auto
termination
  by (relation "measure (\<lambda>(h, ce, pos, s, n, c). length s)")
    (auto dest: template_text_shrinks split: prod.splits)

definition compile_template_interpolated ::
  "host \<Rightarrow> ecompiler \<Rightarrow> position \<Rightarrow> string \<Rightarrow> chunk \<Rightarrow> cerr + chunk" where
  "compile_template_interpolated h ce pos literal c =
     (if length literal < 2 \<or> \<not> starts_with literal [CHR 0x60]
      then compile_template_static pos literal c
      else bind_res (compile_template_segments h ce pos (template_inner literal) 0 c) (\<lambda>(n, c).
             Inr (if n = 0 then emit_template_string_const [] pos c else c)))"

definition compile_template_literal ::
  "host \<Rightarrow> ecompiler \<Rightarrow> position \<Rightarrow> string \<Rightarrow> chunk \<Rightarrow> cerr + chunk" where
  "compile_template_literal h ce pos literal c =
     (if \<not> contains literal [CHR 0x24, CHR 0x7B] then compile_template_static pos literal c
      else compile_template_interpolated h ce pos literal c)"

text \<open>\<^verbatim>\<open>compile_literal_expr\<close>: \<open>None\<close> when the expression is not a literal.\<close>

fun compile_literal_expr :: "host \<Rightarrow> ecompiler \<Rightarrow> expr \<Rightarrow> chunk \<Rightarrow> (cerr + chunk) option" where
  "compile_literal_expr h ce (ENumber pos _ val _) c =
     Some (Inr (emit_value_constant (ONumber val) pos c))"
| "compile_literal_expr h ce (EBool pos b) c = Some (Inr (emit_value_constant (OBoolean b) pos c))"
| "compile_literal_expr h ce (ENull pos) c = Some (Inr (emit_value_constant ONull pos c))"
| "compile_literal_expr h ce (EUndefined pos) c =
     Some (Inr (emit_value_constant OUndefined pos c))"
| "compile_literal_expr h ce (EString pos literal) c =
     Some (compile_string_literal pos literal c)"
| "compile_literal_expr h ce (ERegexp pos literal) c =
     Some (compile_regexp_literal h pos literal c)"
| "compile_literal_expr h ce (ETemplate pos literal) c =
     Some (compile_template_literal h ce pos literal c)"
| "compile_literal_expr h ce _ c = None"

section \<open>Property access\<close>

definition compile_dynamic_import :: "position \<Rightarrow> expr \<Rightarrow> chunk \<Rightarrow> cerr + chunk" where
  "compile_dynamic_import pos src c =
     bind_res
       (case src of
          EString _ literal \<Rightarrow> Inr (strip_quotes literal)
        | ETemplate _ literal \<Rightarrow> Inr (strip_quotes literal)
        | _ \<Rightarrow> Inl (unsupported pos ''dynamic import() requires a string specifier''))
       (\<lambda>s. Inr (write_op OpWrapResolvedPromise pos (emit_string_operand OpImportModule s pos c)))"

definition compile_await_expr :: "ecompiler \<Rightarrow> position \<Rightarrow> expr \<Rightarrow> chunk \<Rightarrow> cerr + chunk" where
  "compile_await_expr ce pos val c =
     bind_res (ce val c) (\<lambda>c. Inr (write_op OpAwait pos c))"

definition compile_member_read ::
  "host \<Rightarrow> ecompiler \<Rightarrow> position \<Rightarrow> expr \<Rightarrow> expr \<Rightarrow> bool \<Rightarrow> chunk \<Rightarrow> cerr + chunk" where
  "compile_member_read h ce pos ob prop computed c =
     bind_res (ce ob c) (\<lambda>c.
       if computed then bind_res (ce prop c) (\<lambda>c. Inr (write_op OpGetIndex pos c))
       else
         let name = object_property_key_expr (h_fmt h) prop
         in if name = [] then Inl (unsupported pos ''member property key'')
            else Inr (emit_string_operand OpGetProperty name pos c))"

definition compile_index_read ::
  "ecompiler \<Rightarrow> position \<Rightarrow> expr \<Rightarrow> expr \<Rightarrow> chunk \<Rightarrow> cerr + chunk" where
  "compile_index_read ce pos left index c =
     bind_res (ce left c) (\<lambda>c.
     bind_res (ce index c) (\<lambda>c. Inr (write_op OpGetIndex pos c)))"

definition compile_this_expr :: "position \<Rightarrow> chunk \<Rightarrow> cerr + chunk" where
  "compile_this_expr pos c = Inr (write_op OpLoadThis pos c)"

definition compile_super_expr :: "position \<Rightarrow> string \<Rightarrow> chunk \<Rightarrow> cerr + chunk" where
  "compile_super_expr pos meth c =
     (if meth = [] then (case add_constant OUndefined c of (idx, c) \<Rightarrow> Inr (emit_const idx pos c))
      else Inr (emit_string_operand OpSuperMethod meth pos c))"

section \<open>Calls\<close>

definition encode_call_arg_count :: "u16 \<Rightarrow> bool \<Rightarrow> position \<Rightarrow> cerr + u16" where
  "encode_call_arg_count arg_count has_this_receiver pos =
     (if 0x7FFF < arg_count then Inl (unsupported pos ''call with more than 32767 arguments'')
      else Inr (arg_count OR (if has_this_receiver then 0x8000 else 0)))"

text \<open>The loop over arguments or elements of which one is a spread.\<close>

definition compile_spread_element :: "ecompiler \<Rightarrow> expr \<Rightarrow> chunk \<Rightarrow> cerr + chunk" where
  "compile_spread_element ce e c =
     (case e of
        ESpread sp_pos val \<Rightarrow> bind_res (ce val c) (\<lambda>c. Inr (write_op OpSpread sp_pos c))
      | _ \<Rightarrow> bind_res (ce e c) (\<lambda>c. Inr (write_op OpPushArg (expr_pos e) c)))"

definition compile_call_args ::
  "ecompiler \<Rightarrow> expr list \<Rightarrow> bool \<Rightarrow> position \<Rightarrow> chunk \<Rightarrow> cerr + chunk" where
  "compile_call_args ce args has_this_receiver pos c =
     (if list_ex is_spread args then
        bind_res (fold_res (compile_spread_element ce) args (write_u16 0 (write_op OpNewArray pos c)))
          (\<lambda>c. Inr (write_op OpCallSpread pos c))
      else
        bind_res (fold_res ce args c) (\<lambda>c.
        bind_res (encode_call_arg_count (of_nat (length args)) has_this_receiver pos) (\<lambda>n.
        Inr (write_u16 n (write_op OpCall pos c)))))"

definition compile_super_constructor_call ::
  "ecompiler \<Rightarrow> position \<Rightarrow> expr list \<Rightarrow> chunk \<Rightarrow> cerr + chunk" where
  "compile_super_constructor_call ce pos args c =
     bind_res
       (fold_res ce args
          (emit_string_operand OpSuperMethod ''constructor'' pos (write_op OpLoadThis pos c)))
       (\<lambda>c. bind_res (encode_call_arg_count (of_nat (length args)) True pos) (\<lambda>n.
            Inr (write_u16 n (write_op OpCall pos c))))"

definition compile_new_expr ::
  "ecompiler \<Rightarrow> position \<Rightarrow> expr \<Rightarrow> expr list \<Rightarrow> chunk \<Rightarrow> cerr + chunk" where
  "compile_new_expr ce pos callee args c =
     bind_res (ce callee c) (\<lambda>c.
     bind_res (fold_res ce args c) (\<lambda>c.
     Inr (write_u16 (of_nat (length args)) (write_op OpNew pos c))))"

definition is_super :: "expr \<Rightarrow> bool" where
  "is_super e = (case e of ESuper _ _ \<Rightarrow> True | _ \<Rightarrow> False)"

text \<open>\<^verbatim>\<open>compile_call_callee\<close>: whether the call has a receiver, and the chunk.\<close>

definition compile_call_callee ::
  "host \<Rightarrow> ecompiler \<Rightarrow> expr \<Rightarrow> chunk \<Rightarrow> cerr + (bool \<times> chunk)" where
  "compile_call_callee h ce callee c =
     (case callee of
        EMember pos ob prop computed \<Rightarrow>
          let name = object_property_key_expr (h_fmt h) prop
          in if is_super ob then
               if name = [] then Inl (unsupported pos ''super method key'')
               else Inr (True, emit_string_operand OpSuperMethod name pos
                                 (write_op OpLoadThis pos c))
             else if \<not> computed then
               bind_res (ce ob c) (\<lambda>c.
                 if name = [] then Inl (unsupported pos ''member property key'')
                 else Inr (True, emit_string_operand OpGetProperty name pos
                                   (write_op OpDup pos c)))
             else bind_res (ce callee c) (\<lambda>c. Inr (False, c))
      | EIndex pos left index \<Rightarrow>
          bind_res (ce left c) (\<lambda>c.
          bind_res (ce index (write_op OpDup pos c)) (\<lambda>c.
          Inr (True, write_op OpGetIndex pos c)))
      | _ \<Rightarrow> bind_res (ce callee c) (\<lambda>c. Inr (False, c)))"

definition compile_call ::
  "host \<Rightarrow> ecompiler \<Rightarrow> position \<Rightarrow> expr \<Rightarrow> expr list \<Rightarrow> chunk \<Rightarrow> cerr + chunk" where
  "compile_call h ce pos callee args c =
     (if is_super callee then compile_super_constructor_call ce pos args c
      else bind_res (compile_call_callee h ce callee c) (\<lambda>(has_this_receiver, c).
             compile_call_args ce args has_this_receiver pos c))"

section \<open>Arrays and objects\<close>

definition compile_array_lit ::
  "ecompiler \<Rightarrow> position \<Rightarrow> expr list \<Rightarrow> chunk \<Rightarrow> cerr + chunk" where
  "compile_array_lit ce pos elements c =
     (if list_ex is_spread elements then
        fold_res (compile_spread_element ce) elements (write_u16 0 (write_op OpNewArray pos c))
      else
        bind_res (fold_res ce elements c) (\<lambda>c.
        Inr (write_u16 (of_nat (length elements)) (write_op OpNewArray pos c))))"

definition compile_object_prop ::
  "host \<Rightarrow> ecompiler \<Rightarrow> expr property \<Rightarrow> chunk \<Rightarrow> cerr + chunk" where
  "compile_object_prop h ce prop c =
     (let pos = prop_pos prop
      in if prop_is_accessor prop then Inl (unsupported pos ''object accessor property'')
         else if prop_spread prop then
           bind_res (ce (prop_value prop) c) (\<lambda>c. Inr (write_op OpSpread pos c))
         else
           bind_res
             (if prop_computed prop then
                bind_res (ce (prop_key prop) (write_op OpDup pos c)) (\<lambda>c.
                bind_res (ce (prop_value prop) c) (\<lambda>c. Inr (write_op OpSetIndex pos c)))
              else
                bind_res (ce (prop_value prop) (write_op OpDup pos c)) (\<lambda>c.
                bind_res (object_property_key (h_fmt h) prop) (\<lambda>key.
                Inr (emit_string_operand OpSetProperty key pos c))))
             (\<lambda>c. Inr (write_op OpPop pos c)))"

definition compile_object_lit ::
  "host \<Rightarrow> ecompiler \<Rightarrow> position \<Rightarrow> expr property list \<Rightarrow> chunk \<Rightarrow> cerr + chunk" where
  "compile_object_lit h ce pos properties c =
     fold_res (compile_object_prop h ce) properties (write_op OpNewObject pos c)"

section \<open>Conditionals\<close>

definition compile_ternary ::
  "ecompiler \<Rightarrow> position \<Rightarrow> expr \<Rightarrow> expr \<Rightarrow> expr \<Rightarrow> chunk \<Rightarrow> cerr + chunk" where
  "compile_ternary ce pos cnd consequent alternate c =
     bind_res (ce cnd c) (\<lambda>c.
     case emit_jump_placeholder OpJumpIfFalse pos c of (to_alternate, c) \<Rightarrow>
     bind_res (ce consequent c) (\<lambda>c.
     case emit_jump_placeholder OpJump pos c of (to_end, c) \<Rightarrow>
     bind_res (ce alternate (patch_jump_here to_alternate c)) (\<lambda>c.
     Inr (patch_jump_here to_end c))))"

definition emit_nullish_jump_checks :: "position \<Rightarrow> chunk \<Rightarrow> u32 list \<times> chunk" where
  "emit_nullish_jump_checks pos c =
     (case add_constant ONull (write_op OpDup pos c) of (null_idx, c) \<Rightarrow>
      case emit_jump_placeholder OpJumpIfTrue pos (write_op OpEq pos (emit_const null_idx pos c)) of
        (null_jump, c) \<Rightarrow>
      case add_constant OUndefined (write_op OpDup pos c) of (undefined_idx, c) \<Rightarrow>
      case emit_jump_placeholder OpJumpIfTrue pos
             (write_op OpEq pos (emit_const undefined_idx pos c)) of
        (undefined_jump, c) \<Rightarrow> ([null_jump, undefined_jump], c))"

definition compile_optional ::
  "host \<Rightarrow> ecompiler \<Rightarrow> position \<Rightarrow> expr \<Rightarrow> expr \<Rightarrow> bool \<Rightarrow> bool \<Rightarrow> expr list \<Rightarrow> chunk
   \<Rightarrow> cerr + chunk" where
  "compile_optional h ce pos ob prop computed is_call args c =
     bind_res (ce ob c) (\<lambda>c.
     case emit_nullish_jump_checks pos c of (nullish_jumps, c) \<Rightarrow>
     bind_res
       (if is_call then compile_call_args ce args False pos c
        else if computed then bind_res (ce prop c) (\<lambda>c. Inr (write_op OpGetIndex pos c))
        else
          let name = object_property_key_expr (h_fmt h) prop
          in if name = [] then Inl (unsupported pos ''optional property key'')
             else Inr (emit_string_operand OpGetProperty name pos c))
       (\<lambda>c.
     case emit_jump_placeholder OpJump pos c of (to_end, c) \<Rightarrow>
     let nullish_ip = here c;
         c = write_op OpPop pos (patch_all nullish_jumps nullish_ip c)
     in case add_constant OUndefined c of (undefined_idx, c) \<Rightarrow>
        Inr (patch_jump_here to_end (emit_const undefined_idx pos c))))"

text \<open>The three short-circuit operators; the left operand is already on the stack.\<close>

definition compile_and :: "ecompiler \<Rightarrow> position \<Rightarrow> expr \<Rightarrow> chunk \<Rightarrow> cerr + chunk" where
  "compile_and ce pos right c =
     (case emit_jump_placeholder OpJumpIfFalse pos (write_op OpDup pos c) of (patch_ip, c) \<Rightarrow>
      bind_res (ce right (write_op OpPop pos c)) (\<lambda>c. Inr (patch_jump_here patch_ip c)))"

definition compile_or :: "ecompiler \<Rightarrow> position \<Rightarrow> expr \<Rightarrow> chunk \<Rightarrow> cerr + chunk" where
  "compile_or ce pos right c =
     (case emit_jump_placeholder OpJumpIfFalse pos (write_op OpDup pos c) of (to_right, c) \<Rightarrow>
      case emit_jump_placeholder OpJump pos c of (to_end, c) \<Rightarrow>
      bind_res (ce right (write_op OpPop pos (patch_jump_here to_right c))) (\<lambda>c.
      Inr (patch_jump_here to_end c)))"

definition compile_nullish_coalescing ::
  "ecompiler \<Rightarrow> position \<Rightarrow> expr \<Rightarrow> chunk \<Rightarrow> cerr + chunk" where
  "compile_nullish_coalescing ce pos right c =
     (case emit_nullish_jump_checks pos c of (nullish_jumps, c) \<Rightarrow>
      case emit_jump_placeholder OpJump pos c of (to_end, c) \<Rightarrow>
      let nullish_ip = here c
      in bind_res (ce right (write_op OpPop pos (patch_all nullish_jumps nullish_ip c))) (\<lambda>c.
         Inr (patch_jump_here to_end c)))"

section \<open>Assignment\<close>

definition binary_opcodes :: "(string \<times> opcode) list" where
  "binary_opcodes =
     [(''+'', OpAdd), (''-'', OpSub), (''*'', OpMul), (''/'', OpDiv), (''%'', OpMod),
      (''**'', OpPow), (''&'', OpBitAnd), (''|'', OpBitOr), (''^'', OpBitXor), (''<<'', OpShl),
      (''>>'', OpShr), (''>>>'', OpUShr), (''==='', OpEq), (''!=='', OpNeq), (''<'', OpLt),
      (''<='', OpLe), (''>'', OpGt), (''>='', OpGe), (''instanceof'', OpInstanceOf),
      (''in'', OpIn)]"

definition binary_opcode :: "string \<Rightarrow> opcode option" where
  "binary_opcode op = map_of binary_opcodes op"

text \<open>
  \<^verbatim>\<open>compound_assignment_opcode\<close>: the slice \<^verbatim>\<open>&a.op[..a.op.len() - 1]\<close> panics on an empty
  operator and off a character boundary.
\<close>

definition compound_assignment_opcode :: "position \<Rightarrow> string \<Rightarrow> cerr + opcode" where
  "compound_assignment_opcode pos op =
     (if op = [] then Inl CPanic
      else case str_slice op 0 (length op - 1) of
             None \<Rightarrow> Inl CPanic
           | Some bin_op \<Rightarrow>
               (case binary_opcode bin_op of
                  Some opc \<Rightarrow> Inr opc
                | None \<Rightarrow> Inl (unsupported pos (''compound assignment `'' @ op @ ''`''))))"

definition compile_name_assign ::
  "ecompiler \<Rightarrow> position \<Rightarrow> string \<Rightarrow> string \<Rightarrow> expr \<Rightarrow> chunk \<Rightarrow> cerr + chunk" where
  "compile_name_assign ce pos op name right c =
     (if op = ''='' then
        bind_res (ce right c) (\<lambda>c.
        Inr (emit_string_operand OpAssignName name pos (write_op OpDup pos c)))
      else
        bind_res (ce right (emit_string_operand OpLoadName name pos c)) (\<lambda>c.
        bind_res (compound_assignment_opcode pos op) (\<lambda>opc.
        Inr (emit_string_operand OpAssignName name pos
               (write_op OpDup pos (write_op opc pos c))))))"

definition compile_assign_rhs ::
  "ecompiler \<Rightarrow> position \<Rightarrow> string \<Rightarrow> expr \<Rightarrow> chunk \<Rightarrow> cerr + chunk" where
  "compile_assign_rhs ce pos op right c =
     (if op \<noteq> ''='' then
        Inl (unsupported pos (''compound assignment `'' @ op @ ''` to member/index target''))
      else ce right c)"

definition compile_member_assign ::
  "host \<Rightarrow> ecompiler \<Rightarrow> position \<Rightarrow> string \<Rightarrow> expr \<Rightarrow> position \<Rightarrow> expr \<Rightarrow> expr \<Rightarrow> bool \<Rightarrow> chunk
   \<Rightarrow> cerr + chunk" where
  "compile_member_assign h ce pos op right m_pos ob prop computed c =
     bind_res (ce ob c) (\<lambda>c.
       if computed then
         bind_res (ce prop c) (\<lambda>c.
         bind_res (compile_assign_rhs ce pos op right c) (\<lambda>c.
         Inr (write_op OpSetIndex pos c)))
       else
         bind_res (compile_assign_rhs ce pos op right c) (\<lambda>c.
         let name = object_property_key_expr (h_fmt h) prop
         in if name = [] then Inl (unsupported m_pos ''member property key'')
            else Inr (emit_string_operand OpSetProperty name pos c)))"

definition compile_index_assign ::
  "ecompiler \<Rightarrow> position \<Rightarrow> string \<Rightarrow> expr \<Rightarrow> expr \<Rightarrow> expr \<Rightarrow> chunk \<Rightarrow> cerr + chunk" where
  "compile_index_assign ce pos op right left index c =
     bind_res (ce left c) (\<lambda>c.
     bind_res (ce index c) (\<lambda>c.
     bind_res (compile_assign_rhs ce pos op right c) (\<lambda>c.
     Inr (write_op OpSetIndex pos c))))"

definition compile_assign ::
  "host \<Rightarrow> ecompiler \<Rightarrow> position \<Rightarrow> string \<Rightarrow> expr \<Rightarrow> expr \<Rightarrow> chunk \<Rightarrow> cerr + chunk" where
  "compile_assign h ce pos op target right c =
     (case target of
        EIdent _ name \<Rightarrow> compile_name_assign ce pos op name right c
      | EMember m_pos ob prop computed \<Rightarrow>
          compile_member_assign h ce pos op right m_pos ob prop computed c
      | EIndex _ left index \<Rightarrow> compile_index_assign ce pos op right left index c
      | _ \<Rightarrow> Inl (unsupported pos ''assignment target''))"

text \<open>\<^verbatim>\<open>compile_update_operator\<close>: \<^verbatim>\<open>++\<close> and \<^verbatim>\<open>--\<close>.\<close>

definition compile_update_operator ::
  "host \<Rightarrow> ecompiler \<Rightarrow> expr \<Rightarrow> bool \<Rightarrow> opcode \<Rightarrow> position \<Rightarrow> chunk \<Rightarrow> cerr + chunk" where
  "compile_update_operator h ce target is_prefix delta_op pos c =
     (case target of
        EIdent _ name \<Rightarrow>
          let c = emit_string_operand OpLoadName name pos c;
              c = (if is_prefix then c else write_op OpDup pos c);
              c = emit_value_constant (ONumber f64_one) pos c;
              c = emit_string_operand OpAssignName name pos (write_op delta_op pos c)
          in Inr (if is_prefix then c else write_op OpPop pos c)
      | EMember m_pos ob prop computed \<Rightarrow>
          if \<not> is_prefix then
            Inl (unsupported pos ''postfix ++/-- on member/index (use prefix or an ident)'')
          else if computed then
            Inl (unsupported pos ''++/-- on computed member (assign to a temp first)'')
          else
            bind_res (ce ob c) (\<lambda>c.
            let c = write_op OpDup pos c;
                name = object_property_key_expr (h_fmt h) prop
            in if name = [] then Inl (unsupported m_pos ''member property key'')
               else
                 let c = emit_string_operand OpGetProperty name pos c;
                     c = emit_value_constant (ONumber f64_one) pos c
                 in Inr (emit_string_operand OpSetProperty name pos (write_op delta_op pos c)))
      | EIndex _ _ _ \<Rightarrow>
          Inl (unsupported pos ''++/-- on index target (assign to a temp first)'')
      | _ \<Rightarrow> Inl (unsupported pos ''update operator target''))"

section \<open>Operators\<close>

definition prefix_opcodes :: "(string \<times> opcode) list" where
  "prefix_opcodes =
     [(''!'', OpNot), (''-'', OpNeg), (''~'', OpBitNot), (''typeof'', OpTypeOf),
      (''+'', OpIdentity)]"

definition compile_prefix_expr ::
  "host \<Rightarrow> ecompiler \<Rightarrow> position \<Rightarrow> string \<Rightarrow> expr \<Rightarrow> chunk \<Rightarrow> cerr + chunk" where
  "compile_prefix_expr h ce pos op right c =
     (if op = ''++'' then compile_update_operator h ce right True OpAdd pos c
      else if op = ''--'' then compile_update_operator h ce right True OpSub pos c
      else if op = ''delete'' then
        bind_res (ce right c) (\<lambda>c.
        Inr (emit_value_constant (OBoolean True) pos (write_op OpPop pos c)))
      else
        bind_res (ce right c) (\<lambda>c.
          case map_of prefix_opcodes op of
            Some opc \<Rightarrow> Inr (write_op opc pos c)
          | None \<Rightarrow>
              if op = ''void'' then Inr (emit_value_constant OUndefined pos (write_op OpPop pos c))
              else Inl (unsupported pos (''prefix operator `'' @ op @ ''`''))))"

definition compile_infix_expr ::
  "host \<Rightarrow> ecompiler \<Rightarrow> position \<Rightarrow> string \<Rightarrow> expr \<Rightarrow> expr option \<Rightarrow> chunk \<Rightarrow> cerr + chunk" where
  "compile_infix_expr h ce pos op left right c =
     (case right of
        None \<Rightarrow>
          if op = ''++'' \<or> op = ''--'' then
            compile_update_operator h ce left False (if op = ''++'' then OpAdd else OpSub) pos c
          else Inl (unsupported pos ''postfix update operator (++/--)'')
      | Some right \<Rightarrow>
          if op = ''&&'' then bind_res (ce left c) (compile_and ce pos right)
          else if op = ''||'' then bind_res (ce left c) (compile_or ce pos right)
          else if op = ''??'' then bind_res (ce left c) (compile_nullish_coalescing ce pos right)
          else
            bind_res (ce left c) (\<lambda>c.
            bind_res (ce right c) (\<lambda>c.
            case binary_opcode op of
              Some opc \<Rightarrow> Inr (write_op opc pos c)
            | None \<Rightarrow> Inl (unsupported pos (''infix operator `'' @ op @ ''`'')))))"

section \<open>Match patterns\<close>

fun pattern_pos :: "expr pattern \<Rightarrow> position" where
  "pattern_pos (PLiteral p _) = p"
| "pattern_pos (PIdent p _) = p"
| "pattern_pos (PWildcard p) = p"
| "pattern_pos (POr p _) = p"
| "pattern_pos (PRange p _ _ _) = p"

text \<open>
  \<^verbatim>\<open>compile_pattern_test\<close>: the value to test is on the stack and is replaced by a boolean.
\<close>

function (sequential) compile_pattern_test ::
  "ecompiler \<Rightarrow> expr pattern \<Rightarrow> chunk \<Rightarrow> cerr + chunk" where
  "compile_pattern_test ce (PLiteral pos val) c =
     bind_res (ce val c) (\<lambda>c. Inr (write_op OpEq pos c))"
| "compile_pattern_test ce (PIdent pos name) c =
     (case add_constant (OBoolean True) (write_op OpPop pos c) of
        (idx, c) \<Rightarrow> Inr (emit_const idx pos c))"
| "compile_pattern_test ce (PWildcard pos) c =
     (case add_constant (OBoolean True) (write_op OpPop pos c) of
        (idx, c) \<Rightarrow> Inr (emit_const idx pos c))"
| "compile_pattern_test ce (POr pos alternatives) c =
     bind_res
       (fold_res (\<lambda>alt (to_true, c).
            bind_res (compile_pattern_test ce alt (write_op OpDup (pattern_pos alt) c)) (\<lambda>c.
            case emit_jump_placeholder OpJumpIfTrue (pattern_pos alt) c of
              (patch, c) \<Rightarrow> Inr (to_true @ [patch], c)))
          alternatives ([], c))
       (\<lambda>(to_true, c).
     case add_constant (OBoolean False) (write_op OpPop pos c) of (false_idx, c) \<Rightarrow>
     case emit_jump_placeholder OpJump pos (emit_const false_idx pos c) of (to_end, c) \<Rightarrow>
     let c = fold patch_jump_here to_true c
     in case add_constant (OBoolean True) (write_op OpPop pos c) of (true_idx, c) \<Rightarrow>
        Inr (patch_jump_here to_end (emit_const true_idx pos c)))"
| "compile_pattern_test ce (PRange pos start stop inclusive) c =
     bind_res (ce start (write_op OpDup pos c)) (\<lambda>c.
     case emit_jump_placeholder OpJumpIfFalse pos (write_op OpGe pos c) of (to_false, c) \<Rightarrow>
     bind_res (ce stop c) (\<lambda>c.
     case emit_jump_placeholder OpJump pos
            (write_op (if inclusive then OpLe else OpLt) pos c) of (to_end, c) \<Rightarrow>
     case add_constant (OBoolean False) (write_op OpPop pos (patch_jump_here to_false c)) of
       (false_idx, c) \<Rightarrow> Inr (patch_jump_here to_end (emit_const false_idx pos c))))"
  by pat_completeness auto
termination
  by (relation "measure (\<lambda>(ce, p, c). size p)") (auto simp: less_Suc_eq_le size_list_estimation')

section \<open>The helpers append well-formed code\<close>

lemma binary_opcode_width: "binary_opcode op = Some opc \<Longrightarrow> plain opc"
  unfolding binary_opcode_def by (drule map_of_SomeD) (auto simp: binary_opcodes_def)

lemma compound_opcode_width: "compound_assignment_opcode pos op = Inr opc \<Longrightarrow> plain opc"
  by (auto simp: compound_assignment_opcode_def binary_opcode_width split: if_splits option.splits)

lemma prefix_opcode_width: "map_of prefix_opcodes op = Some opc \<Longrightarrow> plain opc"
  by (drule map_of_SomeD) (auto simp: prefix_opcodes_def)

lemma emit_nullish_jump_checks_wp:
  assumes "emit_nullish_jump_checks pos c = (js, c')" "flow F (A - set js) B c0 c"
  shows "flow F A B c0 c'"
proof -
  obtain i c1 where 1: "add_constant ONull (write_op OpDup pos c) = (i, c1)" by force
  obtain j1 c2 where
    2: "emit_jump_placeholder OpJumpIfTrue pos (write_op OpEq pos (emit_const i pos c1)) = (j1, c2)"
    by force
  obtain k c3 where 3: "add_constant OUndefined (write_op OpDup pos c2) = (k, c3)" by force
  obtain j2 c4 where
    4: "emit_jump_placeholder OpJumpIfTrue pos (write_op OpEq pos (emit_const k pos c3)) = (j2, c4)"
    by force
  from assms(1) have js: "js = [j1, j2]" and c': "c' = c4"
    by (simp_all add: emit_nullish_jump_checks_def 1 2 3 4)
  have "flow F (A - {j2} - {j1}) B c0 c"
    using assms(2) Diff_insert [of A j1 "{j2}"] by (simp add: js)
  with 1 2 3 4 show ?thesis unfolding c' by (auto intro!: wp_writes elim!: wp_jump wp_const)
qed

lemma compile_string_literal_flow: "compile_string_literal pos l c = Inr c' \<Longrightarrow> flow {} {} {} c c'"
  by (auto simp: compile_string_literal_def intro!: wp_writes elim!: wp_const
      split: option.splits if_splits)

lemma compile_regexp_literal_flow: "compile_regexp_literal h pos l c = Inr c' \<Longrightarrow> flow {} {} {} c c'"
  by (auto simp: compile_regexp_literal_def Let_def intro!: wp_writes elim!: wp_const
      split: option.splits if_splits)

lemma compile_template_static_flow: "compile_template_static pos l c = Inr c' \<Longrightarrow> flow {} {} {} c c'"
  by (auto simp: compile_template_static_def intro!: wp_writes elim!: wp_const split: option.splits)

lemma compile_dynamic_import_flow: "compile_dynamic_import pos e c = Inr c' \<Longrightarrow> flow {} {} {} c c'"
  by (auto simp: compile_dynamic_import_def intro!: wp_writes split: expr.splits)

lemma compile_this_expr_flow: "compile_this_expr pos c = Inr c' \<Longrightarrow> flow {} {} {} c c'"
  by (auto simp: compile_this_expr_def intro!: wp_writes)

lemma compile_super_expr_flow: "compile_super_expr pos m c = Inr c' \<Longrightarrow> flow {} {} {} c c'"
  by (auto simp: compile_super_expr_def intro!: wp_writes elim!: wp_const split: if_splits)

lemma compile_class_decl_flow: "compile_class_decl d c = Inr c' \<Longrightarrow> flow {} {} {} c c'"
  by (auto simp: compile_class_decl_def intro!: wp_writes)

lemma compile_class_expr_flow: "compile_class_expr d c = Inr c' \<Longrightarrow> flow {} {} {} c c'"
  by (auto simp: compile_class_expr_def intro!: wp_writes)

text \<open>The contract between the helpers and the expression compiler they are given.\<close>

locale expr_compiler =
  fixes ce :: ecompiler
  assumes ce_flow: "ce e c = Inr c' \<Longrightarrow> flow {} {} {} c c'"
begin

lemma wp_ce: "ce e c = Inr c' \<Longrightarrow> flow F A B c0 c \<Longrightarrow> flow F A B c0 c'"
  using ce_flow by (rule wp_step)

lemma wp_args: "fold_res ce es c = Inr c' \<Longrightarrow> flow F A B c0 c \<Longrightarrow> flow F A B c0 c'"
  by (erule wp_fold [OF _ ce_flow])

lemma wp_segment:
  "finish_template_segment n pos c = (m, c') \<Longrightarrow> flow F A B c0 c \<Longrightarrow> flow F A B c0 c'"
  by (auto simp: finish_template_segment_def intro!: wp_writes)

lemma template_segments_flow:
  "compile_template_segments h ce pos s n c = Inr (m, c') \<Longrightarrow> flow {} {} {} c c'"
proof (induction "length s" arbitrary: s n c rule: less_induct)
  case less
  show ?case
  proof (cases s)
    case Nil
    with less.prems show ?thesis by (simp add: wp_start)
  next
    case (Cons b bs)
    have step: ?thesis
      if "compile_template_segments h ce pos r k d = Inr (m, c')" "length r < length s" "flow {} {} {} c d"
      for r k d
      using less.hyps [OF that(2,1)] that(3) by (rule wp_step)
    show ?thesis
    proof (cases "starts_with s [CHR 0x24, CHR 0x7B]")
      case True
      from less.prems [unfolded Cons] True [unfolded Cons] obtain k where
        "find_template_expr_end (drop 1 bs) = Some k"
        "compile_template_segments h ce pos (drop (k + 2) bs) n c = Inr (m, c') \<or>
         (\<exists>e d i d'. ce e c = Inr d \<and>
           finish_template_segment n pos (write_op OpToString pos d) = (i, d') \<and>
           compile_template_segments h ce pos (drop (k + 2) bs) i d' = Inr (m, c'))"
        by (auto simp: Let_def split: option.splits if_splits)
      then show ?thesis
        by (auto simp: Cons wp_start intro!: wp_writes elim!: step wp_segment wp_ce)
    next
      case False
      obtain tx rest where tt: "template_text s = (tx, rest)" by force
      have "length rest < length s"
        using template_text_consumes [OF tt [unfolded Cons] False [unfolded Cons]] Cons by simp
      moreover from less.prems [unfolded Cons] False [unfolded Cons] tt [unfolded Cons] obtain v i d
        where "finish_template_segment n pos (emit_template_string_const v pos c) = (i, d)"
          "compile_template_segments h ce pos rest i d = Inr (m, c')"
        by (auto simp del: template_text.simps split: option.splits)
      ultimately show ?thesis
        by (auto simp: emit_template_string_const_def intro!: wp_writes wp_value_constant
            elim!: step wp_segment)
    qed
  qed
qed

lemma compile_template_literal_flow:
  "compile_template_literal h ce pos l c = Inr c' \<Longrightarrow> flow {} {} {} c c'"
  by (auto simp: compile_template_literal_def compile_template_interpolated_def
      emit_template_string_const_def intro!: wp_writes wp_value_constant
      dest: compile_template_static_flow template_segments_flow split: if_splits)

lemma compile_literal_expr_flow:
  "compile_literal_expr h ce e c = Some (Inr c') \<Longrightarrow> flow {} {} {} c c'"
  by (cases e) (auto intro!: wp_writes dest: compile_string_literal_flow compile_regexp_literal_flow
      compile_template_literal_flow)

lemma compile_await_expr_flow: "compile_await_expr ce pos e c = Inr c' \<Longrightarrow> flow {} {} {} c c'"
  by (auto simp: compile_await_expr_def intro!: wp_writes elim!: wp_ce)

lemma compile_member_read_flow:
  "compile_member_read h ce pos ob prop cmp c = Inr c' \<Longrightarrow> flow {} {} {} c c'"
  by (auto simp: compile_member_read_def Let_def intro!: wp_writes elim!: wp_ce split: if_splits)

lemma compile_index_read_flow: "compile_index_read ce pos l i c = Inr c' \<Longrightarrow> flow {} {} {} c c'"
  by (auto simp: compile_index_read_def intro!: wp_writes elim!: wp_ce)

lemma compile_spread_element_flow: "compile_spread_element ce e c = Inr c' \<Longrightarrow> flow {} {} {} c c'"
  by (auto simp: compile_spread_element_def intro!: wp_writes elim!: wp_ce split: expr.splits)

lemma wp_spread_elements:
  "fold_res (compile_spread_element ce) es c = Inr c' \<Longrightarrow> flow F A B c0 c \<Longrightarrow> flow F A B c0 c'"
  by (erule wp_fold [OF _ compile_spread_element_flow])

lemma compile_call_args_flow: "compile_call_args ce args r pos c = Inr c' \<Longrightarrow> flow {} {} {} c c'"
  by (auto simp: compile_call_args_def intro!: wp_writes elim!: wp_spread_elements wp_args
      split: if_splits)

lemma compile_super_call_flow:
  "compile_super_constructor_call ce pos args c = Inr c' \<Longrightarrow> flow {} {} {} c c'"
  by (auto simp: compile_super_constructor_call_def intro!: wp_writes elim!: wp_args)

lemma compile_new_expr_flow: "compile_new_expr ce pos callee args c = Inr c' \<Longrightarrow> flow {} {} {} c c'"
  by (auto simp: compile_new_expr_def intro!: wp_writes elim!: wp_ce wp_args)

lemma compile_call_callee_flow:
  "compile_call_callee h ce callee c = Inr (r, c') \<Longrightarrow> flow {} {} {} c c'"
  by (auto simp: compile_call_callee_def Let_def intro!: wp_writes elim!: wp_ce
      split: expr.splits if_splits)

lemma compile_call_flow: "compile_call h ce pos callee args c = Inr c' \<Longrightarrow> flow {} {} {} c c'"
  by (auto simp: compile_call_def dest: compile_super_call_flow compile_call_callee_flow
      elim!: wp_step [OF compile_call_args_flow] split: if_splits)

lemma compile_array_lit_flow: "compile_array_lit ce pos es c = Inr c' \<Longrightarrow> flow {} {} {} c c'"
  by (auto simp: compile_array_lit_def intro!: wp_writes elim!: wp_spread_elements wp_args
      split: if_splits)

lemma compile_object_prop_flow: "compile_object_prop h ce p c = Inr c' \<Longrightarrow> flow {} {} {} c c'"
  by (auto simp: compile_object_prop_def Let_def intro!: wp_writes elim!: wp_ce split: if_splits)

lemma compile_object_lit_flow: "compile_object_lit h ce pos ps c = Inr c' \<Longrightarrow> flow {} {} {} c c'"
  unfolding compile_object_lit_def
  by (erule wp_fold [OF _ compile_object_prop_flow]) (auto intro!: wp_writes)

lemma compile_ternary_flow: "compile_ternary ce pos q a b c = Inr c' \<Longrightarrow> flow {} {} {} c c'"
  by (auto simp: compile_ternary_def intro!: wp_writes elim!: wp_ce wp_jump)

lemma compile_optional_flow:
  "compile_optional h ce pos ob prop cmp call args c = Inr c' \<Longrightarrow> flow {} {} {} c c'"
  by (auto simp: compile_optional_def Let_def intro!: wp_writes
      elim!: wp_ce wp_jump wp_const emit_nullish_jump_checks_wp wp_step [OF compile_call_args_flow]
      split: if_splits)

lemma compile_and_flow: "compile_and ce pos r c = Inr c' \<Longrightarrow> flow {} {} {} c c'"
  by (auto simp: compile_and_def intro!: wp_writes elim!: wp_ce wp_jump)

lemma compile_or_flow: "compile_or ce pos r c = Inr c' \<Longrightarrow> flow {} {} {} c c'"
  by (auto simp: compile_or_def intro!: wp_writes elim!: wp_ce wp_jump)

lemma compile_nullish_flow: "compile_nullish_coalescing ce pos r c = Inr c' \<Longrightarrow> flow {} {} {} c c'"
  by (auto simp: compile_nullish_coalescing_def Let_def intro!: wp_writes
      elim!: wp_ce wp_jump emit_nullish_jump_checks_wp)

lemma compile_name_assign_flow: "compile_name_assign ce pos op n r c = Inr c' \<Longrightarrow> flow {} {} {} c c'"
  by (auto simp: compile_name_assign_def compound_opcode_width intro!: wp_writes elim!: wp_ce
      split: if_splits)

lemma wp_assign_rhs:
  "compile_assign_rhs ce pos op r c = Inr c' \<Longrightarrow> flow F A B c0 c \<Longrightarrow> flow F A B c0 c'"
  by (auto simp: compile_assign_rhs_def elim!: wp_ce split: if_splits)

lemma compile_assign_flow: "compile_assign h ce pos op t r c = Inr c' \<Longrightarrow> flow {} {} {} c c'"
  by (auto simp: compile_assign_def compile_member_assign_def compile_index_assign_def Let_def
      intro!: wp_writes elim!: wp_ce wp_assign_rhs dest: compile_name_assign_flow
      split: expr.splits if_splits)

lemma compile_update_flow:
  "compile_update_operator h ce t pre op pos c = Inr c' \<Longrightarrow> plain op \<Longrightarrow>
     flow {} {} {} c c'"
  by (auto simp: compile_update_operator_def Let_def intro!: wp_writes elim!: wp_ce
      split: expr.splits if_splits)

lemma compile_prefix_flow: "compile_prefix_expr h ce pos op r c = Inr c' \<Longrightarrow> flow {} {} {} c c'"
  by (auto simp: compile_prefix_expr_def prefix_opcode_width intro!: wp_writes elim!: wp_ce
      dest: compile_update_flow split: option.splits if_splits)

lemma compile_infix_flow: "compile_infix_expr h ce pos op l r c = Inr c' \<Longrightarrow> flow {} {} {} c c'"
  by (auto simp: compile_infix_expr_def binary_opcode_width intro!: wp_writes
      elim!: wp_ce wp_step [OF compile_and_flow] wp_step [OF compile_or_flow]
        wp_step [OF compile_nullish_flow]
      dest: compile_update_flow split: option.splits if_splits)

end

end
