(* ===== verification/Compile_Stmt.thy ===== *)
theory Compile_Stmt
  imports Compile_Expr Resolve "HOL-Library.Char_ord" "HOL-Library.List_Lexorder"
begin

text \<open>
  The statement helpers of the bytecode compiler
  (\<^verbatim>\<open>crates/night24-gts/src/bytecode/compiler_{abrupt,control,iterators,modules,try,
  declarations,destructuring,functions,function_proto,match}.rs\<close>). The mutable arguments of a
  helper (the chunk, the stack of loops, the stack of active finalizers) are one record; both
  stacks are vectors with the innermost frame last. A helper takes the compilers of
  expressions \<open>ce\<close> and of statements \<open>cs\<close>.

  The locale \<open>compiler\<close> states the contract of both: the code they append is well formed, and
  every pending jump they record in a loop or finalizer frame is a jump of the chunk.
\<close>

section \<open>State\<close>

record loop_frame =
  lf_id :: nat
  lf_label :: "string option"
  lf_finalizer_depth :: nat
  lf_breaks :: "u32 list"
  lf_continues :: "u32 list"

datatype abrupt_action =
  AbReturn string
| AbBreak nat nat
| AbContinue nat nat

record pending_exit =
  pe_patch :: u32
  pe_pos :: position
  pe_action :: abrupt_action

record finally_frame =
  ff_finalizer :: gblock
  ff_exits :: "pending_exit list"

record cstate =
  cs_chunk :: chunk
  cs_loops :: "loop_frame list"
  cs_finals :: "finally_frame list"

type_synonym scompiler = "stmt \<Rightarrow> bool \<Rightarrow> cstate \<Rightarrow> cerr + cstate"

text \<open>Running a chunk operation on the state.\<close>

definition emit :: "(chunk \<Rightarrow> chunk) \<Rightarrow> cstate \<Rightarrow> cstate" where
  "emit f s = s\<lparr>cs_chunk := f (cs_chunk s)\<rparr>"

definition on_chunk :: "(chunk \<Rightarrow> cerr + chunk) \<Rightarrow> cstate \<Rightarrow> cerr + cstate" where
  "on_chunk f s = bind_res (f (cs_chunk s)) (\<lambda>c. Inr (s\<lparr>cs_chunk := c\<rparr>))"

definition emit_jump :: "opcode \<Rightarrow> position \<Rightarrow> cstate \<Rightarrow> u32 \<times> cstate" where
  "emit_jump op pos s =
     (case emit_jump_placeholder op pos (cs_chunk s) of (p, c) \<Rightarrow> (p, s\<lparr>cs_chunk := c\<rparr>))"

text \<open>\<^verbatim>\<open>for s in &block.statements { compile_stmt(s, ..., false)?; }\<close>.\<close>

definition compile_stmts :: "scompiler \<Rightarrow> stmt list \<Rightarrow> cstate \<Rightarrow> cerr + cstate" where
  "compile_stmts cs ss = fold_res (\<lambda>st. cs st False) ss"

text \<open>Statements of which the last keeps its value (\<^verbatim>\<open>i + 1 == n\<close>).\<close>

fun compile_body :: "scompiler \<Rightarrow> stmt list \<Rightarrow> cstate \<Rightarrow> cerr + cstate" where
  "compile_body cs [] s = Inr s"
| "compile_body cs (st # sts) s = bind_res (cs st (sts = []) s) (compile_body cs sts)"

definition numbered :: "string \<Rightarrow> position \<Rightarrow> string" where
  "numbered prefix pos = prefix @ show_nat (pos_line pos) @ ''_'' @ show_nat (pos_col pos)"

section \<open>Abrupt completion\<close>

fun action_depth :: "abrupt_action \<Rightarrow> nat" where
  "action_depth (AbReturn _) = 0"
| "action_depth (AbBreak _ d) = d"
| "action_depth (AbContinue _ d) = d"

definition record_exit :: "pending_exit \<Rightarrow> cstate \<Rightarrow> cstate" where
  "record_exit e s =
     s\<lparr>cs_finals := butlast (cs_finals s)
        @ [(last (cs_finals s))\<lparr>ff_exits := ff_exits (last (cs_finals s)) @ [e]\<rparr>]\<rparr>"

text \<open>
  \<^verbatim>\<open>emit_abrupt_action\<close>: run the innermost finalizer first when one is active above the
  target's depth, else perform the action.
\<close>

definition emit_abrupt_action :: "abrupt_action \<Rightarrow> position \<Rightarrow> cstate \<Rightarrow> cerr + cstate" where
  "emit_abrupt_action action pos s =
     (if action_depth action < length (cs_finals s) then
        (case emit_jump OpJump pos s of
           (patch, s) \<Rightarrow>
             Inr (record_exit \<lparr>pe_patch = patch, pe_pos = pos, pe_action = action\<rparr> s))
      else
        (case action of
           AbReturn temp_name \<Rightarrow>
             Inr (emit (\<lambda>c. write_op OpReturn pos (emit_load_name temp_name pos c)) s)
         | AbBreak loop_id _ \<Rightarrow>
             (case emit_jump OpJump pos s of
                (patch, s) \<Rightarrow>
                  (case update_last_match (\<lambda>f. lf_id f = loop_id)
                          (\<lambda>f. f\<lparr>lf_breaks := lf_breaks f @ [patch]\<rparr>) (cs_loops s) of
                     Some loops \<Rightarrow> Inr (s\<lparr>cs_loops := loops\<rparr>)
                   | None \<Rightarrow> Inl (unsupported pos ''loop control target'')))
         | AbContinue loop_id _ \<Rightarrow>
             (case emit_jump OpJump pos s of
                (patch, s) \<Rightarrow>
                  (case update_last_match (\<lambda>f. lf_id f = loop_id)
                          (\<lambda>f. f\<lparr>lf_continues := lf_continues f @ [patch]\<rparr>) (cs_loops s) of
                     Some loops \<Rightarrow> Inr (s\<lparr>cs_loops := loops\<rparr>)
                   | None \<Rightarrow> Inl (unsupported pos ''loop control target'')))))"

definition compile_return_stmt ::
  "ecompiler \<Rightarrow> position \<Rightarrow> expr option \<Rightarrow> cstate \<Rightarrow> cerr + cstate" where
  "compile_return_stmt ce pos val s =
     bind_res
       (case val of
          Some v \<Rightarrow> on_chunk (ce v) s
        | None \<Rightarrow>
            Inr (emit (\<lambda>c. case add_constant OUndefined c of (idx, c) \<Rightarrow> emit_const idx pos c) s))
       (\<lambda>s. if cs_finals s = [] then Inr (emit (write_op OpReturn pos) s)
            else
              let temp_name = numbered ''__gts_bc_return_'' pos
              in emit_abrupt_action (AbReturn temp_name) pos
                   (emit (emit_string_operand OpStoreName temp_name pos) s))"

definition compile_break_continue ::
  "bool \<Rightarrow> string \<Rightarrow> position \<Rightarrow> cstate \<Rightarrow> cerr + cstate" where
  "compile_break_continue is_break label pos s =
     (case find_last (\<lambda>f. label = [] \<or> lf_label f = Some label) (cs_loops s) of
        None \<Rightarrow>
          Inl (unsupported pos
            (if label = [] then (if is_break then ''break outside loop''
                                 else ''continue outside loop'')
             else if is_break then ''labeled break target'' else ''labeled continue target''))
      | Some target \<Rightarrow>
          emit_abrupt_action
            (if is_break then AbBreak (lf_id target) (lf_finalizer_depth target)
             else AbContinue (lf_id target) (lf_finalizer_depth target)) pos s)"

definition emit_pending_finally_exits ::
  "scompiler \<Rightarrow> finally_frame \<Rightarrow> cstate \<Rightarrow> cerr + cstate" where
  "emit_pending_finally_exits cs frame =
     fold_res (\<lambda>pending s.
       bind_res (compile_stmts cs (block_statements (ff_finalizer frame))
                   (emit (patch_jump_here (pe_patch pending)) s))
         (emit_abrupt_action (pe_action pending) (pe_pos pending))) (ff_exits frame)"

section \<open>Conditionals and loops\<close>

definition compile_if ::
  "ecompiler \<Rightarrow> scompiler \<Rightarrow> position \<Rightarrow> expr \<Rightarrow> gblock \<Rightarrow> stmt option \<Rightarrow> cstate \<Rightarrow> cerr + cstate" where
  "compile_if ce cs pos cnd consequence alternative s =
     bind_res (on_chunk (ce cnd) s) (\<lambda>s.
     case emit_jump OpJumpIfFalse pos s of (to_else, s) \<Rightarrow>
     bind_res (compile_stmts cs (block_statements consequence) s) (\<lambda>s.
     case alternative of
       Some alt \<Rightarrow>
         (case emit_jump OpJump pos s of (to_end, s) \<Rightarrow>
          bind_res (cs alt False (emit (patch_jump_here to_else) s)) (\<lambda>s.
          Inr (emit (patch_jump_here to_end) s)))
     | None \<Rightarrow> Inr (emit (patch_jump_here to_else) s)))"

definition push_loop :: "string option \<Rightarrow> cstate \<Rightarrow> cstate" where
  "push_loop label s =
     s\<lparr>cs_loops := cs_loops s
        @ [\<lparr>lf_id = length (cs_loops s), lf_label = label,
            lf_finalizer_depth = length (cs_finals s), lf_breaks = [], lf_continues = []\<rparr>]\<rparr>"

definition pop_loop :: "cstate \<Rightarrow> cerr + (loop_frame \<times> cstate)" where
  "pop_loop s =
     (if cs_loops s = [] then Inl CPanic
      else Inr (last (cs_loops s), s\<lparr>cs_loops := butlast (cs_loops s)\<rparr>))"

definition compile_while ::
  "ecompiler \<Rightarrow> scompiler \<Rightarrow> position \<Rightarrow> expr \<Rightarrow> gblock \<Rightarrow> string option \<Rightarrow> cstate \<Rightarrow> cerr + cstate" where
  "compile_while ce cs pos cnd body label s =
     (let start = here (cs_chunk s)
      in bind_res (on_chunk (ce cnd) s) (\<lambda>s.
         case emit_jump OpJumpIfFalse pos s of (to_end, s) \<Rightarrow>
         bind_res (compile_stmts cs (block_statements body) (push_loop label s)) (\<lambda>s.
         bind_res (pop_loop s) (\<lambda>(frame, s).
         Inr (emit (\<lambda>c.
           let c = write_u32 start (write_op OpLoop pos c);
               stop = here c;
               c = patch_jump_here to_end c;
               c = patch_all (lf_breaks frame) stop c
           in patch_all (lf_continues frame) start c) s)))))"

definition compile_for ::
  "ecompiler \<Rightarrow> scompiler \<Rightarrow> position \<Rightarrow> stmt option \<Rightarrow> expr option \<Rightarrow> expr option \<Rightarrow> gblock
   \<Rightarrow> string option \<Rightarrow> cstate \<Rightarrow> cerr + cstate" where
  "compile_for ce cs pos init cnd post body label s =
     bind_res (case init of Some i \<Rightarrow> cs i False s | None \<Rightarrow> Inr s) (\<lambda>s.
     let start = here (cs_chunk s)
     in bind_res
          (case cnd of
             Some e \<Rightarrow>
               bind_res (on_chunk (ce e) s) (\<lambda>s.
               case emit_jump OpJumpIfFalse pos s of (to_end, s) \<Rightarrow> Inr ([to_end], s))
           | None \<Rightarrow> Inr ([], s)) (\<lambda>(to_end, s).
        bind_res (compile_stmts cs (block_statements body) (push_loop label s)) (\<lambda>s.
        bind_res (pop_loop s) (\<lambda>(frame, s).
        let post_start = here (cs_chunk s)
        in bind_res
             (case post of
                Some e \<Rightarrow> bind_res (on_chunk (ce e) s) (\<lambda>s. Inr (emit (write_op OpPop pos) s))
              | None \<Rightarrow> Inr s) (\<lambda>s.
           Inr (emit (\<lambda>c.
             let c = write_u32 start (write_op OpLoop pos c);
                 stop = here c;
                 c = fold patch_jump_here to_end c;
                 c = patch_all (lf_breaks frame) stop c
             in patch_all (lf_continues frame) post_start c) s))))))"

section \<open>Iteration\<close>

definition compile_for_in ::
  "ecompiler \<Rightarrow> scompiler \<Rightarrow> string \<Rightarrow> expr \<Rightarrow> gblock \<Rightarrow> position \<Rightarrow> string option \<Rightarrow> cstate
   \<Rightarrow> cerr + cstate" where
  "compile_for_in ce cs name iterable body pos label s =
     (let items_name = numbered ''__gts_bc_iter_items_'' pos;
          idx_name = numbered ''__gts_bc_iter_idx_'' pos
      in bind_res (on_chunk (ce iterable) s) (\<lambda>s.
         let s = emit (\<lambda>c.
               let c = emit_string_operand OpStoreName items_name pos (write_op OpIterKeys pos c);
                   c = (case add_constant (ONumber f64_zero) c of (zero, c) \<Rightarrow>
                          emit_const zero pos c)
               in emit_string_operand OpStoreName idx_name pos c) s;
             start = here (cs_chunk s);
             s = emit (\<lambda>c.
               write_op OpLt pos (write_op OpLen pos
                 (emit_load_name items_name pos (emit_load_name idx_name pos c)))) s
         in case emit_jump OpJumpIfFalse pos s of (to_end, s) \<Rightarrow>
         let s = emit (\<lambda>c.
               emit_string_operand OpStoreName name pos (write_op OpGetIndex pos
                 (emit_load_name idx_name pos (emit_load_name items_name pos c)))) s
         in bind_res (compile_stmts cs (block_statements body) (push_loop label s)) (\<lambda>s.
            bind_res (pop_loop s) (\<lambda>(frame, s).
            let increment = here (cs_chunk s)
            in Inr (emit (\<lambda>c.
                 let c = emit_load_name idx_name pos c;
                     c = (case add_constant (ONumber f64_one) c of (one, c) \<Rightarrow>
                            emit_const one pos c);
                     c = write_op OpDup pos (write_op OpAdd pos c);
                     c = write_op OpPop pos (emit_string_operand OpAssignName idx_name pos c);
                     c = write_u32 start (write_op OpLoop pos c);
                     stop = here c;
                     c = patch_jump_here to_end c;
                     c = patch_all (lf_breaks frame) stop c
                 in patch_all (lf_continues frame) increment c) s)))))"

definition compile_for_of ::
  "ecompiler \<Rightarrow> scompiler \<Rightarrow> string \<Rightarrow> expr \<Rightarrow> gblock \<Rightarrow> position \<Rightarrow> string option \<Rightarrow> cstate
   \<Rightarrow> cerr + cstate" where
  "compile_for_of ce cs name iterable body pos label s =
     (let iter_name = numbered ''__gts_bc_iter_'' pos;
          next_name = numbered ''__gts_bc_iter_next_'' pos
      in bind_res (on_chunk (ce iterable) s) (\<lambda>s.
         let s = emit (\<lambda>c.
               emit_string_operand OpStoreName iter_name pos (write_op OpIterValues pos c)) s;
             start = here (cs_chunk s);
             s = emit (\<lambda>c.
               let c = write_op OpIterNext pos (emit_load_name iter_name pos c);
                   c = emit_string_operand OpStoreName next_name pos c
               in emit_string_operand OpGetProperty ''done'' pos
                    (emit_load_name next_name pos c)) s
         in case emit_jump OpJumpIfTrue pos s of (to_end, s) \<Rightarrow>
         let s = emit (\<lambda>c.
               emit_string_operand OpStoreName name pos
                 (emit_string_operand OpGetProperty ''value'' pos
                    (emit_load_name next_name pos c))) s
         in bind_res (compile_stmts cs (block_statements body) (push_loop label s)) (\<lambda>s.
            bind_res (pop_loop s) (\<lambda>(frame, s).
            Inr (emit (\<lambda>c.
              let c = write_u32 start (write_op OpLoop pos c);
                  stop = here c;
                  c = patch_jump_here to_end c;
                  c = patch_all (lf_breaks frame) stop c
              in patch_all (lf_continues frame) start c) s)))))"

definition compile_labeled ::
  "ecompiler \<Rightarrow> scompiler \<Rightarrow> string \<Rightarrow> stmt \<Rightarrow> bool \<Rightarrow> cstate \<Rightarrow> cerr + cstate" where
  "compile_labeled ce cs label st keep_value s =
     (case st of
        SWhile pos cnd body \<Rightarrow> compile_while ce cs pos cnd body (Some label) s
      | SFor pos init cnd post body \<Rightarrow> compile_for ce cs pos init cnd post body (Some label) s
      | SForIn pos name iterable body \<Rightarrow>
          compile_for_in ce cs name iterable body pos (Some label) s
      | SForOf pos name iterable body \<Rightarrow>
          compile_for_of ce cs name iterable body pos (Some label) s
      | SBreak pos target \<Rightarrow> compile_break_continue True target pos s
      | _ \<Rightarrow> cs st keep_value s)"

section \<open>Try\<close>

definition push_region :: "protected_region \<Rightarrow> chunk \<Rightarrow> chunk" where
  "push_region r = map_regions (\<lambda>rs. rs @ [r])"

text \<open>
  The catch clause; it returns the offset of its end, \<open>catch_start\<close> when there is none.
\<close>

definition compile_catch ::
  "scompiler \<Rightarrow> stmt catch_clause option \<Rightarrow> cstate \<Rightarrow> cerr + (u32 \<times> cstate)" where
  "compile_catch cs ctch s =
     (let catch_start = here (cs_chunk s)
      in case ctch of
           None \<Rightarrow> Inr (catch_start, s)
         | Some ct \<Rightarrow>
             let s = emit (if catch_name ct = [] then write_op OpPop (catch_pos ct)
                           else emit_string_operand OpStoreName (catch_name ct) (catch_pos ct)) s
             in bind_res (compile_stmts cs (block_statements (catch_body ct)) s) (\<lambda>s.
                Inr (here (cs_chunk s), s)))"

text \<open>
  The finalizer on the exceptional path: the pending error is stored, the finalizer runs, the
  error is thrown again.
\<close>

definition compile_exceptional_finally ::
  "scompiler \<Rightarrow> position \<Rightarrow> gblock \<Rightarrow> cstate \<Rightarrow> cerr + cstate" where
  "compile_exceptional_finally cs pos finalizer s =
     (let pending_name = numbered ''__gts_bc_pending_error_'' pos
      in bind_res
           (compile_stmts cs (block_statements finalizer)
              (emit (emit_string_operand OpStoreName pending_name pos) s))
           (\<lambda>s. Inr (emit (\<lambda>c. write_op OpThrow pos (emit_load_name pending_name pos c)) s)))"

definition push_final :: "gblock \<Rightarrow> cstate \<Rightarrow> cstate" where
  "push_final f s = s\<lparr>cs_finals := cs_finals s @ [\<lparr>ff_finalizer = f, ff_exits = []\<rparr>]\<rparr>"

definition pop_final :: "cstate \<Rightarrow> cerr + (finally_frame \<times> cstate)" where
  "pop_final s =
     (if cs_finals s = [] then Inl CPanic
      else Inr (last (cs_finals s), s\<lparr>cs_finals := butlast (cs_finals s)\<rparr>))"

text \<open>
  The part of \<^verbatim>\<open>compile_try\<close> that depends on the finalizer, from \<^verbatim>\<open>finalizers.pop()\<close> to the
  patch of \<^verbatim>\<open>to_end\<close>; the result is \<^verbatim>\<open>exceptional_finally_ip\<close>.
\<close>

definition compile_finally ::
  "scompiler \<Rightarrow> position \<Rightarrow> u32 \<Rightarrow> gblock option \<Rightarrow> cstate \<Rightarrow> cerr + (u32 option \<times> cstate)" where
  "compile_finally cs pos to_normal_finally finalizer s =
     (case finalizer of
        None \<Rightarrow> Inr (None, emit (patch_jump_here to_normal_finally) s)
      | Some f \<Rightarrow>
          bind_res (pop_final s) (\<lambda>(frame, s).
          bind_res (compile_stmts cs (block_statements f)
                      (emit (patch_jump_here to_normal_finally) s)) (\<lambda>s.
          case emit_jump OpJump pos s of (to_end, s) \<Rightarrow>
          let exceptional_finally_ip = here (cs_chunk s)
          in bind_res (compile_exceptional_finally cs pos f s) (\<lambda>s.
             bind_res (emit_pending_finally_exits cs frame s) (\<lambda>s.
             Inr (Some exceptional_finally_ip, emit (patch_jump_here to_end) s))))))"

text \<open>The protected regions of the statement, the last step of \<^verbatim>\<open>compile_try\<close>.\<close>

definition push_try_regions ::
  "u32 \<Rightarrow> u32 \<Rightarrow> u32 \<Rightarrow> u32 \<Rightarrow> bool \<Rightarrow> u32 option \<Rightarrow> chunk \<Rightarrow> chunk" where
  "push_try_regions start stop catch_start catch_end has_catch exceptional_finally_ip c =
     (let handler = (if has_catch then catch_start
                     else case exceptional_finally_ip of Some ip \<Rightarrow> ip | None \<Rightarrow> catch_start);
          c = push_region \<lparr>try_start = start, try_end = stop, handler_ip = handler,
                finally_ip = exceptional_finally_ip, catch_binding_slot = None\<rparr> c
      in case exceptional_finally_ip of
           None \<Rightarrow> c
         | Some ip \<Rightarrow>
             if catch_start < catch_end then
               push_region \<lparr>try_start = catch_start, try_end = catch_end, handler_ip = ip,
                 finally_ip = exceptional_finally_ip, catch_binding_slot = None\<rparr> c
             else c)"

definition compile_try ::
  "scompiler \<Rightarrow> position \<Rightarrow> gblock \<Rightarrow> stmt catch_clause option \<Rightarrow> gblock option \<Rightarrow> cstate
   \<Rightarrow> cerr + cstate" where
  "compile_try cs pos block ctch finalizer s =
     (let s = (case finalizer of Some f \<Rightarrow> push_final f s | None \<Rightarrow> s);
          start = here (cs_chunk s)
      in bind_res (compile_stmts cs (block_statements block) s) (\<lambda>s.
         let stop = here (cs_chunk s)
         in case emit_jump OpJump pos s of (to_normal_finally, s) \<Rightarrow>
            let catch_start = here (cs_chunk s)
            in bind_res (compile_catch cs ctch s) (\<lambda>(catch_end, s).
               bind_res (compile_finally cs pos to_normal_finally finalizer s)
                 (\<lambda>(exceptional_finally_ip, s).
               Inr (emit (push_try_regions start stop catch_start catch_end (ctch \<noteq> None)
                            exceptional_finally_ip) s)))))"

section \<open>Modules\<close>

definition compile_import_binding :: "position \<Rightarrow> string \<Rightarrow> string \<Rightarrow> chunk \<Rightarrow> chunk" where
  "compile_import_binding pos exported_name local_name c =
     emit_string_operand OpStoreName local_name pos
       (emit_string_operand OpGetProperty exported_name pos (write_op OpDup pos c))"

text \<open>
  \<^verbatim>\<open>compile_import\<close>; the aliases are a hash map, compiled in the order of their keys.
\<close>

definition compile_import ::
  "position \<Rightarrow> string \<Rightarrow> string \<Rightarrow> string list \<Rightarrow> (string \<times> string) list \<Rightarrow> string \<Rightarrow> chunk \<Rightarrow> chunk" where
  "compile_import pos deflt namespace names aliases src c =
     (let c = emit_string_operand OpImportModule (strip_quotes src) pos c;
          c = (if deflt \<noteq> [] then compile_import_binding pos ''default'' deflt c else c);
          c = (if namespace \<noteq> [] then
                 emit_string_operand OpStoreName namespace pos (write_op OpDup pos c) else c);
          c = fold (\<lambda>name. compile_import_binding pos name name) names c;
          c = fold (\<lambda>(exported, local_name). compile_import_binding pos exported local_name)
                (sort_key fst aliases) c
      in write_op OpPop pos c)"

definition compile_export_stack_value :: "string \<Rightarrow> position \<Rightarrow> chunk \<Rightarrow> chunk" where
  "compile_export_stack_value exported_name pos c =
     emit_string_operand OpExportName exported_name pos c"

definition compile_export_local_name :: "string \<Rightarrow> string \<Rightarrow> position \<Rightarrow> chunk \<Rightarrow> chunk" where
  "compile_export_local_name local_name exported_name pos c =
     compile_export_stack_value exported_name pos (emit_load_name local_name pos c)"

definition compile_reexport_spec :: "position \<Rightarrow> export_spec \<Rightarrow> chunk \<Rightarrow> chunk" where
  "compile_reexport_spec pos spec c =
     compile_export_stack_value (es_alias spec) pos
       (emit_string_operand OpGetProperty (es_name spec) pos (write_op OpDup pos c))"

fun exported_decl_name :: "stmt \<Rightarrow> string option" where
  "exported_decl_name (SFuncDecl _ name _ _ _ _) = Some name"
| "exported_decl_name (SClassDecl d) = Some (cd_name d)"
| "exported_decl_name (SLet _ name _ _ _) = Some name"
| "exported_decl_name (SConst _ name _ _ _) = Some name"
| "exported_decl_name (SVar _ name _ _ _) = Some name"
| "exported_decl_name _ = None"

definition compile_export_decl ::
  "ecompiler \<Rightarrow> scompiler \<Rightarrow> position \<Rightarrow> bool \<Rightarrow> stmt \<Rightarrow> cstate \<Rightarrow> cerr + cstate" where
  "compile_export_decl ce cs pos is_default decl s =
     (if is_default then
        (case decl of
           SExpr _ e \<Rightarrow>
             bind_res (on_chunk (ce e) s) (\<lambda>s.
             Inr (emit (compile_export_stack_value ''default'' pos) s))
         | _ \<Rightarrow> cs decl False s)
      else
        bind_res (cs decl False s) (\<lambda>s.
        Inr (case exported_decl_name decl of
               Some name \<Rightarrow> emit (compile_export_local_name name name pos) s
             | None \<Rightarrow> s)))"

definition compile_export ::
  "ecompiler \<Rightarrow> scompiler \<Rightarrow> position \<Rightarrow> bool \<Rightarrow> bool \<Rightarrow> stmt option \<Rightarrow> export_spec list \<Rightarrow> string
   \<Rightarrow> cstate \<Rightarrow> cerr + cstate" where
  "compile_export ce cs pos is_default is_star decl specifiers src s =
     (if is_star then
        Inr (emit (\<lambda>c. write_op OpExportAll pos
               (emit_string_operand OpImportModule (strip_quotes src) pos c)) s)
      else if src \<noteq> [] then
        Inr (emit (\<lambda>c. write_op OpPop pos
               (fold (compile_reexport_spec pos) specifiers
                  (emit_string_operand OpImportModule (strip_quotes src) pos c))) s)
      else
        bind_res (case decl of
                    Some d \<Rightarrow> compile_export_decl ce cs pos is_default d s
                  | None \<Rightarrow> Inr s) (\<lambda>s.
        Inr (emit (fold (\<lambda>spec. compile_export_local_name (es_name spec) (es_alias spec) pos)
               specifiers) s)))"

section \<open>Declarations\<close>

text \<open>\<^verbatim>\<open>emit_undefined_replace\<close>.\<close>

definition emit_undefined_replace :: "ecompiler \<Rightarrow> expr \<Rightarrow> position \<Rightarrow> chunk \<Rightarrow> cerr + chunk" where
  "emit_undefined_replace ce dflt pos c =
     (let c = emit_value_constant OUndefined pos (write_op OpDup pos c)
      in case emit_jump_placeholder OpJumpIfFalse pos (write_op OpEq pos c) of (keep_ip, c) \<Rightarrow>
         bind_res (ce dflt (write_op OpPop pos c)) (\<lambda>c. Inr (patch_jump_here keep_ip c)))"

definition emit_default :: "ecompiler \<Rightarrow> expr option \<Rightarrow> position \<Rightarrow> chunk \<Rightarrow> cerr + chunk" where
  "emit_default ce dflt pos c =
     (case dflt of Some d \<Rightarrow> emit_undefined_replace ce d pos c | None \<Rightarrow> Inr c)"

text \<open>The loop over array elements, \<open>i\<close> the index of the first; a rest element ends it.\<close>

fun compile_array_binding ::
  "ecompiler \<Rightarrow> position \<Rightarrow> bool \<Rightarrow> nat \<Rightarrow> expr array_binding_elem list \<Rightarrow> chunk \<Rightarrow> cerr + chunk" where
  "compile_array_binding ce pos is_const i [] c = Inr c"
| "compile_array_binding ce pos is_const i (el # els) c =
     (if abe_is_rest el then
        Inr (emit_decl_store (abe_name el) is_const pos
          (write_op OpArraySliceFrom pos
            (emit_value_constant (ONumber (f64_of_nat i)) pos (write_op OpDup pos c))))
      else if abe_name el = [] then compile_array_binding ce pos is_const (Suc i) els c
      else
        bind_res (emit_default ce (abe_default el) pos
          (write_op OpGetIndex pos
            (emit_value_constant (ONumber (f64_of_nat i)) pos (write_op OpDup pos c)))) (\<lambda>c.
        compile_array_binding ce pos is_const (Suc i) els
          (emit_decl_store (abe_name el) is_const pos c)))"

definition compile_object_binding ::
  "ecompiler \<Rightarrow> position \<Rightarrow> bool \<Rightarrow> expr object_binding_elem \<Rightarrow> chunk \<Rightarrow> cerr + chunk" where
  "compile_object_binding ce pos is_const el c =
     bind_res (emit_default ce (obe_default el) pos
       (emit_string_operand OpGetProperty (obe_key el) pos (write_op OpDup pos c))) (\<lambda>c.
     Inr (emit_decl_store (obe_target el) is_const pos c))"

definition compile_initializer :: "ecompiler \<Rightarrow> expr option \<Rightarrow> position \<Rightarrow> chunk \<Rightarrow> cerr + chunk" where
  "compile_initializer ce val pos c =
     (case val of Some v \<Rightarrow> ce v c | None \<Rightarrow> Inr (emit_value_constant OUndefined pos c))"

definition compile_destructure ::
  "ecompiler \<Rightarrow> expr binding_pattern \<Rightarrow> expr option \<Rightarrow> position \<Rightarrow> bool \<Rightarrow> chunk \<Rightarrow> cerr + chunk" where
  "compile_destructure ce binding val pos is_const c =
     bind_res (compile_initializer ce val pos c) (\<lambda>c.
     bind_res
       (case binding of
          BpArray els \<Rightarrow> compile_array_binding ce pos is_const 0 els c
        | BpObject els \<Rightarrow> fold_res (compile_object_binding ce pos is_const) els c) (\<lambda>c.
     Inr (write_op OpPop pos c)))"

definition compile_decl ::
  "ecompiler \<Rightarrow> string \<Rightarrow> expr option \<Rightarrow> type_annotation option \<Rightarrow> bool \<Rightarrow> position \<Rightarrow> chunk
   \<Rightarrow> cerr + chunk" where
  "compile_decl ce name val type_anno is_const pos c =
     bind_res (compile_initializer ce val pos c) (\<lambda>c.
     case decl_name_operand name is_const c of (operand, c) \<Rightarrow>
     case type_anno of
       Some t \<Rightarrow>
         let type_idx = of_nat (length (types c));
             c = map_types (\<lambda>ts. ts @ [t]) c
         in Inr (write_u16 type_idx (write_u16 operand (write_op OpStoreTypedName pos c)))
     | None \<Rightarrow> Inr (write_u16 operand (write_op OpStoreName pos c)))"

definition compile_named_or_destructure ::
  "ecompiler \<Rightarrow> string \<Rightarrow> expr binding_pattern option \<Rightarrow> expr option \<Rightarrow> type_annotation option
   \<Rightarrow> bool \<Rightarrow> position \<Rightarrow> chunk \<Rightarrow> cerr + chunk" where
  "compile_named_or_destructure ce name binding val type_anno is_const pos c =
     (case binding of
        Some b \<Rightarrow> compile_destructure ce b val pos is_const c
      | None \<Rightarrow> compile_decl ce name val type_anno is_const pos c)"

section \<open>Functions\<close>

definition fresh_state :: "chunk \<Rightarrow> cstate" where
  "fresh_state c = \<lparr>cs_chunk = c, cs_loops = [], cs_finals = []\<rparr>"

definition compile_method_proto ::
  "scompiler \<Rightarrow> resolution_map \<Rightarrow> string \<Rightarrow> gparam list \<Rightarrow> gblock \<Rightarrow> bool \<Rightarrow> type_annotation option
   \<Rightarrow> position \<Rightarrow> cerr + function_proto" where
  "compile_method_proto cs res name params body is_async return_t pos =
     bind_res (compile_body cs (block_statements body) (fresh_state empty_chunk)) (\<lambda>s.
     let sub = cs_chunk s;
         sub = (if matches_last_opcode sub OpReturn then sub else write_op OpReturn pos sub);
         upvalue_desc = (case resolution_function res name pos of
                           Some r \<Rightarrow> fr_upvalues r | None \<Rightarrow> [])
     in Inr (set_proto_chunk (Some sub)
               (proto_with_upvalues name params body is_async False return_t pos upvalue_desc)))"

text \<open>\<^verbatim>\<open>compile_lexical_function_proto\<close>: the same prototype, marked lexical.\<close>

definition compile_lexical_function_proto ::
  "scompiler \<Rightarrow> resolution_map \<Rightarrow> string \<Rightarrow> gparam list \<Rightarrow> gblock \<Rightarrow> bool \<Rightarrow> type_annotation option
   \<Rightarrow> position \<Rightarrow> cerr + function_proto" where
  "compile_lexical_function_proto cs res name params body is_async return_t pos =
     bind_res (compile_method_proto cs res name params body is_async return_t pos) (\<lambda>p.
     Inr (set_proto_chunk (proto_chunk p)
            (proto_with_upvalues (proto_name p) (proto_params p) (proto_body p) (proto_is_async p)
               True (proto_return_t p) (proto_pos p) (proto_upvalue_desc p))))"

definition compile_function_proto ::
  "scompiler \<Rightarrow> resolution_map \<Rightarrow> string \<Rightarrow> gparam list \<Rightarrow> gblock \<Rightarrow> bool \<Rightarrow> bool
   \<Rightarrow> type_annotation option \<Rightarrow> position \<Rightarrow> chunk \<Rightarrow> cerr + (u16 \<times> chunk)" where
  "compile_function_proto cs res name params body is_async lexical_this return_t pos parent =
     bind_res
       (if lexical_this
        then compile_lexical_function_proto cs res name params body is_async return_t pos
        else compile_method_proto cs res name params body is_async return_t pos) (\<lambda>p.
     Inr (of_nat (length (protos parent)), map_protos (\<lambda>ps. ps @ [p]) parent))"

definition compile_func_expr ::
  "scompiler \<Rightarrow> resolution_map \<Rightarrow> position \<Rightarrow> string \<Rightarrow> gparam list \<Rightarrow> type_annotation option
   \<Rightarrow> gblock \<Rightarrow> bool \<Rightarrow> chunk \<Rightarrow> cerr + chunk" where
  "compile_func_expr cs res pos name params return_t body is_async c =
     bind_res (compile_function_proto cs res name params body is_async False return_t pos c)
       (\<lambda>(idx, c). Inr (write_u16 idx (write_op OpClosure pos c)))"

definition compile_func_decl ::
  "scompiler \<Rightarrow> resolution_map \<Rightarrow> position \<Rightarrow> string \<Rightarrow> gparam list \<Rightarrow> type_annotation option
   \<Rightarrow> gblock \<Rightarrow> bool \<Rightarrow> chunk \<Rightarrow> cerr + chunk" where
  "compile_func_decl cs res pos name params return_t body is_async c =
     bind_res (compile_function_proto cs res name params body is_async False return_t pos c)
       (\<lambda>(proto_idx, c).
          Inr (emit_string_operand OpStoreName name pos
                 (write_u16 proto_idx (write_op OpClosure pos c))))"

definition compile_arrow_expr ::
  "scompiler \<Rightarrow> resolution_map \<Rightarrow> position \<Rightarrow> gparam list \<Rightarrow> type_annotation option
   \<Rightarrow> (expr, stmt) arrow_body \<Rightarrow> bool \<Rightarrow> chunk \<Rightarrow> cerr + chunk" where
  "compile_arrow_expr cs res pos params return_t body is_async c =
     bind_res (compile_function_proto cs res [] params (arrow_block pos body) is_async True
                 return_t pos c)
       (\<lambda>(idx, c). Inr (write_u16 idx (write_op OpClosure pos c)))"

section \<open>Match\<close>

text \<open>
  \<^verbatim>\<open>compile_match_body\<close>: each statement of a block gets its own empty frame stacks.
\<close>

fun compile_match_stmts :: "scompiler \<Rightarrow> stmt list \<Rightarrow> chunk \<Rightarrow> cerr + chunk" where
  "compile_match_stmts cs [] c = Inr c"
| "compile_match_stmts cs (st # sts) c =
     bind_res (cs st (sts = []) (fresh_state c)) (\<lambda>s. compile_match_stmts cs sts (cs_chunk s))"

definition compile_match_body ::
  "ecompiler \<Rightarrow> scompiler \<Rightarrow> (expr, stmt) match_body \<Rightarrow> chunk \<Rightarrow> cerr + chunk" where
  "compile_match_body ce cs body c =
     (case body of
        MbExpr e \<Rightarrow> ce e c
      | MbBlock b \<Rightarrow>
          if block_statements b = [] then
            (case add_constant OUndefined c of (idx, c) \<Rightarrow> Inr (emit_const idx (block_pos b) c))
          else compile_match_stmts cs (block_statements b) c)"

definition compile_match_arm ::
  "ecompiler \<Rightarrow> scompiler \<Rightarrow> string \<Rightarrow> (expr, stmt) match_arm \<Rightarrow> u32 list \<times> chunk
   \<Rightarrow> cerr + (u32 list \<times> chunk)" where
  "compile_match_arm ce cs subject_name arm acc =
     (let (to_end, c) = acc; pos = arm_pos arm
      in bind_res (compile_pattern_test ce (arm_pattern arm) (emit_load_name subject_name pos c)) (\<lambda>c.
         case emit_jump_placeholder OpJumpIfFalse pos c of (to_next, c) \<Rightarrow>
         let c = (case arm_pattern arm of
                    PIdent p name \<Rightarrow>
                      emit_string_operand OpStoreName name p (emit_load_name subject_name p c)
                  | _ \<Rightarrow> c);
             c = (if arm_binding_name arm \<noteq> [] then
                    emit_string_operand OpStoreName (arm_binding_name arm) (arm_binding_pos arm)
                      (emit_load_name subject_name (arm_binding_pos arm) c)
                  else c)
         in bind_res
              (case arm_guard arm of
                 Some guard \<Rightarrow>
                   bind_res (ce guard c) (\<lambda>c.
                   case emit_jump_placeholder OpJumpIfFalse (expr_pos guard) c of
                     (guard_failed, c) \<Rightarrow>
                   bind_res (compile_match_body ce cs (arm_body arm) c) (\<lambda>c.
                   case emit_jump_placeholder OpJump pos c of (done_jump, c) \<Rightarrow>
                   Inr (to_end @ [done_jump], patch_jump_here guard_failed c)))
               | None \<Rightarrow>
                   bind_res (compile_match_body ce cs (arm_body arm) c) (\<lambda>c.
                   case emit_jump_placeholder OpJump pos c of (done_jump, c) \<Rightarrow>
                   Inr (to_end @ [done_jump], c)))
              (\<lambda>(to_end, c). Inr (to_end, patch_jump_here to_next c))))"

definition compile_match ::
  "ecompiler \<Rightarrow> scompiler \<Rightarrow> position \<Rightarrow> expr \<Rightarrow> (expr, stmt) match_arm list \<Rightarrow> chunk \<Rightarrow> cerr + chunk" where
  "compile_match ce cs pos subject arms c =
     (let subject_name = numbered ''__gts_bc_match_subject_'' pos
      in bind_res (ce subject c) (\<lambda>c.
         bind_res (fold_res (compile_match_arm ce cs subject_name) arms
                     ([], emit_string_operand OpStoreName subject_name pos c)) (\<lambda>(to_end, c).
         Inr (fold patch_jump_here to_end
                (write_op OpThrowMatchError pos (emit_load_name subject_name pos c))))))"

section \<open>Pending jumps\<close>

text \<open>The jumps that frames of a state will patch later.\<close>

definition loop_patches :: "loop_frame \<Rightarrow> u32 set" where
  "loop_patches f = set (lf_breaks f) \<union> set (lf_continues f)"

definition final_patches :: "finally_frame \<Rightarrow> u32 set" where
  "final_patches f = pe_patch ` set (ff_exits f)"

definition pending :: "cstate \<Rightarrow> u32 set" where
  "pending s = (\<Union>f\<in>set (cs_loops s). loop_patches f) \<union> (\<Union>f\<in>set (cs_finals s). final_patches f)"

lemma pending_simps [simp]:
  "pending (s\<lparr>cs_chunk := c\<rparr>) = pending s" "pending (emit f s) = pending s"
  "pending (push_loop l s) = pending s" "pending (push_final b s) = pending s"
  "pending (fresh_state c) = {}"
  "cs_chunk (emit f s) = f (cs_chunk s)" "cs_chunk (push_loop l s) = cs_chunk s"
  "cs_chunk (push_final b s) = cs_chunk s" "cs_chunk (fresh_state c) = c"
  by (simp_all add: pending_def emit_def push_loop_def push_final_def fresh_state_def
      loop_patches_def final_patches_def)

lemma on_chunk_Inr [simp]:
  "on_chunk f s = Inr s' \<longleftrightarrow> (\<exists>c. f (cs_chunk s) = Inr c \<and> s' = s\<lparr>cs_chunk := c\<rparr>)"
  by (auto simp: on_chunk_def)

lemma emit_jump_eq [simp]:
  "emit_jump op pos s = (p, s') \<longleftrightarrow>
     (\<exists>c. emit_jump_placeholder op pos (cs_chunk s) = (p, c) \<and> s' = s\<lparr>cs_chunk := c\<rparr>)"
  by (auto simp: emit_jump_def split: prod.splits)

lemma set_butlast_last: "xs \<noteq> [] \<Longrightarrow> set xs = insert (last xs) (set (butlast xs))"
  by (induction xs rule: rev_induct) auto

lemma pop_loop_pending:
  assumes "pop_loop s = Inr (frame, s')"
  shows "cs_chunk s' = cs_chunk s" "pending s = loop_patches frame \<union> pending s'"
proof -
  from assms have "cs_loops s \<noteq> []" "frame = last (cs_loops s)"
    "s' = s\<lparr>cs_loops := butlast (cs_loops s)\<rparr>" by (simp_all add: pop_loop_def split: if_splits)
  then show "cs_chunk s' = cs_chunk s" "pending s = loop_patches frame \<union> pending s'"
    using set_butlast_last [of "cs_loops s"] by (auto simp: pending_def)
qed

lemma pop_final_pending:
  assumes "pop_final s = Inr (frame, s')"
  shows "cs_chunk s' = cs_chunk s" "pending s = final_patches frame \<union> pending s'"
proof -
  from assms have "cs_finals s \<noteq> []" "frame = last (cs_finals s)"
    "s' = s\<lparr>cs_finals := butlast (cs_finals s)\<rparr>" by (simp_all add: pop_final_def split: if_splits)
  then show "cs_chunk s' = cs_chunk s" "pending s = final_patches frame \<union> pending s'"
    using set_butlast_last [of "cs_finals s"] by (auto simp: pending_def)
qed

lemma record_exit_pending:
  assumes "cs_finals s \<noteq> []"
  shows "pending (record_exit e s) = insert (pe_patch e) (pending s)"
  using set_butlast_last [OF assms] by (auto simp: record_exit_def pending_def final_patches_def)

lemma record_exit_chunk [simp]: "cs_chunk (record_exit e s) = cs_chunk s"
  by (simp add: record_exit_def)

lemma update_loop_pending:
  assumes "update_last_match P g (cs_loops s) = Some ls"
    and "\<And>f. loop_patches (g f) = insert p (loop_patches f)"
  shows "pending (s\<lparr>cs_loops := ls\<rparr>) = insert p (pending s)"
proof -
  from update_last_match_Some [OF assms(1)] obtain k where
    k: "k < length (cs_loops s)" "ls = (cs_loops s)[k := g (cs_loops s ! k)]" by blast
  let ?xs = "cs_loops s"
  have sp: "?xs = take k ?xs @ ?xs ! k # drop (Suc k) ?xs" using k(1) by (rule id_take_nth_drop)
  have "ls = take k ?xs @ g (?xs ! k) # drop (Suc k) ?xs"
    unfolding k(2) using k(1) by (rule upd_conv_take_nth_drop)
  moreover have "pending s = (\<Union>f\<in>set (take k ?xs @ ?xs ! k # drop (Suc k) ?xs). loop_patches f) \<union>
      (\<Union>f\<in>set (cs_finals s). final_patches f)"
    unfolding pending_def using sp by simp
  ultimately show ?thesis using assms(2) by (simp add: pending_def)
qed

section \<open>The contract of statement compilation\<close>

definition sflow :: "cstate \<Rightarrow> cstate \<Rightarrow> bool" where
  "sflow s s' \<longleftrightarrow> flow (pending s) (pending s') {} (cs_chunk s) (cs_chunk s')"

lemma sflow_refl [simp]: "sflow s s"
  by (simp add: sflow_def flow_start)

lemma sflow_trans: "sflow a b \<Longrightarrow> sflow b c \<Longrightarrow> sflow a c"
  unfolding sflow_def by (rule flow_weaken [OF flow_trans]) auto

lemma wp_sflow:
  assumes "sflow s s'" "flow F (A - pending s' \<union> pending s) (B - {here (cs_chunk s')}) c0 (cs_chunk s)"
  shows "flow F A B c0 (cs_chunk s')"
  by (rule wp_mark, rule flow_weaken [OF flow_trans [OF assms(2) assms(1) [unfolded sflow_def]]]) auto

lemma wp_pop_loop:
  assumes "pop_loop s = Inr (frame, s')"
    "flow F (A - (pending s' \<union> set (lf_breaks frame) \<union> set (lf_continues frame)) \<union> pending s) B c0 (cs_chunk s)"
  shows "flow F A B c0 (cs_chunk s')"
  unfolding pop_loop_pending(1) [OF assms(1)]
  by (rule flow_weaken [OF assms(2)]) (auto simp: pop_loop_pending(2) [OF assms(1)] loop_patches_def)

lemma wp_pop_final:
  assumes "pop_final s = Inr (frame, s')"
    "flow F (A - (pending s' \<union> final_patches frame) \<union> pending s) B c0 (cs_chunk s)"
  shows "flow F A B c0 (cs_chunk s')"
  unfolding pop_final_pending(1) [OF assms(1)]
  by (rule flow_weaken [OF assms(2)]) (auto simp: pop_final_pending(2) [OF assms(1)])

lemma wp_start_mark: "A \<subseteq> F \<Longrightarrow> B \<subseteq> {here c} \<Longrightarrow> flow F A B c c"
  by (rule flow_weaken [OF flow_mark [OF flow_start]]) auto

text \<open>The rules in the form that also discharges the boundary at the current end.\<close>

lemmas wp_marks =
  flow_string [THEN wp_mark] flow_load_name [THEN wp_mark] flow_value [THEN wp_mark]
  flow_decl_store [THEN wp_mark] flow_op [THEN wp_mark] flow_count [THEN wp_mark]
  wp_value_constant [THEN wp_mark]
  wp_loop [THEN wp_mark]
  wp_patch_here wp_patches_here wp_patch_all_here wp_patch_all wp_start_mark

lemmas wp_jump_mark = wp_jump [THEN wp_mark]
lemmas wp_pop_loop_mark = wp_pop_loop [THEN wp_mark]

lemma emit_abrupt_action_sflow:
  assumes "emit_abrupt_action a pos s = Inr s'"
  shows "sflow s s'"
proof -
  obtain p c where j: "emit_jump_placeholder OpJump pos (cs_chunk s) = (p, c)" by force
  have jf: "flow (pending s) (insert p (pending s)) {} (cs_chunk s) c"
    by (rule flow_jump [OF flow_start j]) simp
  consider (exit) "cs_finals s \<noteq> []"
      "s' = record_exit \<lparr>pe_patch = p, pe_pos = pos, pe_action = a\<rparr> (s\<lparr>cs_chunk := c\<rparr>)"
    | (ret) t where "s' = emit (\<lambda>c. write_op OpReturn pos (emit_load_name t pos c)) s"
    | (jump) P g ls where "update_last_match P g (cs_loops s) = Some ls"
      "s' = s\<lparr>cs_chunk := c, cs_loops := ls\<rparr>" "\<And>f. loop_patches (g f) = insert p (loop_patches f)"
  proof (cases "action_depth a < length (cs_finals s)")
    case True
    with assms j have "cs_finals s \<noteq> []"
      "s' = record_exit \<lparr>pe_patch = p, pe_pos = pos, pe_action = a\<rparr> (s\<lparr>cs_chunk := c\<rparr>)"
      by (auto simp: emit_abrupt_action_def emit_jump_def)
    then show ?thesis by (rule exit)
  next
    case False
    with assms j show ?thesis
      by (cases a) (auto simp: emit_abrupt_action_def emit_jump_def loop_patches_def
          intro: ret jump split: option.splits)
  qed
  then show ?thesis
  proof cases
    case exit
    then show ?thesis using jf by (simp add: sflow_def record_exit_pending)
  next
    case ret
    then show ?thesis by (auto simp: sflow_def intro!: wp_marks)
  next
    case jump
    have "pending s' = insert p (pending s)"
      using update_loop_pending [of P g "s\<lparr>cs_chunk := c\<rparr>" ls p] jump by simp
    with jf jump(2) show ?thesis by (simp add: sflow_def)
  qed
qed

lemma compile_break_continue_sflow: "compile_break_continue b l pos s = Inr s' \<Longrightarrow> sflow s s'"
  by (auto simp: compile_break_continue_def dest: emit_abrupt_action_sflow split: option.splits)

text \<open>Chunk-level helpers that need no compiler.\<close>

lemma wp_push_bytes_fold:
  assumes "\<And>x c A B. flow F A B c0 c \<Longrightarrow> flow F A B c0 (f x c)" "flow F A B c0 c"
  shows "flow F A B c0 (fold f xs c)"
  using assms(2) by (induction xs arbitrary: c) (auto intro: assms(1))

lemma compile_import_binding_wp:
  "flow F A B c0 c \<Longrightarrow> flow F A B c0 (compile_import_binding pos x l c)"
  unfolding compile_import_binding_def by (auto intro!: wp_writes)

lemma compile_import_wp:
  "flow F A B c0 c \<Longrightarrow> flow F A B c0 (compile_import pos d n ns al src c)"
  unfolding compile_import_def Let_def
  by (auto intro!: wp_writes wp_push_bytes_fold compile_import_binding_wp split: prod.split)

lemma compile_export_local_wp:
  "flow F A B c0 c \<Longrightarrow> flow F A B c0 (compile_export_local_name l x pos c)"
  unfolding compile_export_local_name_def compile_export_stack_value_def by (auto intro!: wp_writes)

lemma compile_reexport_wp:
  "flow F A B c0 c \<Longrightarrow> flow F A B c0 (compile_reexport_spec pos spec c)"
  unfolding compile_reexport_spec_def compile_export_stack_value_def by (auto intro!: wp_writes)

text \<open>The contract of the two compilers that the helpers receive.\<close>

locale compiler = expr_compiler +
  fixes cs :: scompiler
  assumes cs_sflow: "cs st k s = Inr s' \<Longrightarrow> sflow s s'"
begin

lemmas wp_cs = cs_sflow [THEN wp_sflow]
lemmas wp_ce_mark = wp_ce [THEN wp_mark]

lemma compile_stmts_sflow: "compile_stmts cs ss s = Inr s' \<Longrightarrow> sflow s s'"
  unfolding compile_stmts_def
  by (erule fold_res_rel) (auto intro: sflow_trans cs_sflow)

lemmas wp_stmts = compile_stmts_sflow [THEN wp_sflow]

lemma compile_body_sflow: "compile_body cs ss s = Inr s' \<Longrightarrow> sflow s s'"
  by (induction ss arbitrary: s) (auto dest: cs_sflow intro: sflow_trans)

lemma compile_return_sflow: "compile_return_stmt ce pos v s = Inr s' \<Longrightarrow> sflow s s'"
proof -
  assume "compile_return_stmt ce pos v s = Inr s'"
  then obtain s1 where s1: "case v of Some v \<Rightarrow> on_chunk (ce v) s = Inr s1
      | None \<Rightarrow> s1 = emit (\<lambda>c. case add_constant OUndefined c of (idx, c) \<Rightarrow> emit_const idx pos c) s"
    and r: "(if cs_finals s1 = [] then Inr (emit (write_op OpReturn pos) s1)
        else let temp_name = numbered ''__gts_bc_return_'' pos
             in emit_abrupt_action (AbReturn temp_name) pos
                  (emit (emit_string_operand OpStoreName temp_name pos) s1)) = Inr s'"
    by (auto simp: compile_return_stmt_def split: option.splits)
  have "sflow s s1"
    using s1 by (auto simp: sflow_def intro!: wp_marks elim!: wp_ce split: option.splits)
  moreover have "sflow s1 (emit (write_op OpReturn pos) s1)"
    "sflow s1 (emit (emit_string_operand OpStoreName n pos) s1)" for n
    by (auto simp: sflow_def intro!: wp_marks)
  then have "sflow s1 s'"
    using r by (auto simp: Let_def intro: sflow_trans dest!: emit_abrupt_action_sflow split: if_splits)
  ultimately show ?thesis by (rule sflow_trans)
qed

lemma compile_if_sflow: "compile_if ce cs pos q b alt s = Inr s' \<Longrightarrow> sflow s s'"
  unfolding sflow_def compile_if_def
  by (auto intro!: wp_marks elim!: wp_ce_mark wp_jump_mark wp_stmts wp_cs split: option.splits)

lemma compile_while_sflow: "compile_while ce cs pos q b l s = Inr s' \<Longrightarrow> sflow s s'"
  unfolding sflow_def compile_while_def Let_def
  by (auto intro!: wp_marks elim!: wp_ce_mark wp_jump_mark wp_stmts wp_pop_loop_mark)

lemma compile_for_sflow: "compile_for ce cs pos i q p b l s = Inr s' \<Longrightarrow> sflow s s'"
  unfolding sflow_def compile_for_def Let_def
  by (auto intro!: wp_marks elim!: wp_ce_mark wp_jump_mark wp_cs wp_stmts wp_pop_loop_mark
      split: option.splits)

lemma compile_for_in_sflow: "compile_for_in ce cs n it b pos l s = Inr s' \<Longrightarrow> sflow s s'"
  unfolding sflow_def compile_for_in_def Let_def
  by (auto intro!: wp_marks elim!: wp_ce_mark wp_jump_mark wp_stmts wp_pop_loop_mark)

lemma compile_for_of_sflow: "compile_for_of ce cs n it b pos l s = Inr s' \<Longrightarrow> sflow s s'"
  unfolding sflow_def compile_for_of_def Let_def
  by (auto intro!: wp_marks elim!: wp_ce_mark wp_jump_mark wp_stmts wp_pop_loop_mark)

lemma compile_labeled_sflow: "compile_labeled ce cs l st k s = Inr s' \<Longrightarrow> sflow s s'"
  by (auto simp: compile_labeled_def dest: compile_while_sflow compile_for_sflow compile_for_in_sflow
      compile_for_of_sflow compile_break_continue_sflow cs_sflow split: stmt.splits)

text \<open>Try: the catch clause ends at the current end, and so does each part that follows.\<close>

lemma compile_catch_sflow:
  "compile_catch cs ct s = Inr (x, s') \<Longrightarrow> x = here (cs_chunk s') \<and> sflow s s'"
  by (auto simp: compile_catch_def Let_def sflow_def intro!: wp_marks elim!: wp_stmts
      split: option.splits if_splits)

lemma pending_exits_wp:
  assumes "emit_pending_finally_exits cs frame s = Inr s'"
    and "flow F (final_patches frame \<union> (A - pending s') \<union> pending s) B c0 (cs_chunk s)"
  shows "flow F A B c0 (cs_chunk s')"
proof -
  let ?f = "\<lambda>p s. bind_res (compile_stmts cs (block_statements (ff_finalizer frame))
      (emit (patch_jump_here (pe_patch p)) s)) (emit_abrupt_action (pe_action p) (pe_pos p))"
  have "flow F (A \<union> pending t) B c0 (cs_chunk t)"
    if "fold_res ?f es s = Inr t" "flow F (pe_patch ` set es \<union> A \<union> pending s) B c0 (cs_chunk s)"
    for es s t A
    using that
  proof (induction es arbitrary: s)
    case (Cons e es)
    from Cons.prems(1) obtain s1 s2 where
      s1: "compile_stmts cs (block_statements (ff_finalizer frame))
        (emit (patch_jump_here (pe_patch e)) s) = Inr s1"
      and s2: "emit_abrupt_action (pe_action e) (pe_pos e) s1 = Inr s2" "fold_res ?f es s2 = Inr t"
      by auto
    let ?R = "pe_patch ` set es \<union> A"
    have 1: "flow F (?R \<union> pending s) B c0 (cs_chunk (emit (patch_jump_here (pe_patch e)) s))"
      using Cons.prems(2) by (auto intro!: wp_patch_here)
    have "sflow (emit (patch_jump_here (pe_patch e)) s) s2"
      using compile_stmts_sflow [OF s1] emit_abrupt_action_sflow [OF s2(1)] by (rule sflow_trans)
    then have "flow (pending s) (pending s2) {} (cs_chunk (emit (patch_jump_here (pe_patch e)) s))
        (cs_chunk s2)" by (simp add: sflow_def)
    from flow_trans [OF 1 this] have "flow F (?R \<union> pending s \<union> pending s2) B c0 (cs_chunk s2)"
      by simp
    then have "flow F (?R \<union> pending s2) B c0 (cs_chunk s2)" by (rule flow_weaken) auto
    with Cons.IH [OF s2(2)] show ?case by (simp add: Un_assoc)
  qed simp
  from this [OF assms(1) [unfolded emit_pending_finally_exits_def], of "A - pending s'"] assms(2)
  have "flow F (A - pending s' \<union> pending s') B c0 (cs_chunk s')" by (simp add: final_patches_def)
  then show ?thesis by (rule flow_weaken) auto
qed

lemma exceptional_finally_sflow:
  "compile_exceptional_finally cs pos f s = Inr s' \<Longrightarrow> sflow s s'"
  unfolding sflow_def compile_exceptional_finally_def Let_def
  by (auto intro!: wp_marks elim!: wp_stmts)

lemma compile_finally_wp:
  assumes "compile_finally cs pos a fin s = Inr (x, s')"
    and "flow F (insert a (A - pending s' \<union> pending s)) (B - set_option x) c0 (cs_chunk s)"
  shows "flow F A B c0 (cs_chunk s')"
proof (cases fin)
  case None
  with assms show ?thesis
    by (auto simp: compile_finally_def intro!: wp_patch_here elim!: flow_weaken)
next
  case (Some f)
  with assms(1) obtain frame s1 s2 e c s4 s5 where
    p: "pop_final s = Inr (frame, s1)"
    and s2: "compile_stmts cs (block_statements f) (emit (patch_jump_here a) s1) = Inr s2"
    and e: "emit_jump_placeholder OpJump pos (cs_chunk s2) = (e, c)"
    and s4: "compile_exceptional_finally cs pos f (s2\<lparr>cs_chunk := c\<rparr>) = Inr s4"
    and s5: "emit_pending_finally_exits cs frame s4 = Inr s5"
    and x: "x = Some (here c)" and s': "s' = emit (patch_jump_here e) s5"
    by (auto simp: compile_finally_def Let_def)
  let ?X = "final_patches frame"
  have 1: "flow F (insert a (?X \<union> (A - pending s') \<union> pending s1)) (B - {here c}) c0 (cs_chunk s1)"
    unfolding pop_final_pending(1) [OF p]
    by (rule flow_weaken [OF assms(2)]) (auto simp: pop_final_pending(2) [OF p] x)
  have 2: "flow F (?X \<union> (A - pending s') \<union> pending s2) (B - {here c}) c0 (cs_chunk s2)"
    by (rule wp_stmts [OF s2])
      (use 1 in \<open>auto intro!: wp_patch_here elim!: flow_weaken\<close>)
  have 3: "flow F (insert e (?X \<union> (A - pending s') \<union> pending s2)) B c0 c"
    by (rule wp_mark, rule wp_jump [OF e]) (use 2 in \<open>auto elim!: flow_weaken\<close>)
  have 4: "flow F (insert e (?X \<union> (A - pending s') \<union> pending s4)) B c0 (cs_chunk s4)"
    by (rule exceptional_finally_sflow [OF s4, THEN wp_sflow])
      (use 3 in \<open>auto elim!: flow_weaken\<close>)
  have "flow F (insert e A) B c0 (cs_chunk s5)"
    by (rule pending_exits_wp [OF s5]) (use 4 s' in \<open>auto elim!: flow_weaken\<close>)
  then show ?thesis unfolding s' by (auto intro!: wp_patch_here)
qed

lemma flow_region_wp:
  assumes "flow F A (insert a (insert b (insert h (set_option fin \<union> B)))) c0 c"
    and "small c \<Longrightarrow> a \<le> b"
  shows "flow F A B c0 (push_region \<lparr>try_start = a, try_end = b, handler_ip = h, finally_ip = fin,
    catch_binding_slot = None\<rparr> c)"
  unfolding push_region_def
  by (rule flow_weaken [OF flow_region [OF assms(1)]]) (use assms(2) in auto)

lemma push_try_regions_wp:
  assumes "flow F A ({t1, t2, c1, c2} \<union> set_option fi) c0 c"
    and "small c \<Longrightarrow> t1 \<le> t2" "small c \<Longrightarrow> c1 \<le> c2"
  shows "flow F A {} c0 (push_try_regions t1 t2 c1 c2 hc fi c)"
proof -
  have small_push: "small (push_region r d) = small d" for r d
    by (simp add: push_region_def small_def all_chunks_iff [of small1] small1_def)
  show ?thesis
    unfolding push_try_regions_def Let_def
    by (auto intro!: flow_region_wp flow_weaken [OF assms(1)] assms(2,3) simp: small_push
        split: option.splits)
qed

lemma compile_try_sflow:
  assumes "compile_try cs pos block ctch fin s = Inr s'"
  shows "sflow s s'"
proof -
  define s0 where "s0 = (case fin of Some f \<Rightarrow> push_final f s | None \<Rightarrow> s)"
  from assms obtain s1 a c z s3 fi s4 where
    s1: "compile_stmts cs (block_statements block) s0 = Inr s1"
    and j: "emit_jump_placeholder OpJump pos (cs_chunk s1) = (a, c)"
    and s3: "compile_catch cs ctch (s1\<lparr>cs_chunk := c\<rparr>) = Inr (z, s3)"
    and s4: "compile_finally cs pos a fin s3 = Inr (fi, s4)"
    and s': "s' = emit (push_try_regions (here (cs_chunk s0)) (here (cs_chunk s1)) (here c) z
        (ctch \<noteq> None) fi) s4"
    unfolding compile_try_def Let_def s0_def [symmetric] by force
  have ps0: "pending s0 = pending s" "cs_chunk s0 = cs_chunk s" by (simp_all add: s0_def split: option.split)
  note z = compile_catch_sflow [OF s3, THEN conjunct1] and catch = compile_catch_sflow [OF s3, THEN conjunct2]
  let ?B = "{here (cs_chunk s0), here (cs_chunk s1), here c, z} \<union> set_option fi"
  have f0: "flow (pending s) (pending s) {here (cs_chunk s0)} (cs_chunk s) (cs_chunk s0)"
    unfolding ps0(2) by (auto intro!: wp_start_mark)
  have f1: "flow (pending s) (pending s1) {here (cs_chunk s0), here (cs_chunk s1)} (cs_chunk s) (cs_chunk s1)"
    by (rule wp_stmts [OF s1]) (use f0 ps0 in \<open>auto elim!: flow_weaken\<close>)
  have f2: "flow (pending s) (insert a (pending s1)) {here (cs_chunk s0), here (cs_chunk s1), here c}
      (cs_chunk s) c"
    by (rule wp_mark, rule wp_jump [OF j]) (use f1 in \<open>auto elim!: flow_weaken\<close>)
  have f3: "flow (pending s) (insert a (pending s3)) {here (cs_chunk s0), here (cs_chunk s1), here c, z}
      (cs_chunk s) (cs_chunk s3)"
    by (rule wp_sflow [OF catch]) (use f2 z in \<open>auto elim!: flow_weaken\<close>)
  have f4: "flow (pending s) (pending s4) ?B (cs_chunk s) (cs_chunk s4)"
    by (rule compile_finally_wp [OF s4]) (use f3 in \<open>auto elim!: flow_weaken\<close>)
  have g: "grows (cs_chunk s0) (cs_chunk s1)" "grows (cs_chunk s1) (cs_chunk s4)"
    "grows c (cs_chunk s3)" "grows (cs_chunk s3) (cs_chunk s4)"
  proof -
    show g1: "grows (cs_chunk s0) (cs_chunk s1)"
      using compile_stmts_sflow [OF s1] by (simp add: sflow_def flow_grows)
    show g3: "grows c (cs_chunk s3)" using catch by (simp add: sflow_def flow_grows)
    have "flow (insert a (pending s3)) (pending s4) {} (cs_chunk s3) (cs_chunk s4)"
      if "fi = fi'" for fi'
      by (rule flow_weaken [OF compile_finally_wp [OF s4, where A = "pending s4" and B = "set_option fi"
            and F = "insert a (pending s3)"]]) (auto intro!: wp_start)
    then show g4: "grows (cs_chunk s3) (cs_chunk s4)" by (blast intro: flow_grows)
    have "grows (cs_chunk s1) c" using flow_jump [OF flow_start j] by (auto intro: flow_grows)
    then show "grows (cs_chunk s1) (cs_chunk s4)" using g3 g4 by (blast intro: grows_trans)
  qed
  have le: "here (cs_chunk s0) \<le> here (cs_chunk s1)" "here c \<le> z" if "small (cs_chunk s4)"
    using that g by (auto simp: z intro: here_mono grows_small)
  have "flow (pending s) (pending s4) {} (cs_chunk s) (cs_chunk s')"
    unfolding s' pending_simps by (rule push_try_regions_wp [OF f4 le])
  then show ?thesis by (simp add: sflow_def s')
qed

lemma compile_export_sflow:
  assumes "compile_export ce cs pos d st decl specs src s = Inr s'"
  shows "sflow s s'"
proof -
  have pure: "sflow t (emit f t)" if "\<And>F A B c0 c. flow F A B c0 c \<Longrightarrow> flow F A B c0 (f c)" for f t
    using that [OF flow_start] by (simp add: sflow_def)
  have specs: "sflow t (emit (fold (\<lambda>spec. compile_export_local_name (es_name spec) (es_alias spec) pos) specs) t)"
    for t by (rule pure) (auto intro!: wp_push_bytes_fold compile_export_local_wp)
  have decl: "sflow s t" if "compile_export_decl ce cs pos d x s = Inr t" for x t
  proof -
    have val: "sflow s (emit (compile_export_stack_value n pos) (s\<lparr>cs_chunk := c\<rparr>))"
      if "ce e (cs_chunk s) = Inr c" for e c n
      using that by (auto simp: sflow_def compile_export_stack_value_def intro!: wp_marks elim!: wp_ce_mark)
    have name: "sflow s (emit (compile_export_local_name n n pos) t)" if "cs x False s = Inr t" for n x t
      using cs_sflow [OF that] pure [OF compile_export_local_wp] by (rule sflow_trans)
    from that show ?thesis
      by (auto simp: compile_export_decl_def val name dest: cs_sflow split: if_splits stmt.splits option.splits)
  qed
  show ?thesis
  proof (cases "st \<or> src \<noteq> []")
    case True
    with assms show ?thesis
      by (auto simp: compile_export_def intro!: pure wp_writes wp_push_bytes_fold compile_reexport_wp
          split: if_splits)
  next
    case False
    with assms show ?thesis
      by (auto simp: compile_export_def specs split: option.splits elim!: sflow_trans [OF decl specs])
  qed
qed

lemma compile_import_sflow: "sflow s (emit (compile_import pos d n ns al src) s)"
  by (auto simp: sflow_def intro!: compile_import_wp flow_start)

lemma emit_default_flow: "emit_default ce e pos c = Inr c' \<Longrightarrow> flow {} {} {} c c'"
  by (auto simp: emit_default_def emit_undefined_replace_def Let_def intro!: wp_writes
      elim!: wp_ce wp_jump split: option.splits)

lemma compile_array_binding_flow:
  "compile_array_binding ce pos k i els c = Inr c' \<Longrightarrow> flow F A B c0 c \<Longrightarrow> flow F A B c0 c'"
proof (induction els arbitrary: i c)
  case (Cons el els)
  show ?case
  proof (cases "abe_is_rest el")
    case True
    with Cons.prems(1) have "c' = emit_decl_store (abe_name el) k pos (write_op OpArraySliceFrom pos
        (emit_value_constant (ONumber (f64_of_nat i)) pos (write_op OpDup pos c)))" by simp
    then show ?thesis using Cons.prems(2) by (auto intro!: wp_writes)
  next
    case rest: False
    show ?thesis
    proof (cases "abe_name el = []")
      case True
      with rest Cons.prems(1) have "compile_array_binding ce pos k (Suc i) els c = Inr c'" by simp
      then show ?thesis using Cons.prems(2) by (rule Cons.IH)
    next
      case False
      with rest Cons.prems(1) obtain c1 where c1: "emit_default ce (abe_default el) pos
          (write_op OpGetIndex pos (emit_value_constant (ONumber (f64_of_nat i)) pos
            (write_op OpDup pos c))) = Inr c1"
        and r: "compile_array_binding ce pos k (Suc i) els (emit_decl_store (abe_name el) k pos c1) = Inr c'"
        by auto
      have "flow F A B c0 c1"
        by (rule wp_step [OF emit_default_flow [OF c1]]) (use Cons.prems(2) in \<open>auto intro!: wp_writes\<close>)
      then show ?thesis by (intro Cons.IH [OF r] flow_decl_store)
    qed
  qed
qed simp

lemma compile_object_binding_flow:
  "compile_object_binding ce pos k el c = Inr c' \<Longrightarrow> flow {} {} {} c c'"
  by (auto simp: compile_object_binding_def intro!: wp_writes elim!: wp_step [OF emit_default_flow])

lemma compile_initializer_flow: "compile_initializer ce v pos c = Inr c' \<Longrightarrow> flow {} {} {} c c'"
  by (auto simp: compile_initializer_def intro!: wp_writes elim!: wp_ce split: option.splits)

lemma compile_destructure_flow:
  "compile_destructure ce b v pos k c = Inr c' \<Longrightarrow> flow {} {} {} c c'"
  by (cases b) (auto simp: compile_destructure_def intro!: wp_writes
      elim!: compile_array_binding_flow wp_fold [OF _ compile_object_binding_flow]
      dest!: compile_initializer_flow)

lemma compile_decl_flow: "compile_decl ce n v ty k pos c = Inr c' \<Longrightarrow> flow {} {} {} c c'"
proof -
  assume "compile_decl ce n v ty k pos c = Inr c'"
  then obtain c1 i c2 where c1: "compile_initializer ce v pos c = Inr c1"
    and i: "decl_name_operand n k c1 = (i, c2)"
    and c': "(case ty of
       Some t \<Rightarrow> write_u16 (of_nat (length (types c2))) (write_u16 i
         (write_op OpStoreTypedName pos (map_types (\<lambda>ts. ts @ [t]) c2)))
     | None \<Rightarrow> write_u16 i (write_op OpStoreName pos c2)) = c'"
    by (auto simp: compile_decl_def Let_def split: option.splits)
  note f = compile_initializer_flow [OF c1]
  show ?thesis
  proof (cases ty)
    case None
    then have "c' = emit_decl_store n k pos c1" using c' i by (simp add: emit_decl_store_def)
    with f show ?thesis by (simp add: flow_decl_store)
  next
    case (Some t)
    with flow_typed_store [OF f i refl, where t = t and pos = pos] c' show ?thesis by simp
  qed
qed

lemma compile_named_flow:
  "compile_named_or_destructure ce n b v ty k pos c = Inr c' \<Longrightarrow> flow {} {} {} c c'"
  by (auto simp: compile_named_or_destructure_def dest: compile_decl_flow compile_destructure_flow
      split: option.splits)

text \<open>The chunk of a prototype is well formed.\<close>

lemma proto_chunk_simps [simp]:
  "proto_chunk (set_proto_chunk ch p) = ch"
  by (cases p) simp

lemma compile_method_proto_sound:
  assumes "compile_method_proto cs res name params body async ret pos = Inr p"
  shows "\<exists>sub. proto_chunk p = Some sub \<and> flow {} {} {} empty_chunk sub"
proof -
  from assms obtain s where s: "compile_body cs (block_statements body) (fresh_state empty_chunk) = Inr s"
    and p: "proto_chunk p = Some (if matches_last_opcode (cs_chunk s) OpReturn then cs_chunk s
      else write_op OpReturn pos (cs_chunk s))"
    by (auto simp: compile_method_proto_def Let_def)
  have "flow {} {} {} empty_chunk (cs_chunk s)"
    using compile_body_sflow [OF s] by (auto simp: sflow_def intro: flow_drop)
  with p show ?thesis by (auto intro!: wp_writes)
qed

lemma compile_lexical_proto_sound:
  assumes "compile_lexical_function_proto cs res name params body async ret pos = Inr p"
  shows "\<exists>sub. proto_chunk p = Some sub \<and> flow {} {} {} empty_chunk sub"
  using assms by (auto simp: compile_lexical_function_proto_def dest: compile_method_proto_sound)

lemma sound_protoI:
  assumes "proto_chunk p = Some sub" "flow {} {} {} empty_chunk sub" "all_chunks_proto small1 p"
  shows "all_chunks_proto sound1 p"
  using assms flowD(1) [OF assms(2)] by (simp add: all_chunks_proto_iff small_def sound_def [symmetric])

lemma compile_function_proto_cases:
  assumes "compile_function_proto cs res name params body async lx ret pos c = Inr (idx, c')"
  obtains p where "idx = of_nat (length (protos c))" "c' = map_protos (\<lambda>ps. ps @ [p]) c"
    "all_chunks_proto small1 p \<Longrightarrow> all_chunks_proto sound1 p"
proof -
  from assms obtain p where p: "if lx
      then compile_lexical_function_proto cs res name params body async ret pos = Inr p
      else compile_method_proto cs res name params body async ret pos = Inr p"
    and idx: "idx = of_nat (length (protos c))" and c': "c' = map_protos (\<lambda>ps. ps @ [p]) c"
    by (auto simp: compile_function_proto_def split: if_splits)
  from p obtain sub where "proto_chunk p = Some sub" "flow {} {} {} empty_chunk sub"
    using compile_method_proto_sound compile_lexical_proto_sound by (metis (no_types))
  then show ?thesis by (intro that [OF idx c'] sound_protoI)
qed

lemma wp_function:
  assumes "compile_function_proto cs res name params body async lx ret pos c = Inr (idx, c')"
    and "flow F A B c0 c"
  shows "flow F A B c0 (write_u16 idx (write_op OpClosure pos' c'))"
  using assms(1) by (rule compile_function_proto_cases) (simp add: flow_closure [OF assms(2)])

lemma compile_func_expr_flow:
  "compile_func_expr cs res pos n ps ret b a c = Inr c' \<Longrightarrow> flow {} {} {} c c'"
  by (auto simp: compile_func_expr_def intro!: wp_start elim!: wp_function)

lemma compile_func_decl_flow:
  "compile_func_decl cs res pos n ps ret b a c = Inr c' \<Longrightarrow> flow {} {} {} c c'"
  by (auto simp: compile_func_decl_def intro!: wp_writes elim!: wp_function)

lemma compile_arrow_expr_flow:
  "compile_arrow_expr cs res pos ps ret b a c = Inr c' \<Longrightarrow> flow {} {} {} c c'"
  by (auto simp: compile_arrow_expr_def intro!: wp_start elim!: wp_function)

text \<open>Match.\<close>

lemma pattern_test_flow: "compile_pattern_test ce p c = Inr c' \<Longrightarrow> flow {} {} {} c c'"
proof (induction p arbitrary: c c')
  case (POr pos ps)
  let ?f = "\<lambda>alt (to_true, c).
      bind_res (compile_pattern_test ce alt (write_op OpDup (pattern_pos alt) c)) (\<lambda>c.
      case emit_jump_placeholder OpJumpIfTrue (pattern_pos alt) c of
        (patch, c) \<Rightarrow> Inr (to_true @ [patch], c))"
  have loop: "flow F (A - set js \<union> set js0) B c0 c0' \<Longrightarrow> flow F A B c0 c1"
    if "fold_res ?f qs (js0, c0') = Inr (js, c1)" "set qs \<subseteq> set ps" for qs js0 js c0' c1 F A B c0
    using that
  proof (induction qs arbitrary: js0 c0' A)
    case Nil
    then show ?case by (auto elim: flow_weaken)
  next
    case (Cons q qs)
    from Cons.prems(2) obtain d p d' where d: "compile_pattern_test ce q (write_op OpDup (pattern_pos q) c0') = Inr d"
      and j: "emit_jump_placeholder OpJumpIfTrue (pattern_pos q) d = (p, d')"
      and r: "fold_res ?f qs (js0 @ [p], d') = Inr (js, c1)" by auto
    have "flow F (A - set js \<union> set js0) B c0 d"
      by (rule wp_step [OF POr.IH [OF _ d]]) (use Cons.prems in \<open>auto intro!: wp_writes\<close>)
    then have "flow F (A - set js \<union> set (js0 @ [p])) B c0 d'"
      by (intro wp_jump [OF j]) (auto elim: flow_weaken)
    with r Cons.prems(3) show ?case by (intro Cons.IH [OF _ r]) auto
  qed
  from POr.prems show ?case
    by (auto simp: Let_def intro!: wp_writes elim!: wp_jump wp_const loop)
qed (auto intro!: wp_writes elim!: wp_ce wp_jump wp_const)

lemma compile_match_stmts_flow: "compile_match_stmts cs ss c = Inr c' \<Longrightarrow> flow {} {} {} c c'"
proof (induction ss arbitrary: c)
  case (Cons st sts)
  then obtain s where s: "cs st (sts = []) (fresh_state c) = Inr s"
    and r: "compile_match_stmts cs sts (cs_chunk s) = Inr c'" by auto
  have "flow {} {} {} c (cs_chunk s)"
    using cs_sflow [OF s] by (auto simp: sflow_def intro: flow_drop)
  then show ?case using Cons.IH [OF r] by (rule flow_step)
qed (simp add: wp_start)

lemma compile_match_body_flow: "compile_match_body ce cs b c = Inr c' \<Longrightarrow> flow {} {} {} c c'"
  by (auto simp: compile_match_body_def intro!: wp_writes elim!: wp_ce wp_const
      dest: compile_match_stmts_flow split: match_body.splits if_splits)

lemmas wp_match_body = compile_match_body_flow [THEN wp_step]
lemmas wp_pattern_test = pattern_test_flow [THEN wp_step]

lemma wp_pattern_binding:
  "flow F A B c0 c \<Longrightarrow> flow F A B c0 (case p of
     PIdent q name \<Rightarrow> emit_string_operand OpStoreName name q (emit_load_name sn q c) | _ \<Rightarrow> c)"
  by (auto intro!: wp_writes split: pattern.split)

lemma compile_match_arm_wp:
  assumes "compile_match_arm ce cs sn arm (js0, c) = Inr (js, c')"
    and "flow F (A - set js \<union> set js0) B c0 c"
  shows "flow F A B c0 c'"
proof -
  let ?pos = "arm_pos arm"
  let ?bind = "\<lambda>c. if arm_binding_name arm \<noteq> [] then
      emit_string_operand OpStoreName (arm_binding_name arm) (arm_binding_pos arm)
        (emit_load_name sn (arm_binding_pos arm) c) else c"
  let ?pat = "\<lambda>c. case arm_pattern arm of
      PIdent p name \<Rightarrow> emit_string_operand OpStoreName name p (emit_load_name sn p c) | _ \<Rightarrow> c"
  from assms(1) obtain d n d' c2 where
    d: "compile_pattern_test ce (arm_pattern arm) (emit_load_name sn ?pos c) = Inr d"
    and n: "emit_jump_placeholder OpJumpIfFalse ?pos d = (n, d')"
    and b: "(case arm_guard arm of
       Some guard \<Rightarrow> bind_res (ce guard (?bind (?pat d'))) (\<lambda>c.
         case emit_jump_placeholder OpJumpIfFalse (expr_pos guard) c of (guard_failed, c) \<Rightarrow>
         bind_res (compile_match_body ce cs (arm_body arm) c) (\<lambda>c.
         case emit_jump_placeholder OpJump ?pos c of (done_jump, c) \<Rightarrow>
         Inr (js0 @ [done_jump], patch_jump_here guard_failed c)))
     | None \<Rightarrow> bind_res (compile_match_body ce cs (arm_body arm) (?bind (?pat d'))) (\<lambda>c.
         case emit_jump_placeholder OpJump ?pos c of (done_jump, c) \<Rightarrow>
         Inr (js0 @ [done_jump], c))) = Inr (js, c2)"
    and c': "c' = patch_jump_here n c2"
    unfolding compile_match_arm_def Let_def by (auto simp del: split_paired_All)
  have "flow F (insert n (A - set js \<union> set js0)) B c0 d'"
    by (rule wp_jump [OF n opcode_kinds(2)], rule wp_pattern_test [OF d])
      (use assms(2) in \<open>auto intro!: wp_writes elim: flow_weaken\<close>)
  then have "flow F (insert n (A - set js \<union> set js0)) B c0 (?bind (?pat d'))"
    by (auto intro!: wp_writes wp_pattern_binding)
  with b have "flow F (insert n A) B c0 c2"
    by (cases "arm_guard arm")
      (auto intro!: wp_writes elim!: wp_ce wp_jump wp_match_body elim: flow_weaken)
  then show ?thesis unfolding c' by (rule wp_patch_here)
qed

lemma compile_match_flow: "compile_match ce cs pos e arms c = Inr c' \<Longrightarrow> flow {} {} {} c c'"
proof -
  have loop: "flow F (A - set js \<union> set js0) B c0 d \<Longrightarrow> flow F A B c0 d'"
    if "fold_res (compile_match_arm ce cs sn) as (js0, d) = Inr (js, d')" for as sn js0 js d d' F A B c0
    using that
  proof (induction as arbitrary: js0 d)
    case (Cons a as)
    from Cons.prems(2) obtain js1 d1 where a: "compile_match_arm ce cs sn a (js0, d) = Inr (js1, d1)"
      and r: "fold_res (compile_match_arm ce cs sn) as (js1, d1) = Inr (js, d')" by auto
    have "flow F (A - set js \<union> set js1) B c0 d1"
      by (rule compile_match_arm_wp [OF a]) (use Cons.prems(1) in \<open>auto elim: flow_weaken\<close>)
    then show ?case using r by (rule Cons.IH)
  qed (auto elim: flow_weaken)
  assume "compile_match ce cs pos e arms c = Inr c'"
  then show ?thesis
    by (auto simp: compile_match_def Let_def intro!: wp_writes elim!: wp_ce loop)
qed

end

end
