(* ===== verification/Compiler.thy ===== *)
theory Compiler
  imports Compile_Stmt
begin

text \<open>
  The dispatch of the compiler (\<^verbatim>\<open>crates/night24-gts/src/bytecode/compiler_expr.rs\<close>,
  \<^verbatim>\<open>compiler_stmt.rs\<close>) and its entry point \<^verbatim>\<open>compile\<close> (\<^verbatim>\<open>compiler.rs\<close>).

  The dispatch is written in open form and tied by \<open>compile_expr\<close> and \<open>compile_stmt\<close> over a
  depth bound: the recursion follows the syntax except for the sub-expressions of template
  literals, which come out of the parser, so that no measure on the program alone bounds it.
\<close>

section \<open>Dispatch\<close>

text \<open>\<^verbatim>\<open>compile_expr\<close>; a literal is never reached in the second dispatch.\<close>

fun compile_nonliteral ::
  "host \<Rightarrow> resolution_map \<Rightarrow> ecompiler \<Rightarrow> scompiler \<Rightarrow> expr \<Rightarrow> chunk \<Rightarrow> cerr + chunk" where
  "compile_nonliteral h res ce cs (EIdent pos name) c =
     Inr (emit_string_operand OpLoadName name pos c)"
| "compile_nonliteral h res ce cs (EAssign pos op left right) c =
     compile_assign h ce pos op left right c"
| "compile_nonliteral h res ce cs (EMatch pos subject arms) c =
     compile_match ce cs pos subject arms c"
| "compile_nonliteral h res ce cs (EDynamicImport pos src) c = compile_dynamic_import pos src c"
| "compile_nonliteral h res ce cs (EAwait pos val) c = compile_await_expr ce pos val c"
| "compile_nonliteral h res ce cs (EArray pos elements) c = compile_array_lit ce pos elements c"
| "compile_nonliteral h res ce cs (EObject pos properties) c =
     compile_object_lit h ce pos properties c"
| "compile_nonliteral h res ce cs (EPrefix pos op right) c = compile_prefix_expr h ce pos op right c"
| "compile_nonliteral h res ce cs (EInfix pos op left right) c =
     compile_infix_expr h ce pos op left right c"
| "compile_nonliteral h res ce cs (ETernary pos cnd consequent alternate) c =
     compile_ternary ce pos cnd consequent alternate c"
| "compile_nonliteral h res ce cs (ECall pos callee args) c = compile_call h ce pos callee args c"
| "compile_nonliteral h res ce cs (EOptional pos ob prop computed is_call args) c =
     compile_optional h ce pos ob prop computed is_call args c"
| "compile_nonliteral h res ce cs (EMember pos ob prop computed) c =
     compile_member_read h ce pos ob prop computed c"
| "compile_nonliteral h res ce cs (EIndex pos left index) c = compile_index_read ce pos left index c"
| "compile_nonliteral h res ce cs (ENew pos callee args) c = compile_new_expr ce pos callee args c"
| "compile_nonliteral h res ce cs (EThis pos) c = compile_this_expr pos c"
| "compile_nonliteral h res ce cs (ESuper pos meth) c = compile_super_expr pos meth c"
| "compile_nonliteral h res ce cs (EClass d) c = compile_class_expr d c"
| "compile_nonliteral h res ce cs (EFunc pos name params return_t body is_async) c =
     compile_func_expr cs res pos name params return_t body is_async c"
| "compile_nonliteral h res ce cs (EArrow pos params return_t body is_async) c =
     compile_arrow_expr cs res pos params return_t body is_async c"
| "compile_nonliteral h res ce cs (ESpread pos _) c =
     Inl (unsupported pos ''bare spread expression outside array/object/call context'')"
| "compile_nonliteral h res ce cs _ c = Inl CPanic"

definition compile_expr_step ::
  "host \<Rightarrow> resolution_map \<Rightarrow> ecompiler \<Rightarrow> scompiler \<Rightarrow> expr \<Rightarrow> chunk \<Rightarrow> cerr + chunk" where
  "compile_expr_step h res ce cs e c =
     (case compile_literal_expr h ce e c of
        Some result \<Rightarrow> result
      | None \<Rightarrow> compile_nonliteral h res ce cs e c)"

fun compile_stmt_step ::
  "resolution_map \<Rightarrow> ecompiler \<Rightarrow> scompiler \<Rightarrow> stmt \<Rightarrow> bool \<Rightarrow> cstate \<Rightarrow> cerr + cstate" where
  "compile_stmt_step res ce cs (SExpr pos e) keep_value s =
     bind_res (on_chunk (ce e) s) (\<lambda>s.
     Inr (if keep_value then s else emit (write_op OpPop pos) s))"
| "compile_stmt_step res ce cs (SLet pos name binding type_anno val) keep_value s =
     on_chunk (compile_named_or_destructure ce name binding val type_anno False pos) s"
| "compile_stmt_step res ce cs (SVar pos name binding type_anno val) keep_value s =
     on_chunk (compile_named_or_destructure ce name binding val type_anno False pos) s"
| "compile_stmt_step res ce cs (SConst pos name binding type_anno val) keep_value s =
     on_chunk (compile_named_or_destructure ce name binding val type_anno True pos) s"
| "compile_stmt_step res ce cs (SBlock b) keep_value s = compile_stmts cs (block_statements b) s"
| "compile_stmt_step res ce cs (SIf pos cnd consequence alternative) keep_value s =
     compile_if ce cs pos cnd consequence alternative s"
| "compile_stmt_step res ce cs (SWhile pos cnd body) keep_value s =
     compile_while ce cs pos cnd body None s"
| "compile_stmt_step res ce cs (SFor pos init cnd post body) keep_value s =
     compile_for ce cs pos init cnd post body None s"
| "compile_stmt_step res ce cs (SForIn pos name iterable body) keep_value s =
     compile_for_in ce cs name iterable body pos None s"
| "compile_stmt_step res ce cs (SForOf pos name iterable body) keep_value s =
     compile_for_of ce cs name iterable body pos None s"
| "compile_stmt_step res ce cs (SBreak pos label) keep_value s =
     compile_break_continue True label pos s"
| "compile_stmt_step res ce cs (SContinue pos label) keep_value s =
     compile_break_continue False label pos s"
| "compile_stmt_step res ce cs (SLabeled pos label st) keep_value s =
     compile_labeled ce cs label st keep_value s"
| "compile_stmt_step res ce cs (SThrow pos val) keep_value s =
     bind_res (on_chunk (ce val) s) (\<lambda>s. Inr (emit (write_op OpThrow pos) s))"
| "compile_stmt_step res ce cs (STry pos block ctch finalizer) keep_value s =
     compile_try cs pos block ctch finalizer s"
| "compile_stmt_step res ce cs (SImport pos deflt namespace names aliases src) keep_value s =
     Inr (emit (compile_import pos deflt namespace names aliases src) s)"
| "compile_stmt_step res ce cs (SExport pos is_default is_star decl specifiers src) keep_value s =
     compile_export ce cs pos is_default is_star decl specifiers src s"
| "compile_stmt_step res ce cs (SFuncDecl pos name params return_t body is_async) keep_value s =
     on_chunk (compile_func_decl cs res pos name params return_t body is_async) s"
| "compile_stmt_step res ce cs (SClassDecl d) keep_value s = on_chunk (compile_class_decl d) s"
| "compile_stmt_step res ce cs (SReturn pos val) keep_value s = compile_return_stmt ce pos val s"

section \<open>The knot\<close>

fun compile_expr :: "host \<Rightarrow> resolution_map \<Rightarrow> nat \<Rightarrow> expr \<Rightarrow> chunk \<Rightarrow> cerr + chunk"
  and compile_stmt ::
    "host \<Rightarrow> resolution_map \<Rightarrow> nat \<Rightarrow> stmt \<Rightarrow> bool \<Rightarrow> cstate \<Rightarrow> cerr + cstate" where
  "compile_expr h res 0 e c = Inl CFuel"
| "compile_expr h res (Suc n) e c =
     compile_expr_step h res (compile_expr h res n) (compile_stmt h res n) e c"
| "compile_stmt h res 0 st keep_value s = Inl CFuel"
| "compile_stmt h res (Suc n) st keep_value s =
     compile_stmt_step res (compile_expr h res n) (compile_stmt h res n) st keep_value s"

text \<open>\<^verbatim>\<open>compile\<close>, with the depth bound \<open>n\<close>.\<close>

definition compile :: "host \<Rightarrow> nat \<Rightarrow> program \<Rightarrow> cerr + chunk" where
  "compile h n prog =
     bind_res (resolve_program prog) (\<lambda>resolutions.
     bind_res (compile_body (compile_stmt h resolutions n) (prog_body prog)
                 (fresh_state empty_chunk)) (\<lambda>s.
     Inr (write_op OpReturn (prog_pos prog) (cs_chunk s))))"

section \<open>The compiler appends well-formed code\<close>


context compiler
begin

lemma compile_nonliteral_flow: "compile_nonliteral h res ce cs e c = Inr c' \<Longrightarrow> flow {} {} {} c c'"
  by (cases e)
    (auto intro!: wp_writes dest: compile_assign_flow compile_match_flow compile_dynamic_import_flow
      compile_await_expr_flow compile_array_lit_flow compile_object_lit_flow compile_prefix_flow
      compile_infix_flow compile_ternary_flow compile_call_flow compile_optional_flow
      compile_member_read_flow compile_index_read_flow compile_new_expr_flow compile_this_expr_flow
      compile_super_expr_flow compile_class_expr_flow compile_func_expr_flow compile_arrow_expr_flow)

lemma compile_expr_step_flow: "compile_expr_step h res ce cs e c = Inr c' \<Longrightarrow> flow {} {} {} c c'"
  by (auto simp: compile_expr_step_def dest: compile_literal_expr_flow compile_nonliteral_flow
      split: option.splits)

lemma on_chunk_sflow:
  "(\<And>c'. f (cs_chunk s) = Inr c' \<Longrightarrow> flow {} {} {} (cs_chunk s) c') \<Longrightarrow> on_chunk f s = Inr s' \<Longrightarrow> sflow s s'"
  by (auto simp: sflow_def intro: wp_step [OF _ flow_start])

lemma emit_op_sflow: "plain op \<Longrightarrow> sflow s (emit (write_op op pos) s)"
  by (simp add: sflow_def flow_op flow_start)

lemma expr_op_sflow:
  assumes "on_chunk (ce e) s = Inr t" "plain op"
  shows "sflow s t" "sflow s (emit (write_op op pos) t)"
proof -
  show "sflow s t" by (rule on_chunk_sflow [OF ce_flow assms(1)])
  from this emit_op_sflow [OF assms(2)] show "sflow s (emit (write_op op pos) t)" by (rule sflow_trans)
qed

lemma compile_stmt_step_sflow: "compile_stmt_step res ce cs st k s = Inr s' \<Longrightarrow> sflow s s'"
proof (cases st)
  case (SExpr pos e)
  then show "compile_stmt_step res ce cs st k s = Inr s' \<Longrightarrow> ?thesis"
    using on_chunk_sflow [of "ce e" s s', OF ce_flow] expr_op_sflow(2) [where e = e and s = s and op = OpPop and pos = pos]
    by (auto simp del: on_chunk_Inr)
next
  case (SThrow pos e)
  then show "compile_stmt_step res ce cs st k s = Inr s' \<Longrightarrow> ?thesis"
    using on_chunk_sflow [of "ce e" s s', OF ce_flow] expr_op_sflow(2) [where e = e and s = s and op = OpThrow and pos = pos]
    by (auto simp del: on_chunk_Inr)
qed (auto simp del: on_chunk_Inr simp: compile_import_sflow
    intro: on_chunk_sflow [OF compile_named_flow] on_chunk_sflow [OF compile_func_decl_flow]
      on_chunk_sflow [OF compile_class_decl_flow]
    dest: compile_stmts_sflow compile_if_sflow compile_while_sflow compile_for_sflow
      compile_for_in_sflow compile_for_of_sflow compile_break_continue_sflow compile_labeled_sflow
      compile_try_sflow compile_export_sflow compile_return_sflow)

end

lemma compiler_knot: "compiler (compile_expr h res n) (compile_stmt h res n)"
proof (induction n)
  case (Suc n)
  from compiler.compile_expr_step_flow [OF Suc.IH] compiler.compile_stmt_step_sflow [OF Suc.IH]
  show ?case by unfold_locales simp_all
qed (unfold_locales, simp_all)

interpretation knot: compiler "compile_expr h res n" "compile_stmt h res n" for h res n
  by (rule compiler_knot)

section \<open>The compiled program passes the verifier\<close>

lemma compile_flow:
  assumes "compile h n prog = Inr c"
  shows "\<exists>c0. flow {} {} {} empty_chunk c0 \<and> c = write_op OpReturn (prog_pos prog) c0"
proof -
  from assms obtain res s where
    s: "compile_body (compile_stmt h res n) (prog_body prog) (fresh_state empty_chunk) = Inr s"
    and c: "c = write_op OpReturn (prog_pos prog) (cs_chunk s)"
    by (auto simp: compile_def)
  from knot.compile_body_sflow [OF s] have "flow {} {} {} empty_chunk (cs_chunk s)"
    by (auto simp: sflow_def intro: flow_drop)
  with c show ?thesis by blast
qed

lemma compile_sound:
  assumes "compile h n prog = Inr c" "small c"
  shows "sound c"
proof -
  from compile_flow [OF assms(1)] obtain c0 where
    "flow {} {} {} empty_chunk c0" "c = write_op OpReturn (prog_pos prog) c0" by blast
  then have "flow {} {} {} empty_chunk c" by (simp add: flow_op)
  from flowD(1) [OF this assms(2)] show ?thesis by simp
qed

end
