(* ===== verification/Fuel.thy ===== *)
theory Fuel
  imports Compiler "HOL-Library.Sublist"
begin

text \<open>
  The depth bound of the compiler's model is harmless: a bound above the weight of the program
  is never used up. The weight is the size of the syntax, where a template literal counts
  \<open>w\<close> of its text; \<open>w\<close> has to bound the weight of whatever the parser makes of an
  interpolated segment of the literal (\<open>parser_bounded\<close>), since that expression is compiled
  too.

  A second fact is shown on the way: compiling a statement leaves the finalizers of the
  enclosing \<^verbatim>\<open>try\<close> statements as they are, so that the frame a \<^verbatim>\<open>try\<close> pops is its own.
\<close>

section \<open>Weights\<close>

primrec expr_weight :: "(string \<Rightarrow> nat) \<Rightarrow> expr \<Rightarrow> nat"
  and stmt_weight :: "(string \<Rightarrow> nat) \<Rightarrow> stmt \<Rightarrow> nat" where
  "expr_weight w (EIdent _ _) = 1"
| "expr_weight w (ENumber _ _ _ _) = 1"
| "expr_weight w (EString _ _) = 1"
| "expr_weight w (ETemplate _ lit) = 1 + w lit"
| "expr_weight w (ERegexp _ _) = 1"
| "expr_weight w (EBool _ _) = 1"
| "expr_weight w (ENull _) = 1"
| "expr_weight w (EUndefined _) = 1"
| "expr_weight w (EThis _) = 1"
| "expr_weight w (ESuper _ _) = 1"
| "expr_weight w (EArray _ es) = 1 + size_list id (map (expr_weight w) es)"
| "expr_weight w (EObject _ ps) =
     1 + size_list (size_property id) (map (map_property (expr_weight w)) ps)"
| "expr_weight w (EPrefix _ _ e) = 1 + expr_weight w e"
| "expr_weight w (EInfix _ _ l r) =
     1 + expr_weight w l + size_option id (map_option (expr_weight w) r)"
| "expr_weight w (ETernary _ q a b) = 1 + expr_weight w q + expr_weight w a + expr_weight w b"
| "expr_weight w (EAssign _ _ l r) = 1 + expr_weight w l + expr_weight w r"
| "expr_weight w (ECall _ f args) =
     1 + expr_weight w f + size_list id (map (expr_weight w) args)"
| "expr_weight w (EMember _ ob prop _) = 1 + expr_weight w ob + expr_weight w prop"
| "expr_weight w (EIndex _ l i) = 1 + expr_weight w l + expr_weight w i"
| "expr_weight w (EOptional _ ob prop _ _ args) =
     1 + expr_weight w ob + expr_weight w prop + size_list id (map (expr_weight w) args)"
| "expr_weight w (EFunc _ _ ps _ body _) =
     1 + size_list (size_param id) (map (map_param (expr_weight w)) ps)
       + size_block id (map_block (stmt_weight w) body)"
| "expr_weight w (EArrow _ ps _ body _) =
     1 + size_list (size_param id) (map (map_param (expr_weight w)) ps)
       + size_arrow_body id id (map_arrow_body (expr_weight w) (stmt_weight w) body)"
| "expr_weight w (ENew _ f args) =
     1 + expr_weight w f + size_list id (map (expr_weight w) args)"
| "expr_weight w (EAwait _ e) = 1 + expr_weight w e"
| "expr_weight w (ESpread _ e) = 1 + expr_weight w e"
| "expr_weight w (EMatch _ e arms) =
     1 + expr_weight w e
       + size_list (size_match_arm id id) (map (map_match_arm (expr_weight w) (stmt_weight w)) arms)"
| "expr_weight w (EClass d) =
     1 + size_class_decl id id (map_class_decl (expr_weight w) (stmt_weight w) d)"
| "expr_weight w (EDynamicImport _ e) = 1 + expr_weight w e"
| "stmt_weight w (SLet _ _ b _ v) =
     1 + size_option (size_binding_pattern id) (map_option (map_binding_pattern (expr_weight w)) b)
       + size_option id (map_option (expr_weight w) v)"
| "stmt_weight w (SConst _ _ b _ v) =
     1 + size_option (size_binding_pattern id) (map_option (map_binding_pattern (expr_weight w)) b)
       + size_option id (map_option (expr_weight w) v)"
| "stmt_weight w (SVar _ _ b _ v) =
     1 + size_option (size_binding_pattern id) (map_option (map_binding_pattern (expr_weight w)) b)
       + size_option id (map_option (expr_weight w) v)"
| "stmt_weight w (SFuncDecl _ _ ps _ body _) =
     1 + size_list (size_param id) (map (map_param (expr_weight w)) ps)
       + size_block id (map_block (stmt_weight w) body)"
| "stmt_weight w (SClassDecl d) =
     1 + size_class_decl id id (map_class_decl (expr_weight w) (stmt_weight w) d)"
| "stmt_weight w (SBlock b) = 1 + size_block id (map_block (stmt_weight w) b)"
| "stmt_weight w (SIf _ q a b) =
     1 + expr_weight w q + size_block id (map_block (stmt_weight w) a)
       + size_option id (map_option (stmt_weight w) b)"
| "stmt_weight w (SWhile _ q b) =
     1 + expr_weight w q + size_block id (map_block (stmt_weight w) b)"
| "stmt_weight w (SFor _ i q p b) =
     1 + size_option id (map_option (stmt_weight w) i) + size_option id (map_option (expr_weight w) q)
       + size_option id (map_option (expr_weight w) p) + size_block id (map_block (stmt_weight w) b)"
| "stmt_weight w (SForIn _ _ e b) =
     1 + expr_weight w e + size_block id (map_block (stmt_weight w) b)"
| "stmt_weight w (SForOf _ _ e b) =
     1 + expr_weight w e + size_block id (map_block (stmt_weight w) b)"
| "stmt_weight w (SReturn _ v) = 1 + size_option id (map_option (expr_weight w) v)"
| "stmt_weight w (SBreak _ _) = 1"
| "stmt_weight w (SContinue _ _) = 1"
| "stmt_weight w (SThrow _ e) = 1 + expr_weight w e"
| "stmt_weight w (STry _ b c f) =
     1 + size_block id (map_block (stmt_weight w) b)
       + size_option (size_catch_clause id) (map_option (map_catch_clause (stmt_weight w)) c)
       + size_option (size_block id) (map_option (map_block (stmt_weight w)) f)"
| "stmt_weight w (SExpr _ e) = 1 + expr_weight w e"
| "stmt_weight w (SLabeled _ _ s) = 1 + stmt_weight w s"
| "stmt_weight w (SImport _ _ _ _ _ _) = 1"
| "stmt_weight w (SExport _ _ _ d _ _) = 1 + size_option id (map_option (stmt_weight w) d)"

lemmas weight_maps [simp] =
  list.size_gen_o_map [THEN fun_cong, unfolded comp_apply]
  option.size_gen_o_map [THEN fun_cong, unfolded comp_apply]
  block.size_gen_o_map [THEN fun_cong, unfolded comp_apply]
  param.size_gen_o_map [THEN fun_cong, unfolded comp_apply]
  property.size_gen_o_map [THEN fun_cong, unfolded comp_apply]
  binding_pattern.size_gen_o_map [THEN fun_cong, unfolded comp_apply]
  match_arm.size_gen_o_map [THEN fun_cong, unfolded comp_apply]
  arrow_body.size_gen_o_map [THEN fun_cong, unfolded comp_apply]
  catch_clause.size_gen_o_map [THEN fun_cong, unfolded comp_apply]
  class_decl.size_gen_o_map [THEN fun_cong, unfolded comp_apply]

lemmas weight_maps_comp [simp] =
  block.size_gen_o_map param.size_gen_o_map property.size_gen_o_map match_arm.size_gen_o_map
  catch_clause.size_gen_o_map binding_pattern.size_gen_o_map

text \<open>
  What \<open>w\<close> must bound: the weight of the expression that the parser returns for a part of a
  template literal that lies between \<^verbatim>\<open>${\<close> and \<^verbatim>\<open>}\<close>.
\<close>

definition parser_bounded :: "host \<Rightarrow> (string \<Rightarrow> nat) \<Rightarrow> bool" where
  "parser_bounded h w \<longleftrightarrow>
     (\<forall>lit rest k pos e. sublist ([CHR 0x24, CHR 0x7B] @ rest) lit \<longrightarrow> find_template_expr_end rest = Some k \<longrightarrow>
        parse_template_expr h (trim (take k rest)) pos = Inr e \<longrightarrow> expr_weight w e < w lit)"

definition program_weight :: "(string \<Rightarrow> nat) \<Rightarrow> program \<Rightarrow> nat" where
  "program_weight w prog = size_list (stmt_weight w) (prog_body prog)"

section \<open>Results that did not run out of fuel\<close>

definition nf :: "cerr + 'a \<Rightarrow> bool" where
  "nf r \<longleftrightarrow> r \<noteq> Inl CFuel"

lemma nf_simps [simp]: "nf (Inr x)" "nf (Inl CPanic)" "nf (Inl (unsupported pos what))" "nf (Inl (CErr e))"
  by (simp_all add: nf_def unsupported_def)

lemma nf_bind: "nf x \<Longrightarrow> (\<And>y. x = Inr y \<Longrightarrow> nf (g y)) \<Longrightarrow> nf (bind_res x g)"
  by (cases x) (auto simp: nf_def)

lemma nf_fold: "(\<And>x s. x \<in> set xs \<Longrightarrow> nf (f x s)) \<Longrightarrow> nf (fold_res f xs s)"
  by (induction xs arbitrary: s) (auto intro: nf_bind)

lemma nf_pair: "(\<And>a b. p = (a, b) \<Longrightarrow> nf (f a b)) \<Longrightarrow> nf (case p of (a, b) \<Rightarrow> f a b)"
  by (cases p) simp

lemmas nf_rules = nf_bind nf_fold nf_pair

text \<open>The finalizers a state is inside of, and results that keep them.\<close>

definition fins :: "cstate \<Rightarrow> gblock list" where
  "fins s = map ff_finalizer (cs_finals s)"

definition sres :: "gblock list \<Rightarrow> cerr + cstate \<Rightarrow> bool" where
  "sres F r = (case r of Inl e \<Rightarrow> e \<noteq> CFuel | Inr s \<Rightarrow> fins s = F)"

lemma fins_simps [simp]:
  "fins (s\<lparr>cs_chunk := c\<rparr>) = fins s" "fins (emit f s) = fins s" "fins (push_loop l s) = fins s"
  "fins (s\<lparr>cs_loops := ls\<rparr>) = fins s" "fins (fresh_state c) = []"
  "fins (push_final b s) = fins s @ [b]"
  by (simp_all add: fins_def emit_def push_loop_def fresh_state_def push_final_def)

lemma sres_Inr [simp]: "sres F (Inr s) \<longleftrightarrow> fins s = F"
  by (simp add: sres_def)

lemma sres_errors [simp]: "sres F (Inl (unsupported pos what))" "sres F (Inl CPanic)"
  by (simp_all add: sres_def unsupported_def)

lemma sres_bind: "sres F x \<Longrightarrow> (\<And>s. x = Inr s \<Longrightarrow> fins s = F \<Longrightarrow> sres G (g s)) \<Longrightarrow> sres G (bind_res x g)"
  by (cases x) (auto simp: sres_def)

lemma sres_fold:
  "(\<And>x s. x \<in> set xs \<Longrightarrow> fins s = F \<Longrightarrow> sres F (f x s)) \<Longrightarrow> fins s = F \<Longrightarrow> sres F (fold_res f xs s)"
  by (induction xs arbitrary: s) (auto intro: sres_bind)

lemma sres_on_chunk: "nf (f (cs_chunk s)) \<Longrightarrow> fins s = F \<Longrightarrow> sres F (on_chunk f s)"
  by (auto simp: on_chunk_def sres_def nf_def split: sum.split) (metis bind_res_eq_Inl sum.distinct(1))

lemma sres_jump:
  "(\<And>p s'. fins s' = fins s \<Longrightarrow> sres F (g p s')) \<Longrightarrow>
     sres F (case emit_jump op pos s of (p, s') \<Rightarrow> g p s')"
  by (auto simp: emit_jump_def split: prod.split)

lemma sres_pop_loop:
  "(\<And>fr s'. fins s' = fins s \<Longrightarrow> sres F (g fr s')) \<Longrightarrow>
     sres F (bind_res (pop_loop s) (\<lambda>(fr, s'). g fr s'))"
  by (auto simp: pop_loop_def)

lemma sres_nf: "sres F r \<Longrightarrow> nf r"
  by (auto simp: sres_def nf_def split: sum.splits)

lemmas sres_rules = sres_bind sres_on_chunk sres_jump sres_pop_loop

section \<open>Interpolated segments\<close>

lemma concat_sublist: "sublist xs ys \<Longrightarrow> sublist (concat xs) (concat ys)"
  by (auto simp: sublist_def) blast

lemma dropWhile_sublist: "sublist (dropWhile p xs) xs"
  by (metis sublist_append_leftI takeWhile_dropWhile_id)

lemma trim_sublist: "sublist (trim s) s"
proof -
  have "sublist (rev (dropWhile is_ws (rev (dropWhile is_ws (chars_of s))))) (chars_of s)"
    by (metis dropWhile_sublist rev_rev_ident sublist_order.order_trans sublist_rev_right)
  from concat_sublist [OF this] show ?thesis by (simp add: trim_def)
qed

lemma template_inner_sublist: "sublist (template_inner lit) lit"
proof -
  have "sublist (take k (drop 1 lit)) lit" for k
    by (meson sublist_drop sublist_order.order_trans sublist_take)
  then show ?thesis by (simp add: template_inner_def Let_def)
qed

section \<open>The contract\<close>

locale fueled =
  fixes h :: host and w :: "string \<Rightarrow> nat" and ce :: ecompiler and cs :: scompiler and bound :: nat
  assumes parser: "parser_bounded h w"
    and ce_nf: "2 * expr_weight w e + 1 < bound \<Longrightarrow> nf (ce e c)"
    and cs_sres: "2 * stmt_weight w st < bound \<Longrightarrow> fins s = F \<Longrightarrow> sres F (cs st k s)"
begin

lemma args_nf: "2 * size_list (expr_weight w) es + 1 < bound \<Longrightarrow> nf (fold_res ce es c)"
  by (intro nf_fold ce_nf) (auto dest: size_list_member [where f = "expr_weight w"])

lemma segments_nf:
  "sublist s lit \<Longrightarrow> 2 * w lit + 1 < bound \<Longrightarrow> nf (compile_template_segments h ce pos s n c)"
proof (induction "length s" arbitrary: s n c rule: less_induct)
  case less
  show ?case
  proof (cases s)
    case (Cons b bs)
    have step: "nf (compile_template_segments h ce pos r k d)"
      if "length r < length s" "sublist r s" for r k d
      using less that sublist_order.order_trans by blast
    show ?thesis
    proof (cases "starts_with s [CHR 0x24, CHR 0x7B]")
      case True
      have sub: "sublist (drop k bs) s" for k
        using Cons by (metis sublist_Cons_right sublist_drop)
      have rest: "nf (compile_template_segments h ce pos (drop (k + 2) bs) m d)" for k m d
        using sub [of "k + 2"] Cons by (intro step) auto
      from True Cons have "s = [CHR 0x24, CHR 0x7B] @ drop 1 bs" by (cases bs) (auto simp: starts_with_def)
      with less.prems(1) have src: "sublist ([CHR 0x24, CHR 0x7B] @ drop 1 bs) lit" by simp
      have e: "nf (ce e d)" if "find_template_expr_end (drop 1 bs) = Some k"
        "parse_template_expr h (trim (take k (drop 1 bs))) pos = Inr e" for k e d
      proof (rule ce_nf)
        from parser src that have "expr_weight w e < w lit" unfolding parser_bounded_def by blast
        with less.prems(2) show "2 * expr_weight w e + 1 < bound" by simp
      qed
      have p: "nf (parse_template_expr h src pos)" for src
        by (auto simp: parse_template_expr_def Let_def split: option.split prod.split)
      from True rest e p show ?thesis
        unfolding Cons by (auto simp: Let_def intro!: nf_rules split: option.split)
    next
      case False
      obtain tx r where tt: "template_text s = (tx, r)" by force
      have "length r < length s"
        using template_text_consumes [OF tt [unfolded Cons] False [unfolded Cons]] Cons by simp
      moreover have "sublist r s"
        using template_text_append [OF tt] by simp
      ultimately have "nf (compile_template_segments h ce pos r k d)" for k d by (rule step)
      with False tt show ?thesis
        unfolding Cons by (auto simp del: template_text.simps split: option.split prod.split)
    qed
  qed simp
qed

lemma literal_nf:
  "2 * expr_weight w e + 1 < Suc bound \<Longrightarrow> compile_literal_expr h ce e c = Some r \<Longrightarrow> nf r"
proof (cases e)
  case (ETemplate pos lit)
  have "2 * w lit + 1 < bound \<Longrightarrow> nf (compile_template_segments h ce pos (template_inner lit) 0 c)"
    by (rule segments_nf [OF template_inner_sublist])
  with ETemplate show "2 * expr_weight w e + 1 < Suc bound \<Longrightarrow>
      compile_literal_expr h ce e c = Some r \<Longrightarrow> nf r"
    by (auto simp: compile_template_literal_def compile_template_interpolated_def
        compile_template_static_def intro!: nf_rules split: option.split prod.split)
qed (auto simp: compile_string_literal_def compile_regexp_literal_def Let_def
    split: option.split prod.split)

lemma spread_nf: "2 * expr_weight w e + 1 < bound \<Longrightarrow> nf (compile_spread_element ce e c)"
  by (auto simp: compile_spread_element_def intro!: nf_rules ce_nf split: expr.split)

lemma spreads_nf:
  "2 * size_list (expr_weight w) es + 1 < bound \<Longrightarrow> nf (fold_res (compile_spread_element ce) es c)"
  by (intro nf_fold spread_nf) (auto dest: size_list_member [where f = "expr_weight w"])

lemma count_nf: "nf (encode_call_arg_count n r pos)"
  by (simp add: encode_call_arg_count_def)

lemma call_args_nf:
  "2 * size_list (expr_weight w) es + 1 < bound \<Longrightarrow> nf (compile_call_args ce es r pos c)"
  by (auto simp: compile_call_args_def intro!: nf_rules args_nf spreads_nf count_nf)

lemma call_nf:
  assumes "2 * (expr_weight w f + size_list (expr_weight w) es) + 1 < bound"
  shows "nf (compile_call h ce pos f es c)"
proof -
  have "nf (compile_call_callee h ce f c)"
    using assms by (cases f) (auto simp: compile_call_callee_def Let_def intro!: nf_rules ce_nf)
  moreover have "nf (compile_super_constructor_call ce pos es c)"
    using assms by (auto simp: compile_super_constructor_call_def intro!: nf_rules args_nf count_nf)
  ultimately show ?thesis
    using assms by (auto simp: compile_call_def intro!: nf_rules call_args_nf)
qed

lemma compound_nf: "nf (compound_assignment_opcode pos op)"
  by (auto simp: compound_assignment_opcode_def split: option.split)

lemma assign_nf:
  assumes "2 * (expr_weight w t + expr_weight w r) + 1 < bound"
  shows "nf (compile_assign h ce pos op t r c)"
proof -
  have "nf (compile_assign_rhs ce pos op r c)" for c
    using assms by (auto simp: compile_assign_rhs_def intro: ce_nf)
  with assms show ?thesis
    by (cases t) (auto simp: compile_assign_def compile_name_assign_def compile_member_assign_def
        compile_index_assign_def Let_def intro!: nf_rules ce_nf compound_nf)
qed

lemma update_nf:
  "2 * expr_weight w t + 1 < bound \<Longrightarrow> nf (compile_update_operator h ce t pre op pos c)"
  by (cases t) (auto simp: compile_update_operator_def Let_def intro!: nf_rules ce_nf)

lemma prefix_nf: "2 * expr_weight w e + 1 < bound \<Longrightarrow> nf (compile_prefix_expr h ce pos op e c)"
  by (auto simp: compile_prefix_expr_def intro!: nf_rules ce_nf update_nf split: option.split)

lemma infix_nf:
  "2 * (expr_weight w l + size_option (expr_weight w) r) + 1 < bound \<Longrightarrow>
     nf (compile_infix_expr h ce pos op l r c)"
  by (cases r) (auto simp: compile_infix_expr_def compile_and_def compile_or_def
      compile_nullish_coalescing_def Let_def intro!: nf_rules ce_nf update_nf split: option.split)

lemma optional_nf:
  "2 * (expr_weight w ob + expr_weight w prop + size_list (expr_weight w) es) + 1 < bound \<Longrightarrow>
     nf (compile_optional h ce pos ob prop cmp call es c)"
  by (auto simp: compile_optional_def Let_def intro!: nf_rules ce_nf call_args_nf)

lemma key_nf: "nf (object_property_key fmt p)"
  by (auto simp: object_property_key_def Let_def split: expr.split)

lemma object_prop_nf:
  assumes "2 * size_property (expr_weight w) p + 1 < bound"
  shows "nf (compile_object_prop h ce p c)"
  using part_property [of "expr_weight w" p] assms
  by (auto simp: compile_object_prop_def Let_def intro!: nf_rules ce_nf key_nf)

lemma object_nf:
  "2 * size_list (size_property (expr_weight w)) ps + 1 < bound \<Longrightarrow>
     nf (compile_object_lit h ce pos ps c)"
  unfolding compile_object_lit_def
  by (intro nf_fold object_prop_nf) (auto dest: size_list_member [where f = "size_property (expr_weight w)"])

lemma pattern_nf:
  "2 * size_pattern (expr_weight w) p \<le> bound \<Longrightarrow> nf (compile_pattern_test ce p c)"
proof (induction p arbitrary: c)
  case (POr pos ps)
  have "nf (compile_pattern_test ce p c)" if "p \<in> set ps" for p c
    using POr.IH [OF that] POr.prems size_pattern_alternative [OF that, of "expr_weight w" pos] by simp
  then show ?case by (auto simp: Let_def intro!: nf_rules)
qed (auto intro!: nf_rules ce_nf)

section \<open>Functions and match\<close>

lemma body_sres:
  "(\<And>st. st \<in> set sts \<Longrightarrow> 2 * stmt_weight w st < bound) \<Longrightarrow> fins s = F \<Longrightarrow> sres F (compile_body cs sts s)"
  by (induction sts arbitrary: s) (auto intro!: sres_bind cs_sres)

lemma proto_nf:
  "(\<And>st. st \<in> set (block_statements b) \<Longrightarrow> 2 * stmt_weight w st < bound) \<Longrightarrow>
     nf (compile_function_proto cs res name ps b async lex_this rt pos c)"
  unfolding compile_function_proto_def compile_lexical_function_proto_def compile_method_proto_def Let_def
  by (auto intro!: nf_rules sres_nf [OF body_sres])

lemma match_stmts_nf:
  "(\<And>st. st \<in> set sts \<Longrightarrow> 2 * stmt_weight w st < bound) \<Longrightarrow> nf (compile_match_stmts cs sts c)"
  by (induction sts arbitrary: c) (auto intro!: nf_bind sres_nf [OF cs_sres])

lemma match_body_nf:
  assumes "2 * size_match_body (expr_weight w) (stmt_weight w) b + 1 < bound + 2"
  shows "nf (compile_match_body ce cs b c)"
  using assms
  by (cases b) (auto simp: compile_match_body_def intro!: ce_nf match_stmts_nf nf_pair
      dest: part_block_statement [where f = "stmt_weight w"])

lemma match_arm_nf:
  assumes "2 * size_match_arm (expr_weight w) (stmt_weight w) a \<le> bound"
  shows "nf (compile_match_arm ce cs name a acc)"
proof -
  obtain pos p n bp g b where a: "a = MatchArm pos p n bp g b" by (cases a)
  show ?thesis
    using assms
    by (cases g) (auto simp: a compile_match_arm_def Let_def intro!: nf_rules ce_nf pattern_nf match_body_nf
        split: prod.split)
qed

lemma match_nf:
  "2 * (expr_weight w e + size_list (size_match_arm (expr_weight w) (stmt_weight w)) arms) \<le> bound \<Longrightarrow>
     1 + 2 * expr_weight w e < bound \<Longrightarrow> nf (compile_match ce cs pos e arms c)"
  by (auto simp: compile_match_def Let_def intro!: nf_rules ce_nf match_arm_nf
      dest: size_list_member [where f = "size_match_arm (expr_weight w) (stmt_weight w)"])

lemma arrow_statement:
  "st \<in> set (block_statements (arrow_block pos b)) \<Longrightarrow>
     stmt_weight w st \<le> size_arrow_body (expr_weight w) (stmt_weight w) b + 1"
  by (cases b) (auto simp: arrow_block_def dest: part_block_statement [where f = "stmt_weight w"])

lemma expr_step_nf:
  assumes "2 * expr_weight w e + 1 < Suc bound"
  shows "nf (compile_expr_step h res ce cs e c)"
proof -
  have "nf (compile_nonliteral h res ce cs e c)"
    using assms
  proof (cases e)
    case (EFunc pos name ps rt b async)
    with assms show ?thesis
      by (auto simp: compile_func_expr_def intro!: nf_rules proto_nf
          dest: part_block_statement [where f = "stmt_weight w"])
  next
    case (EArrow pos ps rt b async)
    with assms show ?thesis
      by (auto simp: compile_arrow_expr_def intro!: nf_rules proto_nf dest: arrow_statement)
  qed (auto simp: compile_dynamic_import_def compile_await_expr_def compile_array_lit_def
      compile_ternary_def compile_member_read_def compile_index_read_def compile_new_expr_def
      compile_this_expr_def compile_super_expr_def compile_class_expr_def Let_def
      intro!: nf_rules ce_nf args_nf spreads_nf call_nf assign_nf prefix_nf infix_nf optional_nf
        object_nf match_nf split: expr.split)
  with literal_nf [OF assms] show ?thesis
    by (auto simp: compile_expr_step_def split: option.split)
qed

section \<open>Statements\<close>

lemma stmts_sres:
  "(\<And>st. st \<in> set sts \<Longrightarrow> 2 * stmt_weight w st < bound) \<Longrightarrow> fins s = F \<Longrightarrow> sres F (compile_stmts cs sts s)"
  unfolding compile_stmts_def by (intro sres_fold cs_sres) auto

lemma size_block_pos: "0 < size_block f b"
  by (cases b) simp

lemma block_sres:
  "2 * size_block (stmt_weight w) b \<le> bound \<Longrightarrow> fins s = F \<Longrightarrow>
     sres F (compile_stmts cs (block_statements b) s)"
  by (intro stmts_sres) (auto dest: part_block_statement [where f = "stmt_weight w"])

lemma abrupt_sres: "fins s = F \<Longrightarrow> sres F (emit_abrupt_action a pos s)"
proof -
  have frame: "map ff_finalizer (butlast fs) @ [ff_finalizer (last fs)] = map ff_finalizer fs"
    if "fs \<noteq> []" for fs
    using that by (induction fs rule: rev_induct) auto
  show "fins s = F \<Longrightarrow> ?thesis"
    by (cases a; cases "cs_finals s = []") (auto simp: emit_abrupt_action_def record_exit_def emit_jump_def fins_def frame emit_def
        split: prod.split option.split)
qed

lemma return_sres:
  "(\<And>e. v = Some e \<Longrightarrow> 2 * expr_weight w e + 1 < bound) \<Longrightarrow> fins s = F \<Longrightarrow>
     sres F (compile_return_stmt ce pos v s)"
  by (auto simp: compile_return_stmt_def Let_def intro!: sres_rules ce_nf abrupt_sres split: option.split)

lemma break_sres: "fins s = F \<Longrightarrow> sres F (compile_break_continue is_break label pos s)"
  by (auto simp: compile_break_continue_def intro!: abrupt_sres split: option.split)

lemma if_sres:
  "2 * (expr_weight w q + size_block (stmt_weight w) a + size_option (stmt_weight w) b) < bound \<Longrightarrow>
     fins s = F \<Longrightarrow> sres F (compile_if ce cs pos q a b s)"
  by (cases b) (auto simp: compile_if_def intro!: sres_rules ce_nf cs_sres block_sres)

lemma while_sres:
  "2 * (expr_weight w q + size_block (stmt_weight w) b) \<le> bound \<Longrightarrow> fins s = F \<Longrightarrow>
     sres F (compile_while ce cs pos q b label s)"
  using size_block_pos [of "stmt_weight w" b]
  by (auto simp: compile_while_def Let_def intro!: sres_rules ce_nf block_sres)

lemma for_in_sres:
  "2 * (expr_weight w q + size_block (stmt_weight w) b) \<le> bound \<Longrightarrow> fins s = F \<Longrightarrow>
     sres F (compile_for_in ce cs name q b pos label s)"
  using size_block_pos [of "stmt_weight w" b]
  by (auto simp: compile_for_in_def Let_def intro!: sres_rules ce_nf block_sres)

lemma for_of_sres:
  "2 * (expr_weight w q + size_block (stmt_weight w) b) \<le> bound \<Longrightarrow> fins s = F \<Longrightarrow>
     sres F (compile_for_of ce cs name q b pos label s)"
  using size_block_pos [of "stmt_weight w" b]
  by (auto simp: compile_for_of_def Let_def intro!: sres_rules ce_nf block_sres)

lemma for_sres:
  assumes "2 * (size_option (stmt_weight w) i + size_option (expr_weight w) q
      + size_option (expr_weight w) p + size_block (stmt_weight w) b) \<le> bound" "fins s = F"
  shows "sres F (compile_for ce cs pos i q p b label s)"
proof -
  have body: "sres F (bind_res (compile_stmts cs (block_statements b) (push_loop label s)) (\<lambda>s.
      bind_res (pop_loop s) (\<lambda>(frame, s). bind_res (case p of
          Some e \<Rightarrow> bind_res (on_chunk (ce e) s) (\<lambda>s. Inr (emit (write_op OpPop pos) s))
        | None \<Rightarrow> Inr s) (\<lambda>s'. Inr (emit (g frame s) s')))))"
    if "fins s = F" for s g
    using assms(1) that size_block_pos [of "stmt_weight w" b]
    by (cases p) (auto intro!: sres_rules ce_nf block_sres)
  have init: "sres F (case i of Some st \<Rightarrow> cs st False s | None \<Rightarrow> Inr s)"
    using assms size_block_pos [of "stmt_weight w" b] by (auto intro!: cs_sres split: option.split)
  have cnd: "nf (ce e c)" if "q = Some e" for e c
    using assms(1) that size_block_pos [of "stmt_weight w" b] by (auto intro!: ce_nf)
  show ?thesis
  proof (cases q)
    case None
    then show ?thesis
      unfolding compile_for_def Let_def by (simp add: sres_bind [OF init] body)
  next
    case (Some e)
    have jump: "sres F (bind_res (case emit_jump op pos s of (p, s) \<Rightarrow> Inr ([p], s)) G)"
      if "fins s = F" "\<And>p s. fins s = F \<Longrightarrow> sres F (G ([p], s))" for op s G
      using that by (auto simp: emit_jump_def split: prod.split)
    show ?thesis
      unfolding compile_for_def Let_def Some
      by (simp add: bind_res_assoc)
        (intro sres_bind [OF init] sres_bind [OF sres_on_chunk] jump cnd [OF Some]; simp add: body)
  qed
qed

lemma labeled_sres:
  assumes "2 * stmt_weight w st < bound" "fins s = F"
  shows "sres F (compile_labeled ce cs label st k s)"
  using assms cs_sres [OF assms]
  by (cases st) (auto simp: compile_labeled_def
      intro!: while_sres for_sres for_in_sres for_of_sres break_sres)

lemma export_sres:
  assumes "2 * size_option (stmt_weight w) d \<le> bound" "fins s = F"
  shows "sres F (compile_export ce cs pos dflt star d specs src s)"
proof -
  have "sres F (compile_export_decl ce cs pos dflt st s)" if d: "d = Some st" for st
  proof -
    have st: "2 * stmt_weight w st < bound" using assms(1) d by simp
    have "sres F (bind_res (cs st False s) (\<lambda>s. Inr (case exported_decl_name st of
        Some name \<Rightarrow> emit (compile_export_local_name name name pos) s | None \<Rightarrow> s)))"
      by (rule sres_bind [OF cs_sres [OF st assms(2)]]) (simp split: option.split)
    with cs_sres [OF st assms(2)] st assms(2) show ?thesis
      by (cases st) (auto simp: compile_export_decl_def intro!: sres_rules ce_nf)
  qed
  with assms(2) show ?thesis
    by (cases d) (auto simp: compile_export_def intro!: sres_bind)
qed

text \<open>Steps of \<^verbatim>\<open>compile_try\<close> that return a value beside the state.\<close>

lemma bind_res_pair: "bind_res (case p of (a, b) \<Rightarrow> f a b) g = (case p of (a, b) \<Rightarrow> bind_res (f a b) g)"
  by (simp add: case_prod_unfold)

lemma bind_pair:
  assumes "nf x" "\<And>a s. x = Inr (a, s) \<Longrightarrow> fins s = F"
    and "\<And>a s. fins s = F \<Longrightarrow> sres G (g (a, s))"
  shows "sres G (bind_res x g)"
  using assms by (cases x) (auto simp: sres_def nf_def)

lemma catch_ok:
  assumes "2 * size_option (size_catch_clause (stmt_weight w)) ct \<le> bound" "fins s = F"
  shows "nf (compile_catch cs ct s)" "compile_catch cs ct s = Inr (a, s') \<Longrightarrow> fins s' = F"
proof -
  have r: "sres F (compile_stmts cs (block_statements (catch_body x)) (emit f s))" if "ct = Some x" for x f
    using assms that
    by (auto intro!: stmts_sres dest: part_catch_statement [where f = "stmt_weight w"])
  show "nf (compile_catch cs ct s)"
    using sres_nf [OF r] by (auto simp: compile_catch_def Let_def intro!: nf_rules split: option.split)
  have "fins s' = F" if "ct = Some x" "compile_stmts cs (block_statements (catch_body x)) (emit f s) = Inr s'"
    for x f
    using r [OF that(1), of f] that(2) by simp
  then show "compile_catch cs ct s = Inr (a, s') \<Longrightarrow> fins s' = F"
    using assms(2) by (auto simp: compile_catch_def Let_def split: option.splits)
qed

lemma exceptional_sres:
  "2 * size_block (stmt_weight w) b \<le> bound \<Longrightarrow> fins s = F \<Longrightarrow>
     sres F (compile_exceptional_finally cs pos b s)"
  by (auto simp: compile_exceptional_finally_def Let_def intro!: sres_bind block_sres)

lemma pending_exits_sres:
  "2 * size_block (stmt_weight w) (ff_finalizer fr) \<le> bound \<Longrightarrow> fins s = F \<Longrightarrow>
     sres F (emit_pending_finally_exits cs fr s)"
  unfolding emit_pending_finally_exits_def
  by (intro sres_fold sres_bind [OF block_sres] abrupt_sres) auto

lemma finally_ok:
  assumes b: "2 * size_option (size_block (stmt_weight w)) fin \<le> bound"
    and s: "fins s = F @ (case fin of Some f \<Rightarrow> [f] | None \<Rightarrow> [])"
  shows "nf (compile_finally cs pos p fin s) \<and>
    (\<forall>a s'. compile_finally cs pos p fin s = Inr (a, s') \<longrightarrow> fins s' = F)"
proof (cases fin)
  case (Some f)
  define fr where "fr = last (cs_finals s)"
  define s1 where "s1 = s\<lparr>cs_finals := butlast (cs_finals s)\<rparr>"
  have fr: "ff_finalizer fr = f" and s1: "fins s1 = F" and ne: "cs_finals s \<noteq> []"
    using s Some by (auto simp: fr_def s1_def fins_def map_butlast last_map [symmetric] map_eq_append_conv)
  have blk: "2 * size_block (stmt_weight w) f \<le> bound" using b Some by simp
  have "sres F (bind_res (compile_finally cs pos p fin s) (\<lambda>(a, s'). Inr s'))"
    using ne blk fr
    by (simp add: compile_finally_def Some pop_final_def Let_def bind_res_assoc bind_res_pair
        fr_def [symmetric] s1_def [symmetric])
      (rule sres_bind [OF block_sres] sres_jump sres_bind [OF exceptional_sres]
        sres_bind [OF pending_exits_sres] | simp add: s1)+
  then show ?thesis
    by (cases "compile_finally cs pos p fin s") (auto simp: sres_def nf_def)
qed (use s in \<open>auto simp: compile_finally_def\<close>)

lemma try_sres:
  assumes "2 * (size_block (stmt_weight w) b + size_option (size_catch_clause (stmt_weight w)) ct
      + size_option (size_block (stmt_weight w)) fin) \<le> bound" "fins s = F"
  shows "sres F (compile_try cs pos b ct fin s)"
proof -
  let ?s = "case fin of Some f \<Rightarrow> push_final f s | None \<Rightarrow> s"
  let ?F = "F @ (case fin of Some f \<Rightarrow> [f] | None \<Rightarrow> [])"
  have s: "fins ?s = ?F" using assms(2) by (simp split: option.split)
  have parts: "2 * size_option (size_catch_clause (stmt_weight w)) ct \<le> bound"
    "2 * size_option (size_block (stmt_weight w)) fin \<le> bound" using assms(1) by simp_all
  have c: "sres F (bind_res (compile_catch cs ct s) g)"
    if s: "fins s = ?F" and g: "\<And>a s. fins s = ?F \<Longrightarrow> sres F (g (a, s))" for s g
    by (rule bind_pair [where F = ?F]) (simp_all add: catch_ok [OF parts(1) s] g)
  have f: "sres F (bind_res (compile_finally cs pos p fin s) g)"
    if s: "fins s = ?F" and g: "\<And>a s. fins s = F \<Longrightarrow> sres F (g (a, s))" for p s g
    using finally_ok [OF parts(2) s, of pos p] by (intro bind_pair [where F = F]) (simp_all add: g)
  have blk: "2 * size_block (stmt_weight w) b \<le> bound" using assms(1) by simp
  show ?thesis
    unfolding compile_try_def Let_def
  proof (rule sres_bind [OF block_sres [OF blk s]], rule sres_jump)
    fix s1 s2 :: cstate and p :: u32
    assume "fins s1 = ?F" "fins s2 = fins s1"
    then have s2: "fins s2 = ?F" by simp
    show "sres F (bind_res (compile_catch cs ct s2) (\<lambda>(catch_end, s).
        bind_res (compile_finally cs pos p fin s) (\<lambda>(exceptional_finally_ip, s).
        Inr (emit (push_try_regions (here (cs_chunk ?s)) (here (cs_chunk s1)) (here (cs_chunk s2))
          catch_end (ct \<noteq> None) exceptional_finally_ip) s))))"
    proof (rule c [OF s2], unfold prod.case, rule f)
      fix s assume "fins s = ?F" then show "fins s = ?F" .
    qed simp
  qed
qed

lemma initializer_nf:
  "2 * size_option (expr_weight w) v < bound + 2 \<Longrightarrow> (v \<noteq> None \<longrightarrow> 2 * size_option (expr_weight w) v < bound + 1) \<Longrightarrow>
     nf (compile_initializer ce v pos c)"
  by (cases v) (auto simp: compile_initializer_def intro!: ce_nf)

lemma default_nf:
  "(\<And>e. d = Some e \<Longrightarrow> 2 * expr_weight w e + 1 < bound) \<Longrightarrow> nf (emit_default ce d pos c)"
  by (cases d) (auto simp: emit_default_def emit_undefined_replace_def Let_def intro!: nf_rules ce_nf)

lemma array_binding_nf:
  "2 * size_list (size_array_binding_elem (expr_weight w)) els + 1 < bound \<Longrightarrow>
     nf (compile_array_binding ce pos k i els c)"
proof (induction els arbitrary: i c)
  case (Cons el els)
  then show ?case by (cases el) (auto intro!: nf_rules default_nf)
qed simp

lemma object_binding_nf:
  "2 * size_object_binding_elem (expr_weight w) el + 1 < bound \<Longrightarrow>
     nf (compile_object_binding ce pos k el c)"
  by (cases el) (auto simp: compile_object_binding_def intro!: nf_rules default_nf)

lemma binding_nf:
  assumes "2 * (size_option (size_binding_pattern (expr_weight w)) b + size_option (expr_weight w) v)
    + 1 < bound + 2"
  shows "nf (compile_named_or_destructure ce name b v t k pos c)"
proof -
  have v: "nf (compile_initializer ce v pos c)" for c
    using assms by (intro initializer_nf) (auto split: option.splits)
  show ?thesis
  proof (cases b)
    case None
    with v show ?thesis
      by (auto simp: compile_named_or_destructure_def compile_decl_def Let_def intro!: nf_rules
          split: option.split)
  next
    case (Some p)
    have els: "nf (case p of BpArray els \<Rightarrow> compile_array_binding ce pos k 0 els c
        | BpObject els \<Rightarrow> fold_res (compile_object_binding ce pos k) els c)" for c
      using assms Some
      by (cases p) (auto intro!: array_binding_nf nf_fold object_binding_nf
          dest: size_list_member [where f = "size_object_binding_elem (expr_weight w)"])
    from v els Some show ?thesis
      by (auto simp: compile_named_or_destructure_def compile_destructure_def intro!: nf_rules)
  qed
qed

lemma stmt_step_sres:
  assumes "2 * stmt_weight w st < Suc bound" "fins s = F"
  shows "sres F (compile_stmt_step res ce cs st k s)"
  using assms
proof (cases st)
  case (SFuncDecl pos name ps rt b async)
  with assms show ?thesis
    by (auto simp: compile_func_decl_def intro!: sres_on_chunk nf_rules proto_nf
        dest!: part_block_statement [where f = "stmt_weight w"])
next
  case (SClassDecl d)
  with assms show ?thesis by (auto simp: compile_class_decl_def intro!: sres_on_chunk)
next
  case (SReturn pos v)
  with assms show ?thesis by (auto intro!: return_sres)
qed (auto simp: bind_res_assoc intro!: sres_rules ce_nf binding_nf block_sres if_sres while_sres for_sres for_in_sres
    for_of_sres break_sres labeled_sres try_sres export_sres)

end

lemma fueled_knot:
  "parser_bounded h w \<Longrightarrow> fueled h w (compile_expr h res n) (compile_stmt h res n) n"
proof (induction n)
  case 0
  then show ?case by unfold_locales simp_all
next
  case (Suc n)
  note IH = Suc.IH [OF Suc.prems]
  from Suc.prems fueled.expr_step_nf [OF IH] fueled.stmt_step_sres [OF IH]
  show ?case by unfold_locales simp_all
qed

text \<open>The host itself, if its parser respects \<open>w\<close>, and otherwise one whose parser rejects every text.\<close>

definition bounded_host :: "host \<Rightarrow> (string \<Rightarrow> nat) \<Rightarrow> host" where
  "bounded_host h w =
     (if parser_bounded h w then h else h\<lparr>h_parse := (\<lambda>_ _. (program.make default_pos [] [], [''rejected'']))\<rparr>)"

lemma bounded_host_bounded: "parser_bounded (bounded_host h w) w"
  by (auto simp: bounded_host_def parser_bounded_def parse_template_expr_def)

interpretation fuel: fueled "bounded_host h w" w "compile_expr (bounded_host h w) res n"
  "compile_stmt (bounded_host h w) res n" n for h w res n
  by (rule fueled_knot [OF bounded_host_bounded])

text \<open>Every bound above twice the weight of the program is enough.\<close>

lemma compile_nf:
  assumes "parser_bounded h w" "2 * program_weight w prog < n"
  shows "nf (compile h n prog)"
proof -
  have host: "bounded_host h w = h" using assms(1) by (simp add: bounded_host_def)
  obtain res where res: "resolve_program prog = Inr res" using resolve_program_ok by blast
  have "sres [] (compile_body (compile_stmt h res n) (prog_body prog) (fresh_state empty_chunk))"
  proof (rule fuel.body_sres [where h = h and w = w and res = res and n = n, unfolded host])
    fix st assume "st \<in> set (prog_body prog)"
    then show "2 * stmt_weight w st < n"
      using assms(2) size_list_member [of st "prog_body prog" "stmt_weight w"]
      by (simp add: program_weight_def)
  qed simp
  with res show ?thesis
    by (auto simp: compile_def intro!: nf_bind dest: sres_nf)
qed

end
