(* ===== verification/Verified.thy ===== *)
theory Verified
  imports Layout
begin

unbundle bit_operations_syntax

text \<open>
  What the readers of a chunk may rely on: the instructions of a decoded chunk lie end to end;
  in a chunk that passes the verifier the position table assigns every byte of an instruction
  to that instruction; the linear scan for the last opcode finds the last decoded instruction;
  operands read back as they were written and patched; the constant pool interns.
\<close>

section \<open>Instructions lie end to end\<close>

lemma layout_consecutive:
  "layout off bs = Some xs \<Longrightarrow> k < length xs \<Longrightarrow>
     fst (xs ! 0) = off \<and> fst (xs ! k) + 1 + operand_width (fst (snd (xs ! k)))
       = (if Suc k < length xs then fst (xs ! Suc k) else off + length bs)"
proof (induction "length bs" arbitrary: off bs xs k rule: less_induct)
  case less
  show ?case
  proof (cases bs)
    case (Cons b bs')
    from less.prems obtain op ops ds ys where
      d: "b = op_byte op" "bs' = ops @ ds" "length ops = operand_width op"
      "layout (off + 1 + operand_width op) ds = Some ys" "xs = (off, op, ops) # ys"
      unfolding Cons by (auto elim: layout_ConsE)
    have short: "length ds < length bs" using Cons d(2) by simp
    note IH = less.hyps [OF short d(4)]
    show ?thesis
    proof (cases k)
      case 0
      show ?thesis
      proof (cases ys)
        case Nil
        have "ds = []" using d(4) Nil by (cases ds) (auto elim: layout_ConsE)
        with 0 Nil d Cons show ?thesis by simp
      next
        case (Cons y ys')
        with IH [of 0] 0 d show ?thesis by simp
      qed
    next
      case (Suc j)
      then have "j < length ys" using less.prems(2) d(5) by simp
      from IH [OF this] Suc d Cons show ?thesis by (simp add: algebra_simps)
    qed
  qed (use less.prems in simp)
qed

lemma instrs_end:
  assumes "instrs c = Some xs" "k < length xs" "xs ! k = (off, op, ops)"
  shows "Suc k < length xs \<Longrightarrow> off + 1 + operand_width op = fst (xs ! Suc k)"
    and "\<not> Suc k < length xs \<Longrightarrow> off + 1 + operand_width op = length (code c)"
  using layout_consecutive [of 0 "code c" xs k] assms by (auto simp: instrs_def)

lemma instrs_write_op:
  assumes "instrs c = Some xs" "operand_width op = 0"
  shows "instrs (write_op op pos c) = Some (xs @ [(length (code c), op, [])])"
proof -
  have "layout off [op_byte op] = Some [(off, op, [])]" for off
    using layout_cons [of "[]" op off "[]"] assms(2) by simp
  with assms(1) show ?thesis by (simp add: instrs_def chunk_simps layout_append)
qed

section \<open>Positions\<close>

lemma verify_local: "verify c \<Longrightarrow> local_ok c"
  by (simp add: verify_def all_chunks_iff)

lemma local_ok_lines:
  assumes "local_ok c" "instrs c = Some xs"
  shows "map (unat \<circ> line_ip) (lines c) = map fst xs" "lines_inv c"
proof -
  show eq: "map (unat \<circ> line_ip) (lines c) = map fst xs"
    using assms by (simp add: local_ok_def)
  have "sorted_wrt (<) (map (unat \<circ> line_ip) (lines c))"
    unfolding eq using assms(2) layout_sorted by (simp add: instrs_def)
  moreover have "unat (line_ip e) < length (code c)" if "e \<in> set (lines c)" for e
  proof -
    have "unat (line_ip e) \<in> set (map fst xs)" unfolding eq [symmetric] using that by auto
    then obtain op ops where "(unat (line_ip e), op, ops) \<in> set xs" by auto
    with layout_bounds [of 0 "code c" xs] assms(2) show ?thesis by (force simp: instrs_def)
  qed
  ultimately show "lines_inv c"
    by (simp add: lines_inv_def sorted_wrt_map word_less_nat_alt)
qed

lemma position_in_instruction:
  assumes ok: "local_ok c" and small: "length (code c) < 2 ^ 32" and xs: "instrs c = Some xs"
    and k: "k < length xs" "xs ! k = (off, op, ops)"
    and ip: "off \<le> ip" "ip \<le> off + operand_width op"
  shows "position_at c ip = line_pos (lines c ! k)"
proof (rule position_at_owner)
  note eq = local_ok_lines(1) [OF ok xs]
  have len: "length (lines c) = length xs" using arg_cong [OF eq, of length] by simp
  have nth: "unat (line_ip (lines c ! j)) = fst (xs ! j)" if "j < length xs" for j
    using arg_cong [OF eq, of "\<lambda>l. l ! j"] that len by simp
  show "lines_inv c" by (rule local_ok_lines(2) [OF ok xs])
  show "k < length (lines c)" using k(1) len by simp
  show "unat (line_ip (lines c ! k)) \<le> ip" using nth [OF k(1)] k(2) ip(1) by simp
  show "ip < unat (line_ip (lines c ! Suc k))" if "Suc k < length (lines c)"
    using nth [of "Suc k"] that len instrs_end(1) [OF xs k] ip(2) by simp
  have "off + operand_width op < length (code c)"
    using layout_bounds [of 0 "code c" xs off op ops] xs k nth_mem [OF k(1)] by (simp add: instrs_def)
  with ip(2) small show "ip < 2 ^ 32" by simp
qed

section \<open>The last instruction\<close>

lemma last_opcode_layout:
  "layout off bs = Some xs \<Longrightarrow>
     last_opcode bs l = (if xs = [] then l else Some (fst (snd (last xs))))"
proof (induction "length bs" arbitrary: off bs xs l rule: less_induct)
  case less
  show ?case
  proof (cases bs)
    case (Cons b bs')
    from less.prems obtain op ops ds ys where
      d: "b = op_byte op" "bs' = ops @ ds" "length ops = operand_width op"
      "layout (off + 1 + operand_width op) ds = Some ys" "xs = (off, op, ops) # ys"
      unfolding Cons by (auto elim: layout_ConsE)
    have short: "length ds < length bs" using Cons d(2) by simp
    from less.hyps [OF short d(4), of "Some op"] d Cons show ?thesis by simp
  qed (use less.prems in simp)
qed

lemma matches_last_opcode_iff:
  "instrs c = Some xs \<Longrightarrow> matches_last_opcode c op \<longleftrightarrow> xs \<noteq> [] \<and> fst (snd (last xs)) = op"
  by (auto simp: matches_last_opcode_def instrs_def last_opcode_layout)

section \<open>Operands read back\<close>

lemma read_u16_append:
  "code c = pre @ be16 v @ post \<Longrightarrow> read_u16 c (length pre) = Some v"
  using word16_be16 [of v] by (simp add: read_u16_def be16_def word16_of_def nth_append)

lemma read_u32_append:
  "code c = pre @ be32 v @ post \<Longrightarrow> read_u32 c (length pre) = Some v"
  using word32_be32 [of v] by (simp add: read_u32_def be32_def word32_of_def nth_append)

lemma patch_reads_back:
  assumes "unat ip + 4 \<le> length (code c)"
  shows "read_u32 (patch_jump_to ip t c) (unat ip) = Some t"
    and "j < unat ip \<or> unat ip + 4 \<le> j \<Longrightarrow> code (patch_jump_to ip t c) ! j = code c ! j"
proof -
  obtain pre old post where c: "code c = pre @ old @ post" "length pre = unat ip" "length old = 4"
  proof
    show "code c = take (unat ip) (code c) @ take 4 (drop (unat ip) (code c)) @ drop (unat ip + 4) (code c)"
      by (metis append_take_drop_id drop_drop add.commute)
  qed (use assms in auto)
  have p: "code (patch_jump_to ip t c) = pre @ be32 t @ post"
    using update_four [OF c(3) length_be32 [of t] c(2) [symmetric], of post]
    by (simp add: code_patch_jump_to c(1))
  from read_u32_append [OF p] c(2) show "read_u32 (patch_jump_to ip t c) (unat ip) = Some t" by simp
  show "code (patch_jump_to ip t c) ! j = code c ! j" if "j < unat ip \<or> unat ip + 4 \<le> j"
    using that c by (auto simp: p c(1) nth_append)
qed

section \<open>Interning\<close>

lemma pool_no_duplicates:
  assumes "pool_inv c" "length (constants c) \<le> 2 ^ 16"
    and "i < j" "j < length (constants c)" "key_of (constants c ! i) \<noteq> None"
  shows "\<not> obj_eq (constants c ! i) (constants c ! j)"
proof
  assume eq: "obj_eq (constants c ! i) (constants c ! j)"
  from assms(5) obtain k where k: "key_of (constants c ! i) = Some k" by blast
  with eq have "key_of (constants c ! j) = Some k" using key_of_obj_eq by blast
  from pool_invD2 [OF assms(1,4) this] have "const_index c k = Some (of_nat j)" .
  moreover have "const_index c k = Some (of_nat i)"
    using pool_invD2 [OF assms(1) _ k] assms(3,4) by simp
  ultimately have "(of_nat i :: u16) = of_nat j" by simp
  then have "unat (of_nat i :: u16) = unat (of_nat j :: u16)" by simp
  with assms(2-4) show False by simp
qed

section \<open>The constant flag\<close>

lemma flag_disjoint: "(v AND 0x7FFF) AND 0x8000 = (0 :: u16)"
proof -
  have "(v AND 0x7FFF) AND 0x8000 = v AND (0x7FFF AND 0x8000)" by (rule word_bw_assocs)
  then show ?thesis by simp
qed

lemma decl_name_operand_reads_back:
  assumes "pool_inv c" "length (constants c) < 2 ^ 15"
    and "decl_name_operand name is_const c = (operand, c')"
  shows "constants c' ! unat (operand AND 0x7FFF) = OString name"
    and "operand AND 0x8000 \<noteq> 0 \<longleftrightarrow> is_const"
proof -
  obtain i c1 where i: "add_constant (OString name) c = (i, c1)" by force
  from assms(3) i have o: "operand = (if is_const then i OR 0x8000 else i)" and c': "c' = c1"
    by (auto simp: decl_name_operand_def)
  have lt: "unat i < 2 ^ 15"
  proof (cases "const_index c (KString name)")
    case (Some j)
    with i have "i = j" by (simp add: add_constant_def)
    with pool_invD1 [OF assms(1) Some] assms(2) show ?thesis by simp
  next
    case None
    with i have "i = of_nat (length (constants c))" by (simp add: add_constant_def Let_def)
    with assms(2) show ?thesis by simp
  qed
  show "constants c' ! unat (operand AND 0x7FFF) = OString name"
    using add_constant_string [OF assms(1) _ i] assms(2) lt
    by (simp add: o c' low_bits low_bits_flag)
  have "i AND 0x8000 = 0"
    using low_bits [OF lt] by (metis flag_disjoint)
  moreover have "(i OR 0x8000) AND 0x8000 = (0x8000 :: u16)"
    by (simp add: word_ao_dist2 word_bw_comms)
  ultimately show "operand AND 0x8000 \<noteq> 0 \<longleftrightarrow> is_const"
    by (simp add: o)
qed

end
