(* ===== verification/Value_Facts.thy ===== *)
theory Value_Facts
  imports Compile_Expr
begin

unbundle bit_operations_syntax

text \<open>
  Facts about the small data the compiler and the VM share: the count operand of calls, the
  parameter metadata of prototypes, the printing of numbers, the evaluation of literals.
\<close>

section \<open>Calls and parameters\<close>

lemma and_mask_of_or:
  assumes "unat (n :: u16) < 2 ^ 15"
  shows "n AND 0x8000 = 0" "(n OR 0x8000) AND 0x8000 = (0x8000 :: u16)"
proof -
  have "n AND 0x8000 = (n AND 0x7FFF) AND 0x8000" using low_bits [OF assms] by simp
  also have "\<dots> = n AND (0x7FFF AND 0x8000)" by (rule word_bw_assocs)
  finally show "n AND 0x8000 = 0" by simp
  show "(n OR 0x8000) AND 0x8000 = (0x8000 :: u16)" by (simp add: word_ao_dist2 word_bw_comms)
qed

lemma split_flag: "(m :: u16) = (m AND 0x7FFF) OR (m AND 0x8000)"
proof -
  have "(m AND 0x7FFF) OR (m AND 0x8000) = m AND 65535" by (simp add: word_ao_dist2 [symmetric])
  also have "(65535 :: u16) = - 1" by simp
  finally show ?thesis by simp
qed

lemma flag_cases: "(m :: u16) AND 0x8000 = 0 \<or> m AND 0x8000 = 0x8000"
proof -
  have "m AND 2 ^ 15 = 0 \<or> m AND 2 ^ 15 = (2 ^ 15 :: u16)"
  proof (cases "bit m 15")
    case True
    have "m AND 2 ^ 15 = 2 ^ 15"
      by (rule bit_word_eqI) (simp only: bit_and_iff bit_exp_iff, use True in auto)
    then show ?thesis ..
  next
    case False
    have "m AND 2 ^ 15 = 0"
      by (rule bit_word_eqI) (simp only: bit_and_iff bit_exp_iff bit_0_eq, use False in auto)
    then show ?thesis ..
  qed
  then show ?thesis by simp
qed

lemma encode_call_arg_count_iff:
  "encode_call_arg_count n has_this pos = Inr m \<longleftrightarrow>
     unat n < 2 ^ 15 \<and> m AND 0x7FFF = n \<and> (m AND 0x8000 \<noteq> 0 \<longleftrightarrow> has_this)"
proof -
  have guard: "0x7FFF < n \<longleftrightarrow> \<not> unat n < 2 ^ 15"
    by (simp add: word_less_nat_alt) linarith
  show ?thesis
  proof
    assume e: "encode_call_arg_count n has_this pos = Inr m"
    then have n: "unat n < 2 ^ 15" and m: "m = n OR (if has_this then 0x8000 else 0)"
      using guard by (auto simp: encode_call_arg_count_def split: if_splits)
    show "unat n < 2 ^ 15 \<and> m AND 0x7FFF = n \<and> (m AND 0x8000 \<noteq> 0 \<longleftrightarrow> has_this)"
      using n low_bits [OF n] low_bits_flag [OF n] and_mask_of_or [OF n] by (simp add: m)
  next
    assume r: "unat n < 2 ^ 15 \<and> m AND 0x7FFF = n \<and> (m AND 0x8000 \<noteq> 0 \<longleftrightarrow> has_this)"
    then have "m = n OR (if has_this then 0x8000 else 0)"
      using split_flag [of m] flag_cases [of m] by auto
    with r guard show "encode_call_arg_count n has_this pos = Inr m"
      by (simp add: encode_call_arg_count_def)
  qed
qed

lemma param_slots_facts:
  "map ps_name (build_param_slots ps) = map param_name ps \<and>
   map ps_slot (build_param_slots ps) = map of_nat [0..<length ps] \<and>
   required_arity ps \<le> length ps \<and>
   list_all (\<lambda>s. \<not> ps_has_default s \<and> \<not> ps_is_rest s \<and> \<not> ps_optional s)
     (take (required_arity ps) (build_param_slots ps))"
proof (intro conjI)
  let ?plain = "\<lambda>p. \<not> param_spread p \<and> \<not> param_optional p \<and> param_default p = None"
  show "map ps_name (build_param_slots ps) = map param_name ps"
    by (rule nth_equalityI) (simp_all add: build_param_slots_def nth_enumerate_eq)
  show "map ps_slot (build_param_slots ps) = map of_nat [0..<length ps]"
    by (rule nth_equalityI) (simp_all add: build_param_slots_def nth_enumerate_eq)
  show "required_arity ps \<le> length ps"
    by (simp add: required_arity_def length_takeWhile_le)
  have "\<not> ps_has_default (build_param_slots ps ! i) \<and> \<not> ps_is_rest (build_param_slots ps ! i) \<and>
      \<not> ps_optional (build_param_slots ps ! i)" if "i < required_arity ps" for i
  proof -
    have "i < length ps" using that length_takeWhile_le [of ?plain ps] by (simp add: required_arity_def)
    moreover have "?plain (ps ! i)"
      using that nth_mem [of i "takeWhile ?plain ps"] set_takeWhileD [of "ps ! i" ?plain ps]
      by (simp add: required_arity_def takeWhile_nth)
    ultimately show ?thesis by (simp add: build_param_slots_def nth_enumerate_eq)
  qed
  then show "list_all (\<lambda>s. \<not> ps_has_default s \<and> \<not> ps_is_rest s \<and> \<not> ps_optional s)
      (take (required_arity ps) (build_param_slots ps))"
    by (auto simp: list_all_length)
qed

section \<open>Numbers\<close>

lemma format_number_saturates:
  assumes "\<not> is_nan n" "\<not> is_infinite n" "f64_is_integral n" "\<not> f64_neg n"
    and "2 ^ 63 \<le> f64_trunc_nat n" "f64_trunc_nat n < 10 ^ 21"
  shows "format_number fmt n = ''9223372036854775807''"
proof -
  have "f64_as_i64 n = 9223372036854775807"
    using assms(1,2,4,5) by (simp add: f64_as_i64_def f64_trunc_int_def)
  moreover have "show_nat 9223372036854775807 = ''9223372036854775807''"
    by (simp add: show_nat.simps) code_simp
  ultimately show ?thesis
    using assms by (simp add: format_number_def show_int_def)
qed

section \<open>Literals\<close>

lemma eval_plain_literal:
  assumes "CHR 0x5C \<notin> set s" "\<forall>c\<in>set s. \<not> is_cont c" "\<not> is_cont q"
  shows "eval_string_lit (q # s @ [q]) = Some (OString s)"
proof -
  have "is_char_boundary (q # s @ [q]) 1"
    using assms(2,3) by (cases s) (auto simp: is_char_boundary_def)
  moreover have "is_char_boundary (q # s @ [q]) (Suc (length s))"
    using assms(3) by (auto simp: is_char_boundary_def nth_append)
  ultimately show ?thesis
    using unescape_plain [OF assms(1,2)] by (simp add: eval_string_lit_def str_slice_def)
qed

lemma unescape_multibyte:
  assumes "is_cont b2" "192 \<le> (of_char b1 :: nat)"
  shows "unescape_string (CHR 0x5C # b1 # b2 # rest) = None"
proof -
  have "b1 \<notin> fst ` set simple_escapes" "b1 \<noteq> CHR ''x''" "b1 \<noteq> CHR ''u''"
    using assms(2) by (auto simp: simple_escapes_def)
  then have "escape_at b1 (b2 # rest) = (utf8_encode (of_char b1), 1)"
    by (simp add: escape_at_def map_of_eq_None_iff [THEN iffD2])
  moreover have "b2 \<noteq> CHR 0x5C" using assms(1) by (auto simp: is_cont_def)
  then have "unescape_string (b2 # rest) = None"
    using assms(1) by (cases rest) auto
  ultimately show ?thesis by simp
qed

lemma unescape_first_escape:
  assumes "is_cont b2" "192 \<le> (of_char b1 :: nat)"
  shows "CHR 0x5C \<notin> set p \<Longrightarrow> unescape_string (p @ CHR 0x5C # b1 # b2 # rest) = None"
proof (induction "length p" arbitrary: p rule: less_induct)
  case less
  show ?case
  proof (cases p)
    case Nil
    then show ?thesis using unescape_multibyte [OF assms] by simp
  next
    case (Cons b q)
    let ?t = "CHR 0x5C # b1 # b2 # rest"
    have b: "b \<noteq> CHR 0x5C" "CHR 0x5C \<notin> set q" using less.prems Cons by auto
    have cont: "\<not> is_cont (CHR 0x5C)" by (simp add: is_cont_def)
    then have drop: "dropWhile is_cont (q @ ?t) = dropWhile is_cont q @ ?t" by (induction q) auto
    have "unescape_string (dropWhile is_cont q @ ?t) = None"
      by (rule less.hyps) (use Cons b(2) set_dropWhileD [of _ is_cont q] in \<open>auto simp: less_Suc_eq_le length_dropWhile_le\<close>)
    with b(1) drop show ?thesis
      by (cases "q @ ?t") (auto simp: Cons)
  qed
qed

lemma literal_of_panicking: "unescape_string m = None \<Longrightarrow> eval_string_lit (q # m @ [q']) = None"
  by (auto simp: eval_string_lit_def str_slice_def split: option.split)

end
