(* ===== verification/Tables.thy ===== *)
theory Tables
  imports Gts_Object
begin

text \<open>
  The keyed storage of objects, \<^verbatim>\<open>Map\<close>s and \<^verbatim>\<open>Set\<close>s (\<^verbatim>\<open>HashData\<close>, \<^verbatim>\<open>MapData\<close> and \<^verbatim>\<open>SetData\<close> of
  \<^verbatim>\<open>crates/night24-gts/src/object/value.rs\<close>): vectors of entries in order of first insertion,
  searched linearly. A \<^verbatim>\<open>Map\<close> and a \<^verbatim>\<open>Set\<close> compare keys by the text \<^verbatim>\<open>inspect()\<close> gives; the
  operations take that function (it reads the heap) as the argument \<open>insp\<close>.

  The locale \<open>ordered_table\<close> states what the three have in common, \<open>ordered_map\<close> adds lookup.
  Inside, sequences of operations are shown to keep keys distinct, to list them in order of
  first insertion, and to refine operations on a finite map.
\<close>

section \<open>Objects\<close>

record hash_data =
  h_entries :: "(string \<times> obj) list"
  h_proto :: "obj option"
  h_frozen :: bool
  h_sealed :: bool

definition empty_hash :: hash_data where
  "empty_hash = \<lparr>h_entries = [], h_proto = None, h_frozen = False, h_sealed = False\<rparr>"

text \<open>\<^verbatim>\<open>iter().find(|(k, _)| k == key)\<close> on entries.\<close>

definition hash_get :: "string \<Rightarrow> hash_data \<Rightarrow> obj option" where
  "hash_get key h = map_option snd (find (\<lambda>e. fst e = key) (h_entries h))"

text \<open>\<^verbatim>\<open>if let Some(slot) = iter_mut().find(..) { slot.1 = value } else { push }\<close>.\<close>

fun put_entry :: "string \<Rightarrow> 'v \<Rightarrow> (string \<times> 'v) list \<Rightarrow> (string \<times> 'v) list" where
  "put_entry key v [] = [(key, v)]"
| "put_entry key v ((k, x) # es) = (if k = key then (k, v) # es else (k, x) # put_entry key v es)"

text \<open>\<^verbatim>\<open>iter().position(..)\<close> followed by \<^verbatim>\<open>remove(pos)\<close>.\<close>

fun remove_entry :: "string \<Rightarrow> (string \<times> 'v) list \<Rightarrow> (string \<times> 'v) list" where
  "remove_entry key [] = []"
| "remove_entry key ((k, x) # es) = (if k = key then es else (k, x) # remove_entry key es)"

definition hash_set :: "string \<Rightarrow> obj \<Rightarrow> hash_data \<Rightarrow> hash_data" where
  "hash_set key v h = h\<lparr>h_entries := put_entry key v (h_entries h)\<rparr>"

definition hash_contains :: "string \<Rightarrow> hash_data \<Rightarrow> bool" where
  "hash_contains key h = list_ex (\<lambda>e. fst e = key) (h_entries h)"

definition hash_remove :: "string \<Rightarrow> hash_data \<Rightarrow> obj option \<times> hash_data" where
  "hash_remove key h =
     (case hash_get key h of
        None \<Rightarrow> (None, h)
      | Some v \<Rightarrow> (Some v, h\<lparr>h_entries := remove_entry key (h_entries h)\<rparr>))"

section \<open>Maps and sets\<close>

text \<open>An entry of a \<^verbatim>\<open>Map\<close> is the key's text, the key, the value.\<close>

type_synonym map_data = "(string \<times> obj \<times> obj) list"
type_synonym set_data = "(string \<times> obj) list"

fun update_map_entry :: "string \<Rightarrow> obj \<Rightarrow> obj \<Rightarrow> map_data \<Rightarrow> map_data" where
  "update_map_entry s key v [] = [(s, key, v)]"
| "update_map_entry s key v ((t, k, x) # es) =
     (if t = s then (t, k, v) # es else (t, k, x) # update_map_entry s key v es)"

definition map_set :: "(obj \<Rightarrow> string) \<Rightarrow> obj \<Rightarrow> obj \<Rightarrow> map_data \<Rightarrow> map_data" where
  "map_set insp key v m = update_map_entry (insp key) key v m"

definition map_get :: "(obj \<Rightarrow> string) \<Rightarrow> obj \<Rightarrow> map_data \<Rightarrow> obj option" where
  "map_get insp key m = map_option (\<lambda>e. snd (snd e)) (find (\<lambda>e. fst e = insp key) m)"

definition map_has :: "(obj \<Rightarrow> string) \<Rightarrow> obj \<Rightarrow> map_data \<Rightarrow> bool" where
  "map_has insp key m = list_ex (\<lambda>e. fst e = insp key) m"

definition map_delete :: "(obj \<Rightarrow> string) \<Rightarrow> obj \<Rightarrow> map_data \<Rightarrow> bool \<times> map_data" where
  "map_delete insp key m =
     (if map_has insp key m then (True, remove_entry (insp key) m) else (False, m))"

definition map_size :: "map_data \<Rightarrow> nat" where
  "map_size m = length m"

definition map_clear :: "map_data \<Rightarrow> map_data" where
  "map_clear m = []"

definition set_has :: "(obj \<Rightarrow> string) \<Rightarrow> obj \<Rightarrow> set_data \<Rightarrow> bool" where
  "set_has insp v s = list_ex (\<lambda>e. fst e = insp v) s"

definition set_add :: "(obj \<Rightarrow> string) \<Rightarrow> obj \<Rightarrow> set_data \<Rightarrow> set_data" where
  "set_add insp v s = (if set_has insp v s then s else s @ [(insp v, v)])"

definition set_delete :: "(obj \<Rightarrow> string) \<Rightarrow> obj \<Rightarrow> set_data \<Rightarrow> bool \<times> set_data" where
  "set_delete insp v s =
     (if set_has insp v s then (True, remove_entry (insp v) s) else (False, s))"

definition set_size :: "set_data \<Rightarrow> nat" where
  "set_size s = length s"

definition set_clear :: "set_data \<Rightarrow> set_data" where
  "set_clear s = []"

section \<open>Entries and their keys\<close>

abbreviation keys_of :: "(string \<times> 'v) list \<Rightarrow> string list" where
  "keys_of es \<equiv> map fst es"

lemma find_map_of: "map_option snd (find (\<lambda>e. fst e = k) es) = map_of es k"
  by (induction es) auto

lemma list_ex_keys: "list_ex (\<lambda>e. fst e = k) es \<longleftrightarrow> k \<in> set (keys_of es)"
  by (induction es) auto

lemma keys_put_entry:
  "keys_of (put_entry k v es) = (if k \<in> set (keys_of es) then keys_of es else keys_of es @ [k])"
  by (induction k v es rule: put_entry.induct) auto

lemma map_of_put_entry: "map_of (put_entry k v es) = (map_of es)(k \<mapsto> v)"
  by (induction k v es rule: put_entry.induct) (auto simp: fun_eq_iff)

lemma keys_remove_entry: "keys_of (remove_entry k es) = remove1 k (keys_of es)"
  by (induction k es rule: remove_entry.induct) auto

lemma map_of_remove_entry:
  "distinct (keys_of es) \<Longrightarrow> map_of (remove_entry k es) = (map_of es)(k := None)"
proof (induction k es rule: remove_entry.induct)
  case (2 key k x es)
  then show ?case by (cases "k = key") (auto simp: fun_eq_iff map_of_eq_None_iff [symmetric])
qed auto

lemma keys_update_map_entry:
  "keys_of (update_map_entry s k v es) = (if s \<in> set (keys_of es) then keys_of es else keys_of es @ [s])"
  by (induction s k v es rule: update_map_entry.induct) auto

lemma lookup_update_map_entry:
  "map_option snd (map_of (update_map_entry s k v es) t) =
     (if t = s then Some v else map_option snd (map_of es t))"
  by (induction s k v es rule: update_map_entry.induct) auto

text \<open>The elements of a list in order of their first occurrence.\<close>

fun first_occ :: "'a list \<Rightarrow> 'a list" where
  "first_occ [] = []"
| "first_occ (x # xs) = x # first_occ (filter (\<lambda>y. y \<noteq> x) xs)"

lemma first_occ_set [simp]: "set (first_occ xs) = set xs"
  by (induction xs rule: first_occ.induct) auto

lemma distinct_first_occ [simp]: "distinct (first_occ xs)"
  by (induction xs rule: first_occ.induct) auto

lemma first_occ_snoc: "first_occ (xs @ [x]) = first_occ xs @ (if x \<in> set xs then [] else [x])"
  by (induction xs rule: first_occ.induct) auto

lemma find_snoc: "find P (vs @ [v]) = (case find P vs of Some w \<Rightarrow> Some w | None \<Rightarrow> if P v then Some v else None)"
  by (induction vs) auto

lemma find_image: "k \<in> f ` set vs \<Longrightarrow> \<exists>w. find (\<lambda>v. f v = k) vs = Some w \<and> f w = k"
  by (induction vs) auto

section \<open>What the tables promise\<close>

text \<open>A table operation inserts an item or deletes a key.\<close>

datatype ('x, 'k) table_op = Put 'x | Del 'k

fun apply_op :: "('x \<Rightarrow> 't \<Rightarrow> 't) \<Rightarrow> ('k \<Rightarrow> 't \<Rightarrow> 't) \<Rightarrow> ('x, 'k) table_op \<Rightarrow> 't \<Rightarrow> 't" where
  "apply_op put del (Put x) = put x"
| "apply_op put del (Del k) = del k"

text \<open>The same operation on a finite map, with \<open>kx\<close> and \<open>dk\<close> the keys of items and of deletions.\<close>

fun spec_op ::
  "('x \<Rightarrow> string) \<Rightarrow> ('x \<Rightarrow> 'v) \<Rightarrow> ('k \<Rightarrow> string) \<Rightarrow> ('x, 'k) table_op \<Rightarrow> (string \<rightharpoonup> 'v) \<Rightarrow> string \<rightharpoonup> 'v" where
  "spec_op kx vx dk (Put x) m = m(kx x \<mapsto> vx x)"
| "spec_op kx vx dk (Del k) m = m(dk k := None)"

fun spec_key_op ::
  "('x \<Rightarrow> string) \<Rightarrow> ('k \<Rightarrow> string) \<Rightarrow> ('x, 'k) table_op \<Rightarrow> string set \<Rightarrow> string set" where
  "spec_key_op kx dk (Put x) K = insert (kx x) K"
| "spec_key_op kx dk (Del k) K = K - {dk k}"

locale ordered_table =
  fixes keys :: "'t \<Rightarrow> string list"
    and put :: "'x \<Rightarrow> 't \<Rightarrow> 't"
    and del :: "'k \<Rightarrow> 't \<Rightarrow> 't"
    and kx :: "'x \<Rightarrow> string"
    and dk :: "'k \<Rightarrow> string"
  assumes keys_put: "keys (put x t) = (if kx x \<in> set (keys t) then keys t else keys t @ [kx x])"
    and keys_del: "keys (del k t) = remove1 (dk k) (keys t)"
begin

lemma distinct_op: "distinct (keys t) \<Longrightarrow> distinct (keys (apply_op put del op t))"
  by (cases op) (auto simp: keys_put keys_del)

lemma distinct_run: "distinct (keys t) \<Longrightarrow> distinct (keys (fold (apply_op put del) ops t))"
  by (induction ops arbitrary: t) (auto simp: distinct_op)

lemma key_set_run:
  "distinct (keys t) \<Longrightarrow>
     set (keys (fold (apply_op put del) ops t)) = fold (spec_key_op kx dk) ops (set (keys t))"
proof (induction ops arbitrary: t)
  case (Cons op ops)
  have "set (keys (apply_op put del op t)) = spec_key_op kx dk op (set (keys t))"
    using Cons.prems by (cases op) (auto simp: keys_put keys_del)
  with Cons.IH [OF distinct_op [OF Cons.prems]] show ?case by simp
qed simp

lemma keys_puts:
  "keys (fold put xs t) = keys t @ first_occ (filter (\<lambda>k. k \<notin> set (keys t)) (map kx xs))"
proof (induction xs arbitrary: t)
  case (Cons x xs)
  then show ?case
    by (auto simp: keys_put Cons filter_filter intro!: arg_cong [where f = first_occ] filter_cong)
qed simp

end

locale ordered_map = ordered_table keys put del kx dk
  for keys :: "'t \<Rightarrow> string list"
    and put :: "'x \<Rightarrow> 't \<Rightarrow> 't"
    and del :: "'k \<Rightarrow> 't \<Rightarrow> 't"
    and kx :: "'x \<Rightarrow> string"
    and dk :: "'k \<Rightarrow> string" +
  fixes look :: "'t \<Rightarrow> string \<Rightarrow> 'v option"
    and vx :: "'x \<Rightarrow> 'v"
  assumes look_put: "look (put x t) = (look t)(kx x \<mapsto> vx x)"
    and look_del: "distinct (keys t) \<Longrightarrow> look (del k t) = (look t)(dk k := None)"
    and look_None: "look t s = None \<longleftrightarrow> s \<notin> set (keys t)"
begin

lemma refines_map:
  "distinct (keys t) \<Longrightarrow>
     look (fold (apply_op put del) ops t) = fold (spec_op kx vx dk) ops (look t)"
proof (induction ops arbitrary: t)
  case (Cons op ops)
  have "look (apply_op put del op t) = spec_op kx vx dk op (look t)"
    using Cons.prems by (cases op) (auto simp: look_put look_del)
  with Cons.IH [OF distinct_op [OF Cons.prems]] show ?case by simp
qed simp

end

section \<open>The code's tables\<close>

abbreviation hash_keys :: "hash_data \<Rightarrow> string list" where
  "hash_keys h \<equiv> keys_of (h_entries h)"

lemma hash_get_map_of: "hash_get k h = map_of (h_entries h) k"
  by (simp add: hash_get_def find_map_of)

lemma hash_contains_get: "hash_contains k h \<longleftrightarrow> hash_get k h \<noteq> None"
  by (simp add: hash_contains_def list_ex_keys hash_get_map_of map_of_eq_None_iff)

lemma map_get_map_of: "map_get insp k m = map_option snd (map_of m (insp k))"
  unfolding map_get_def by (induction m) auto

lemma hash_keys_remove: "hash_keys (snd (hash_remove k h)) = remove1 k (hash_keys h)"
  by (auto simp: hash_remove_def hash_get_map_of keys_remove_entry remove1_idem map_of_eq_None_iff
      split: option.splits)

lemma hash_get_remove:
  "distinct (hash_keys h) \<Longrightarrow>
     (\<lambda>s. hash_get s (snd (hash_remove k h))) = (\<lambda>s. hash_get s h)(k := None)"
  by (auto simp: hash_remove_def hash_get_map_of map_of_remove_entry fun_eq_iff split: option.splits)

interpretation htab: ordered_map hash_keys "\<lambda>(k, v). hash_set k v" "\<lambda>k h. snd (hash_remove k h)"
  fst "\<lambda>k. k" "\<lambda>h k. hash_get k h" snd
  by unfold_locales
    (simp_all add: split_beta hash_set_def keys_put_entry hash_get_map_of map_of_put_entry
      map_of_eq_None_iff hash_keys_remove hash_get_remove [unfolded hash_get_map_of] fun_eq_iff)

lemma map_keys_delete: "keys_of (snd (map_delete insp k m)) = remove1 (insp k) (keys_of m)"
  by (auto simp: map_delete_def map_has_def list_ex_keys keys_remove_entry remove1_idem)

lemma map_lookup_delete:
  "distinct (keys_of m) \<Longrightarrow> (\<lambda>s. map_option snd (map_of (snd (map_delete insp k m)) s)) =
     (\<lambda>s. map_option snd (map_of m s))(insp k := None)"
  by (auto simp: map_delete_def map_has_def list_ex_keys map_of_remove_entry fun_eq_iff map_of_eq_None_iff)

lemma map_lookup_set:
  "(\<lambda>s. map_option snd (map_of (map_set insp k v m) s)) = (\<lambda>s. map_option snd (map_of m s))(insp k \<mapsto> v)"
  by (rule ext) (simp only: map_set_def lookup_update_map_entry fun_upd_apply)

lemma map_lookup_None: "map_option snd (map_of m s) = None \<longleftrightarrow> s \<notin> set (keys_of m)"
  by (simp add: map_of_eq_None_iff)

interpretation mtab: ordered_map keys_of "\<lambda>(k, v). map_set insp k v" "\<lambda>k m. snd (map_delete insp k m)"
  "\<lambda>(k, v). insp k" insp "\<lambda>m s. map_option snd (map_of m s)" snd for insp
  by unfold_locales
    (simp_all add: split_beta map_lookup_set map_lookup_delete map_lookup_None map_keys_delete
      del: option.map_disc_iff set_map,
      simp_all add: map_set_def keys_update_map_entry map_of_eq_None_iff)

interpretation stab: ordered_table keys_of "set_add insp" "\<lambda>v s. snd (set_delete insp v s)" insp insp
  for insp
  by unfold_locales
    (auto simp: set_add_def set_delete_def set_has_def list_ex_keys keys_remove_entry remove1_idem)

lemma set_has_keys: "set_has insp v s \<longleftrightarrow> insp v \<in> set (keys_of s)"
  by (simp add: set_has_def list_ex_keys)

lemma map_has_get: "map_has insp k m \<longleftrightarrow> map_get insp k m \<noteq> None"
  by (simp add: map_has_def list_ex_keys map_get_map_of map_of_eq_None_iff)

end
