(* ===== verification/State_Result.thy ===== *)
theory State_Result
  imports Prelude
begin

text \<open>
  Operations on mutable state that may fail: a function from the state to an error or a result,
  together with the state it leaves, so that what was done before an error is kept, as it is
  in Rust. \<open>triple P m Q E\<close> is the Hoare triple of such an operation: \<open>Q\<close> holds of result and
  state after success, \<open>E\<close> of error and state after failure.
\<close>

type_synonym ('s, 'e, 'a) sr = "'s \<Rightarrow> ('e + 'a) \<times> 's"

section \<open>Combinators\<close>

definition ret :: "'a \<Rightarrow> ('s, 'e, 'a) sr" where
  "ret x = (\<lambda>s. (Inr x, s))"

definition err :: "'e \<Rightarrow> ('s, 'e, 'a) sr" where
  "err e = (\<lambda>s. (Inl e, s))"

definition andthen :: "('s, 'e, 'a) sr \<Rightarrow> ('a \<Rightarrow> ('s, 'e, 'b) sr) \<Rightarrow> ('s, 'e, 'b) sr" where
  "andthen m f = (\<lambda>s. case m s of (Inl e, t) \<Rightarrow> (Inl e, t) | (Inr x, t) \<Rightarrow> f x t)"

definition gets :: "('s \<Rightarrow> 'a) \<Rightarrow> ('s, 'e, 'a) sr" where
  "gets f = (\<lambda>s. (Inr (f s), s))"

definition modify :: "('s \<Rightarrow> 's) \<Rightarrow> ('s, 'e, unit) sr" where
  "modify f = (\<lambda>s. (Inr (), f s))"

text \<open>A pure function of the state that also returns a value.\<close>

definition update :: "('s \<Rightarrow> 'a \<times> 's) \<Rightarrow> ('s, 'e, 'a) sr" where
  "update f = (\<lambda>s. case f s of (x, t) \<Rightarrow> (Inr x, t))"

definition of_res :: "'e + 'a \<Rightarrow> ('s, 'e, 'a) sr" where
  "of_res r = (\<lambda>s. (r, s))"

lemmas sr_defs = ret_def err_def andthen_def gets_def modify_def update_def of_res_def

text \<open>\<^verbatim>\<open>for x in xs { f(x)?; }\<close>\<close>

fun for_each :: "('a \<Rightarrow> ('s, 'e, unit) sr) \<Rightarrow> 'a list \<Rightarrow> ('s, 'e, unit) sr" where
  "for_each f [] = ret ()"
| "for_each f (x # xs) = andthen (f x) (\<lambda>_. for_each f xs)"

section \<open>Equations\<close>

named_theorems sr_run \<open>running an operation on a state\<close>

lemma run_basic [sr_run]:
  "ret x s = (Inr x, s)" "err e s = (Inl e, s)" "gets f s = (Inr (f s), s)"
  "modify g s = (Inr (), g s)" "of_res r s = (r, s)"
  by (simp_all add: sr_defs)

lemma run_andthen [sr_run]:
  "m s = (Inr x, t) \<Longrightarrow> andthen m f s = f x t"
  "m s = (Inl e, t) \<Longrightarrow> andthen m f s = (Inl e, t)"
  by (simp_all add: andthen_def)

lemma andthen_Inr:
  "andthen m f s = (Inr y, u) \<longleftrightarrow> (\<exists>x t. m s = (Inr x, t) \<and> f x t = (Inr y, u))"
  by (auto simp: andthen_def split: prod.split sum.split)

lemma andthen_Inl:
  "andthen m f s = (Inl e, u) \<longleftrightarrow>
     m s = (Inl e, u) \<or> (\<exists>x t. m s = (Inr x, t) \<and> f x t = (Inl e, u))"
  by (auto simp: andthen_def split: prod.split sum.split)

section \<open>Hoare triples\<close>

definition triple ::
  "('s \<Rightarrow> bool) \<Rightarrow> ('s, 'e, 'a) sr \<Rightarrow> ('a \<Rightarrow> 's \<Rightarrow> bool) \<Rightarrow> ('e \<Rightarrow> 's \<Rightarrow> bool) \<Rightarrow> bool" where
  "triple P m Q E \<longleftrightarrow>
     (\<forall>s. P s \<longrightarrow> (case m s of (Inr x, t) \<Rightarrow> Q x t | (Inl e, t) \<Rightarrow> E e t))"

lemma tripleI:
  assumes "\<And>s x t. P s \<Longrightarrow> m s = (Inr x, t) \<Longrightarrow> Q x t"
    and "\<And>s e t. P s \<Longrightarrow> m s = (Inl e, t) \<Longrightarrow> E e t"
  shows "triple P m Q E"
  unfolding triple_def
proof (intro allI impI)
  fix s assume "P s"
  show "case m s of (Inr x, t) \<Rightarrow> Q x t | (Inl e, t) \<Rightarrow> E e t"
    by (cases "m s"; cases "fst (m s)") (use assms \<open>P s\<close> in auto)
qed

lemma triple_Inr: "triple P m Q E \<Longrightarrow> P s \<Longrightarrow> m s = (Inr x, t) \<Longrightarrow> Q x t"
  unfolding triple_def by fastforce

lemma triple_Inl: "triple P m Q E \<Longrightarrow> P s \<Longrightarrow> m s = (Inl e, t) \<Longrightarrow> E e t"
  unfolding triple_def by fastforce

lemma triple_weaken:
  assumes "triple P m Q E"
    and "\<And>s. P' s \<Longrightarrow> P s" "\<And>x s. Q x s \<Longrightarrow> Q' x s" "\<And>e s. E e s \<Longrightarrow> E' e s"
  shows "triple P' m Q' E'"
proof (rule tripleI)
  fix s x t assume "P' s" "m s = (Inr x, t)"
  then show "Q' x t" using triple_Inr [OF assms(1)] assms(2,3) by blast
next
  fix s e t assume "P' s" "m s = (Inl e, t)"
  then show "E' e t" using triple_Inl [OF assms(1)] assms(2,4) by blast
qed

lemma triple_andthen:
  assumes "triple P m R E" and "\<And>x. triple (R x) (f x) Q E"
  shows "triple P (andthen m f) Q E"
proof (rule tripleI)
  fix s y u assume "P s" "andthen m f s = (Inr y, u)"
  then obtain x t where "m s = (Inr x, t)" "f x t = (Inr y, u)" by (auto simp: andthen_Inr)
  with \<open>P s\<close> show "Q y u" by (blast intro: triple_Inr [OF assms(2)] triple_Inr [OF assms(1)])
next
  fix s e u assume P: "P s" and "andthen m f s = (Inl e, u)"
  then consider "m s = (Inl e, u)" | x t where "m s = (Inr x, t)" "f x t = (Inl e, u)"
    by (auto simp: andthen_Inl)
  then show "E e u"
  proof cases
    case 1
    with P show ?thesis by (rule triple_Inl [OF assms(1)])
  next
    case 2
    with P show ?thesis by (blast intro: triple_Inl [OF assms(2)] triple_Inr [OF assms(1)])
  qed
qed

lemma triple_for_each:
  assumes "\<And>x. x \<in> set xs \<Longrightarrow> triple P (f x) (\<lambda>_. P) E"
  shows "triple P (for_each f xs) (\<lambda>_. P) E"
  using assms
proof (induction xs)
  case Nil
  show ?case by (rule tripleI) (auto simp: sr_run)
next
  case (Cons x xs)
  then show ?case by (auto intro!: triple_andthen [where R = "\<lambda>_. P"])
qed

end
