(* ===== verification/Heap.thy ===== *)
theory Heap
  imports Tables Chunk
begin

text \<open>
  The mutable store of a running script and the text of values. Every \<^verbatim>\<open>Rc<RefCell<T>>\<close> (and
  every \<^verbatim>\<open>Rc<T>\<close> compared by address) is an address; the store has one function from addresses to
  contents per kind of cell (\<^verbatim>\<open>object/value.rs\<close>, \<^verbatim>\<open>object/environment.rs\<close>, \<^verbatim>\<open>bytecode/upvalue.rs\<close>),
  the fields of the \<^verbatim>\<open>VirtualMachine\<close> that scripts read and write (\<^verbatim>\<open>object/vm.rs\<close>), and the
  state of the host (output, timers, files), an arbitrary \<open>'x\<close>.

  An \<^verbatim>\<open>EnvRef\<close> is the list of the addresses of its scope and its ancestors: the parent of a
  scope is fixed when the scope is made.

  \<open>inspect\<close> is \<^verbatim>\<open>Object::inspect\<close>; its argument \<open>n\<close> is the depth of native stack it may use and
  \<open>None\<close> is the stack overflow.
\<close>

section \<open>Cells\<close>

type_synonym env = "addr list"

record binding =
  b_value :: obj
  b_const :: bool
  b_type :: "type_annotation option"

record scope =
  sc_bindings :: "string \<rightharpoonup> binding"
  sc_this :: "obj option"
  sc_ctor_class :: "addr option"
  sc_super_called :: bool
  sc_module_dir :: string

datatype upvalue = Open nat | Closed obj

record function_data =
  f_name :: string
  f_params :: "gparam list"
  f_body :: gblock
  f_env :: env
  f_is_async :: bool
  f_return_t :: "type_annotation option"
  f_pos :: position
  f_lexical_this :: bool

text \<open>The Rust function of a builtin is known by a number; what it does is the host's.\<close>

record builtin_data =
  bi_name :: string
  bi_func :: nat
  bi_extra :: "obj option"

record class_data =
  c_name :: string
  c_super :: "addr option"
  c_methods :: "string \<rightharpoonup> obj"
  c_fields :: "string \<rightharpoonup> obj"
  c_field_types :: "string \<rightharpoonup> type_annotation"
  c_statics :: "string \<rightharpoonup> obj"
  c_static_types :: "string \<rightharpoonup> type_annotation"
  c_native_ctor :: "nat option"
  c_pos :: position

record instance_data =
  i_class :: addr
  i_props :: "string \<rightharpoonup> obj"
  i_pos :: position

record closure_data =
  cl_proto :: function_proto
  cl_upvalues :: "addr list"
  cl_upvalue_names :: "string list"
  cl_home_env :: env

text \<open>The continuations of a promise are host closures, known by numbers.\<close>

datatype promise_state = Pending | Fulfilled | Rejected

record promise_data =
  p_state :: promise_state
  p_value :: "obj option"
  p_continuations :: "nat list"

section \<open>The store\<close>

record 'x store =
  arrays :: "addr \<Rightarrow> obj list"
  hashes :: "addr \<Rightarrow> hash_data"
  function_cells :: "addr \<Rightarrow> function_data"
  builtins :: "addr \<Rightarrow> builtin_data"
  class_cells :: "addr \<Rightarrow> class_data"
  instances :: "addr \<Rightarrow> instance_data"
  promises :: "addr \<Rightarrow> promise_data"
  maps :: "addr \<Rightarrow> map_data"
  set_cells :: "addr \<Rightarrow> set_data"
  closures :: "addr \<Rightarrow> closure_data"
  scopes :: "addr \<Rightarrow> scope"
  upvalues :: "addr \<Rightarrow> upvalue"
  next_addr :: addr
  globals :: "string \<rightharpoonup> obj"
  type_check :: bool
  allowed_modules :: "string list option"
  host_state :: 'x

text \<open>\<^verbatim>\<open>Rc::new\<close> for the kinds of cells the VM allocates.\<close>

definition new_array :: "obj list \<Rightarrow> 'x store \<Rightarrow> obj \<times> 'x store" where
  "new_array xs st =
     (OArray (next_addr st),
      st\<lparr>arrays := (arrays st)(next_addr st := xs), next_addr := next_addr st + 1\<rparr>)"

definition new_hash :: "hash_data \<Rightarrow> 'x store \<Rightarrow> obj \<times> 'x store" where
  "new_hash h st =
     (OHash (next_addr st),
      st\<lparr>hashes := (hashes st)(next_addr st := h), next_addr := next_addr st + 1\<rparr>)"

definition new_promise :: "promise_data \<Rightarrow> 'x store \<Rightarrow> obj \<times> 'x store" where
  "new_promise p st =
     (OPromise (next_addr st),
      st\<lparr>promises := (promises st)(next_addr st := p), next_addr := next_addr st + 1\<rparr>)"

definition new_closure :: "closure_data \<Rightarrow> 'x store \<Rightarrow> obj \<times> 'x store" where
  "new_closure c st =
     (OClosure (next_addr st),
      st\<lparr>closures := (closures st)(next_addr st := c), next_addr := next_addr st + 1\<rparr>)"

definition new_class :: "class_data \<Rightarrow> 'x store \<Rightarrow> addr \<times> 'x store" where
  "new_class c st =
     (next_addr st,
      st\<lparr>class_cells := (class_cells st)(next_addr st := c), next_addr := next_addr st + 1\<rparr>)"

definition new_scope :: "scope \<Rightarrow> 'x store \<Rightarrow> addr \<times> 'x store" where
  "new_scope sc st =
     (next_addr st, st\<lparr>scopes := (scopes st)(next_addr st := sc), next_addr := next_addr st + 1\<rparr>)"

definition new_upvalue :: "upvalue \<Rightarrow> 'x store \<Rightarrow> addr \<times> 'x store" where
  "new_upvalue u st =
     (next_addr st, st\<lparr>upvalues := (upvalues st)(next_addr st := u), next_addr := next_addr st + 1\<rparr>)"

section \<open>The text of values\<close>

text \<open>The arguments \<open>fmt\<close> and \<open>st\<close> are the printing of non-integral floats and the store.\<close>

definition inspect_function :: "function_data \<Rightarrow> string" where
  "inspect_function f =
     (let params = join '', '' (map param_name (f_params f))
      in if f_name f = [] then ''fn('' @ params @ '')''
         else ''fn '' @ f_name f @ ''('' @ params @ '')'')"

definition inspect_error :: "string \<Rightarrow> string \<Rightarrow> position \<Rightarrow> string" where
  "inspect_error message name pos =
     (let shown = (if name = [] then ''Error'' else name)
      in if pos_is_zero pos then shown @ '': '' @ message
         else show_pos pos @ '': '' @ shown @ '': '' @ message)"

definition inspect_promise :: "promise_state \<Rightarrow> string option \<Rightarrow> string" where
  "inspect_promise state shown =
     (case state of
        Pending \<Rightarrow> ''<promise pending>''
      | Fulfilled \<Rightarrow>
          (case shown of Some s \<Rightarrow> ''<promise resolved: '' @ s @ ''>'' | None \<Rightarrow> ''<promise resolved>'')
      | Rejected \<Rightarrow>
          (case shown of Some s \<Rightarrow> ''<promise rejected: '' @ s @ ''>'' | None \<Rightarrow> ''<promise rejected>''))"

fun inspect :: "(f64 \<Rightarrow> string) \<Rightarrow> 'x store \<Rightarrow> nat \<Rightarrow> obj \<Rightarrow> string option" where
  "inspect fmt st 0 v = None"
| "inspect fmt st (Suc n) v =
     (case v of
        ONumber x \<Rightarrow> Some (format_number fmt x)
      | OString s \<Rightarrow> Some s
      | OBoolean b \<Rightarrow> Some (if b then ''true'' else ''false'')
      | ONull \<Rightarrow> Some ''null''
      | OUndefined \<Rightarrow> Some ''undefined''
      | OArray a \<Rightarrow>
          map_option (\<lambda>elems. ''['' @ join '', '' elems @ '']'')
            (those (map (inspect fmt st n) (arrays st a)))
      | OHash a \<Rightarrow>
          map_option (\<lambda>vals. [CHR 0x7B] @
              join '', '' (map (\<lambda>(k, s). k @ '': '' @ s) (zip (map fst (h_entries (hashes st a))) vals)) @
              [CHR 0x7D])
            (those (map (\<lambda>e. inspect fmt st n (snd e)) (h_entries (hashes st a))))
      | OFunction a \<Rightarrow> Some (inspect_function (function_cells st a))
      | OBuiltin a \<Rightarrow> Some (''<builtin '' @ bi_name (builtins st a) @ ''>'')
      | OClass a \<Rightarrow> Some (''<class '' @ c_name (class_cells st a) @ ''>'')
      | OInstance a \<Rightarrow>
          Some (''<'' @ c_name (class_cells st (i_class (instances st a))) @ '' instance>'')
      | OError message name _ _ pos _ \<Rightarrow> Some (inspect_error message name pos)
      | OReturn r \<Rightarrow> inspect fmt st n r
      | OPromise a \<Rightarrow>
          (case p_state (promises st a) of
             Pending \<Rightarrow> Some (inspect_promise Pending None)
           | state \<Rightarrow>
               (case p_value (promises st a) of
                  None \<Rightarrow> Some (inspect_promise state None)
                | Some w \<Rightarrow> map_option (\<lambda>s. inspect_promise state (Some s)) (inspect fmt st n w)))
      | ODate ms \<Rightarrow> Some (''<date '' @ show_int ms @ ''>'')
      | ORegexp src flags \<Rightarrow> Some (''/'' @ src @ ''/'' @ flags)
      | OMap a \<Rightarrow>
          map_option (\<lambda>_. ''Map('' @ show_nat (length (maps st a)) @ '')'')
            (those (map (inspect fmt st n) (concat (map (\<lambda>e. [fst (snd e), snd (snd e)]) (maps st a)))))
      | OSet a \<Rightarrow>
          map_option (\<lambda>_. ''Set('' @ show_nat (length (set_cells st a)) @ '')'')
            (those (map (\<lambda>e. inspect fmt st n (snd e)) (set_cells st a)))
      | OClosure a \<Rightarrow>
          Some (let name = proto_name (cl_proto (closures st a))
                in if name = [] then ''[Function (anonymous)]'' else ''[Function: '' @ name @ '']''))"

text \<open>The values that \<open>inspect\<close> descends into.\<close>

fun inspect_children :: "'x store \<Rightarrow> obj \<Rightarrow> obj list" where
  "inspect_children st (OArray a) = arrays st a"
| "inspect_children st (OHash a) = map snd (h_entries (hashes st a))"
| "inspect_children st (OReturn r) = [r]"
| "inspect_children st (OPromise a) =
     (case p_state (promises st a) of
        Pending \<Rightarrow> []
      | _ \<Rightarrow> (case p_value (promises st a) of None \<Rightarrow> [] | Some w \<Rightarrow> [w]))"
| "inspect_children st (OMap a) = concat (map (\<lambda>e. [fst (snd e), snd (snd e)]) (maps st a))"
| "inspect_children st (OSet a) = map snd (set_cells st a)"
| "inspect_children st _ = []"

lemma those_None: "those xs = None \<longleftrightarrow> None \<in> set xs"
  by (induction xs) (auto split: option.splits)

lemma those_map_None: "those (map f xs) = None \<longleftrightarrow> (\<exists>x\<in>set xs. f x = None)"
  by (force simp: those_None)

lemma inspect_None:
  "inspect fmt st (Suc n) v = None \<longleftrightarrow> (\<exists>w\<in>set (inspect_children st v). inspect fmt st n w = None)"
  by (cases v) (simp_all add: those_map_None split: option.split promise_state.split)

text \<open>
  \<open>inspect\<close> returns on a value from which every chain of containment is shorter than the stack,
  and overflows on a value that contains itself, however deep the stack.
\<close>

lemma inspect_ranked:
  assumes "\<And>v w. w \<in> set (inspect_children st v) \<Longrightarrow> rank w < (rank v :: nat)"
  shows "rank v < n \<Longrightarrow> inspect fmt st n v \<noteq> None"
proof (induction n arbitrary: v)
  case (Suc n)
  have "inspect fmt st n w \<noteq> None" if "w \<in> set (inspect_children st v)" for w
    using Suc.IH assms [OF that] Suc.prems by simp
  then show ?case by (simp only: inspect_None) blast
qed simp

lemma inspect_cyclic:
  assumes "v \<in> set (inspect_children st v)"
  shows "inspect fmt st n v = None"
proof (induction n)
  case (Suc n)
  with assms show ?case by (simp only: inspect_None) blast
qed simp

declare inspect.simps(2) [simp del]

end
