(* ===== verification/Environment.thy ===== *)
theory Environment
  imports Heap
begin

text \<open>
  Lexical environments (\<^verbatim>\<open>crates/night24-gts/src/object/environment.rs\<close>) and \<^verbatim>\<open>binding_info\<close> of
  \<^verbatim>\<open>bytecode/interp_helpers/bindings.rs\<close>. An environment is the chain of its scopes' addresses;
  the end of the chain is the global table of the VM.

  The lemmas are the laws of declaration, lookup and assignment: what a lookup returns after
  each of them, that assignment never changes a constant, and that a child scope is a view of
  its parent until something is declared in it.
\<close>

section \<open>Operations\<close>

definition root_scope :: scope where
  "root_scope = \<lparr>sc_bindings = Map.empty, sc_this = None, sc_ctor_class = None,
     sc_super_called = False, sc_module_dir = []\<rparr>"

definition new_root :: "'x store \<Rightarrow> env \<times> 'x store" where
  "new_root st = (let (a, st') = new_scope root_scope st in ([a], st'))"

text \<open>\<^verbatim>\<open>Environment::child\<close> inherits all but the bindings.\<close>

definition env_child :: "env \<Rightarrow> 'x store \<Rightarrow> env \<times> 'x store" where
  "env_child env st =
     (let (a, st') = new_scope ((scopes st (hd env))\<lparr>sc_bindings := Map.empty\<rparr>) st in (a # env, st'))"

fun env_get :: "'x store \<Rightarrow> env \<Rightarrow> string \<Rightarrow> obj option" where
  "env_get st [] name = globals st name"
| "env_get st (a # parent) name =
     (case sc_bindings (scopes st a) name of
        Some b \<Rightarrow> Some (b_value b)
      | None \<Rightarrow> env_get st parent name)"

fun env_has :: "'x store \<Rightarrow> env \<Rightarrow> string \<Rightarrow> bool" where
  "env_has st [] name \<longleftrightarrow> globals st name \<noteq> None"
| "env_has st (a # parent) name \<longleftrightarrow>
     (if sc_bindings (scopes st a) name \<noteq> None then True else env_has st parent name)"

definition bind_here :: "addr \<Rightarrow> string \<Rightarrow> binding \<Rightarrow> 'x store \<Rightarrow> 'x store" where
  "bind_here a name b st =
     st\<lparr>scopes := (scopes st)
       (a := (scopes st a)\<lparr>sc_bindings := (sc_bindings (scopes st a))(name \<mapsto> b)\<rparr>)\<rparr>"

definition set_here :: "env \<Rightarrow> string \<Rightarrow> obj \<Rightarrow> 'x store \<Rightarrow> 'x store" where
  "set_here env name v = bind_here (hd env) name \<lparr>b_value = v, b_const = False, b_type = None\<rparr>"

definition set_const_here :: "env \<Rightarrow> string \<Rightarrow> obj \<Rightarrow> 'x store \<Rightarrow> 'x store" where
  "set_const_here env name v = bind_here (hd env) name \<lparr>b_value = v, b_const = True, b_type = None\<rparr>"

definition set_typed ::
  "env \<Rightarrow> string \<Rightarrow> obj \<Rightarrow> type_annotation option \<Rightarrow> 'x store \<Rightarrow> 'x store" where
  "set_typed env name v anno = bind_here (hd env) name \<lparr>b_value = v, b_const = False, b_type = anno\<rparr>"

definition set_typed_const ::
  "env \<Rightarrow> string \<Rightarrow> obj \<Rightarrow> type_annotation option \<Rightarrow> 'x store \<Rightarrow> 'x store" where
  "set_typed_const env name v anno =
     bind_here (hd env) name \<lparr>b_value = v, b_const = True, b_type = anno\<rparr>"

text \<open>\<^verbatim>\<open>assign\<close> returns \<^verbatim>\<open>(found, is_const)\<close>; a global that no scope declares counts as constant.\<close>

fun env_assign :: "env \<Rightarrow> string \<Rightarrow> obj \<Rightarrow> 'x store \<Rightarrow> (bool \<times> bool) \<times> 'x store" where
  "env_assign [] name v st = (if globals st name \<noteq> None then ((True, True), st) else ((False, False), st))"
| "env_assign (a # parent) name v st =
     (case sc_bindings (scopes st a) name of
        Some b \<Rightarrow>
          if b_const b then ((True, True), st)
          else ((True, False), bind_here a name (b\<lparr>b_value := v\<rparr>) st)
      | None \<Rightarrow> env_assign parent name v st)"

fun binding_info :: "'x store \<Rightarrow> env \<Rightarrow> string \<Rightarrow> (bool \<times> type_annotation option) option" where
  "binding_info st [] name = None"
| "binding_info st (a # parent) name =
     (case sc_bindings (scopes st a) name of
        Some b \<Rightarrow> Some (b_const b, b_type b)
      | None \<Rightarrow> binding_info st parent name)"

text \<open>The globals of the VM.\<close>

definition get_global :: "'x store \<Rightarrow> string \<Rightarrow> obj option" where
  "get_global st name = globals st name"

definition set_global :: "string \<Rightarrow> obj \<Rightarrow> 'x store \<Rightarrow> 'x store" where
  "set_global name v st = st\<lparr>globals := (globals st)(name \<mapsto> v)\<rparr>"

section \<open>The scope that owns a name\<close>

text \<open>The innermost scope of the chain that declares a name, with the binding.\<close>

fun owner :: "'x store \<Rightarrow> env \<Rightarrow> string \<Rightarrow> (addr \<times> binding) option" where
  "owner st [] name = None"
| "owner st (a # parent) name =
     (case sc_bindings (scopes st a) name of Some b \<Rightarrow> Some (a, b) | None \<Rightarrow> owner st parent name)"

lemma env_get_owner:
  "env_get st env name = (case owner st env name of None \<Rightarrow> globals st name | Some (a, b) \<Rightarrow> Some (b_value b))"
  by (induction env) (auto split: option.split)

lemma env_has_get: "env_has st env name \<longleftrightarrow> env_get st env name \<noteq> None"
  by (induction env) (auto split: option.splits)

lemma binding_info_owner:
  "binding_info st env name = map_option (\<lambda>(a, b). (b_const b, b_type b)) (owner st env name)"
  by (induction env) (auto split: option.split)

lemma env_assign_owner:
  "env_assign env name v st =
     (case owner st env name of
        None \<Rightarrow> ((globals st name \<noteq> None, globals st name \<noteq> None), st)
      | Some (a, b) \<Rightarrow>
          if b_const b then ((True, True), st)
          else ((True, False), bind_here a name (b\<lparr>b_value := v\<rparr>) st))"
  by (induction env) (auto split: option.split)

lemma owner_SomeD: "owner st env name = Some (a, b) \<Longrightarrow> a \<in> set env \<and> sc_bindings (scopes st a) name = Some b"
  by (induction env) (auto split: option.splits)

lemma bind_here_scopes:
  "sc_bindings (scopes (bind_here a name b st) a') m =
     (if a' = a \<and> m = name then Some b else sc_bindings (scopes st a') m)"
  by (simp add: bind_here_def)

lemma bind_here_globals [simp]: "globals (bind_here a name b st) = globals st"
  by (simp add: bind_here_def)

lemma owner_bind_other: "m \<noteq> name \<Longrightarrow> owner (bind_here a name b st) env m = owner st env m"
  by (induction env) (auto simp: bind_here_scopes split: option.split)

lemma owner_bind_outside: "a \<notin> set env \<Longrightarrow> owner (bind_here a name b st) env m = owner st env m"
  by (induction env) (auto simp: bind_here_scopes split: option.split)

lemma owner_bind_hd: "env \<noteq> [] \<Longrightarrow> owner (bind_here (hd env) name b st) env name = Some (hd env, b)"
  by (cases env) (auto simp: bind_here_scopes)

lemma owner_rebind:
  "owner st env name = Some (a, b) \<Longrightarrow> owner (bind_here a name b' st) env name = Some (a, b')"
  by (induction env) (auto simp: bind_here_scopes split: option.splits dest: owner_SomeD)

lemmas env_owner = env_get_owner binding_info_owner env_assign_owner

section \<open>Laws\<close>

lemma get_declared:
  assumes "env \<noteq> []"
  shows "env_get (bind_here (hd env) name b st) env m = (if m = name then Some (b_value b) else env_get st env m)"
  using assms by (simp add: env_get_owner owner_bind_hd owner_bind_other cong: option.case_cong)

lemma info_declared:
  assumes "env \<noteq> []"
  shows "binding_info (bind_here (hd env) name b st) env m =
    (if m = name then Some (b_const b, b_type b) else binding_info st env m)"
  using assms by (simp add: binding_info_owner owner_bind_hd owner_bind_other)

lemma assign_none:
  "binding_info st env name = None \<Longrightarrow>
     env_assign env name v st = ((globals st name \<noteq> None, globals st name \<noteq> None), st)"
  by (auto simp: env_owner)

lemma assign_const:
  "binding_info st env name = Some (True, t) \<Longrightarrow> env_assign env name v st = ((True, True), st)"
  by (auto simp: env_owner split: prod.splits)

text \<open>Assigning a variable changes the binding that lookup finds, and no other name anywhere.\<close>

lemma assign_variable:
  assumes "binding_info st env name = Some (False, t)"
  obtains st' where "env_assign env name v st = ((True, False), st')"
    "env_get st' env name = Some v" "binding_info st' env name = Some (False, t)"
    "\<And>m e. m \<noteq> name \<Longrightarrow> env_get st' e m = env_get st e m"
    "\<And>m e. m \<noteq> name \<Longrightarrow> binding_info st' e m = binding_info st e m"
proof -
  from assms obtain a b where o: "owner st env name = Some (a, b)" "\<not> b_const b" "b_type b = t"
    by (auto simp: binding_info_owner)
  let ?st = "bind_here a name (b\<lparr>b_value := v\<rparr>) st"
  show thesis
  proof (rule that)
    show "env_assign env name v st = ((True, False), ?st)" using o by (simp add: env_assign_owner)
    show "env_get ?st env name = Some v" "binding_info ?st env name = Some (False, t)"
      using o by (simp_all add: env_owner owner_rebind [OF o(1)])
  qed (simp_all add: env_owner owner_bind_other cong: option.case_cong)
qed

text \<open>A constant keeps its value under every assignment, through whatever environment.\<close>

lemma assign_keeps_const:
  assumes "sc_bindings (scopes st a) m = Some b" "b_const b"
  shows "sc_bindings (scopes (snd (env_assign env name v st)) a) m = Some b"
proof (cases "owner st env name")
  case (Some p)
  then obtain a' b' where o: "owner st env name = Some (a', b')" by (cases p) auto
  then have "sc_bindings (scopes st a') name = Some b'" by (auto dest: owner_SomeD)
  with o assms show ?thesis by (auto simp: env_assign_owner bind_here_scopes)
qed (use assms in \<open>simp add: env_assign_owner\<close>)

section \<open>Child scopes\<close>

text \<open>All addresses in use are below the next one.\<close>

definition env_ok :: "'x store \<Rightarrow> env \<Rightarrow> bool" where
  "env_ok st env \<longleftrightarrow> env \<noteq> [] \<and> (\<forall>a\<in>set env. a < next_addr st)"

lemma owner_alloc:
  "(\<forall>a\<in>set env. a < next_addr st) \<Longrightarrow> owner (snd (new_scope sc st)) env name = owner st env name"
  by (induction env) (auto simp: new_scope_def split: option.split)

lemma env_child_ok:
  assumes "env_ok st env" "env_child env st = (env', st')"
  shows "env_ok st' env'" "env_ok st' env" "hd env' \<notin> set env" "tl env' = env"
  using assms by (auto simp: env_ok_def env_child_def new_scope_def Let_def less_Suc_eq)

lemma env_child_get:
  assumes "env_ok st env" "env_child env st = (env', st')"
  shows "env_get st' env' name = env_get st env name" "env_get st' env name = env_get st env name"
    "binding_info st' env' name = binding_info st env name"
    "sc_this (scopes st' (hd env')) = sc_this (scopes st (hd env))"
proof -
  have "owner st' env name = owner st env name"
    using assms owner_alloc [of env st "(scopes st (hd env))\<lparr>sc_bindings := Map.empty\<rparr>" name]
    by (auto simp: env_ok_def env_child_def new_scope_def Let_def)
  moreover have "owner st' env' name = owner st' env name" "globals st' = globals st"
    and "sc_this (scopes st' (hd env')) = sc_this (scopes st (hd env))"
    using assms by (auto simp: env_child_def new_scope_def Let_def)
  ultimately show "env_get st' env' name = env_get st env name" "env_get st' env name = env_get st env name"
    "binding_info st' env' name = binding_info st env name"
    "sc_this (scopes st' (hd env')) = sc_this (scopes st (hd env))"
    by (simp_all add: env_owner cong: option.case_cong)
qed

text \<open>What is declared in a child is not visible from its parent.\<close>

lemma child_declare_hidden:
  assumes "env_ok st env" "env_child env st = (env', st')"
  shows "env_get (bind_here (hd env') name b st') env m = env_get st env m"
proof -
  have "hd env' \<notin> set env" using assms by (rule env_child_ok)
  then have "env_get (bind_here (hd env') name b st') env m = env_get st' env m"
    by (simp add: env_get_owner owner_bind_outside cong: option.case_cong)
  also have "\<dots> = env_get st env m" using assms by (rule env_child_get)
  finally show ?thesis .
qed

end
