(* ===== verification/F64_Arith.thy ===== *)
theory F64_Arith
  imports F64
begin

unbundle bit_operations_syntax

text \<open>
  IEEE 754 arithmetic on the bit patterns of \<open>F64\<close>, as Rust's operators on \<^verbatim>\<open>f64\<close> compute it:
  the exact result, a signed integer times a power of two, is rounded to nearest, ties to
  even, by \<open>f64_round\<close>. Of the NaNs one pattern is returned.
\<close>

section \<open>Rounding\<close>

definition f64_nan :: f64 where "f64_nan = 0x7FF8000000000000"

definition f64_inf :: "bool \<Rightarrow> f64" where
  "f64_inf neg = (if neg then 0xFFF0000000000000 else 0x7FF0000000000000)"

definition f64_signed_zero :: "bool \<Rightarrow> f64" where
  "f64_signed_zero neg = (if neg then f64_neg_zero else f64_zero)"

text \<open>Dividing by \<open>2 ^ k\<close> and rounding the quotient to the nearest integer, ties to even.\<close>

definition round_shift :: "nat \<Rightarrow> nat \<Rightarrow> nat" where
  "round_shift m k =
     (let d = 2 ^ k; q = m div d; r = m mod d
      in if 2 * r > d \<or> (2 * r = d \<and> odd q) then Suc q else q)"

text \<open>The value \<open>\<plusminus> m * 2 ^ e\<close>.\<close>

definition f64_round :: "bool \<Rightarrow> nat \<Rightarrow> int \<Rightarrow> f64" where
  "f64_round neg m e =
     (if m = 0 then f64_signed_zero neg
      else let top = int (bit_len m) - 1 + e;
               scale = (if top < - 1022 then - 1074 else top - 52);
               q = (if scale \<le> e then m * 2 ^ nat (e - scale) else round_shift m (nat (scale - e)));
               bits = (if top < - 1022 then q else nat (top + 1023) * 2 ^ 52 + q - 2 ^ 52)
           in if bits \<ge> 2047 * 2 ^ 52 then f64_inf neg
              else of_nat ((if neg then 2 ^ 63 else 0) + bits))"

section \<open>Operations\<close>

text \<open>The significand of a finite value at the scale \<open>e\<close>, with its sign.\<close>

definition f64_at_scale :: "f64 \<Rightarrow> int \<Rightarrow> int" where
  "f64_at_scale x e =
     (let m = int (f64_signif x * 2 ^ nat (f64_scale x - e)) in if f64_neg x then - m else m)"

definition f64_add :: "f64 \<Rightarrow> f64 \<Rightarrow> f64" where
  "f64_add a b =
     (if is_nan a \<or> is_nan b then f64_nan
      else if is_infinite a \<and> is_infinite b then (if f64_neg a = f64_neg b then f64_inf (f64_neg a) else f64_nan)
      else if is_infinite a then a
      else if is_infinite b then b
      else let e = min (f64_scale a) (f64_scale b); s = f64_at_scale a e + f64_at_scale b e
           in if s = 0 then f64_signed_zero (f64_neg a \<and> f64_neg b)
              else f64_round (s < 0) (nat \<bar>s\<bar>) e)"

definition f64_sub :: "f64 \<Rightarrow> f64 \<Rightarrow> f64" where
  "f64_sub a b = f64_add a (f64_opp b)"

definition f64_mul :: "f64 \<Rightarrow> f64 \<Rightarrow> f64" where
  "f64_mul a b =
     (let neg = (f64_neg a \<noteq> f64_neg b)
      in if is_nan a \<or> is_nan b then f64_nan
         else if is_infinite a \<or> is_infinite b
           then (if f64_mag a = 0 \<or> f64_mag b = 0 then f64_nan else f64_inf neg)
         else f64_round neg (f64_signif a * f64_signif b) (f64_scale a + f64_scale b))"

text \<open>The quotient is cut off 120 bits down, with one more bit that says whether it is exact.\<close>

definition f64_div :: "f64 \<Rightarrow> f64 \<Rightarrow> f64" where
  "f64_div a b =
     (let neg = (f64_neg a \<noteq> f64_neg b)
      in if is_nan a \<or> is_nan b then f64_nan
         else if is_infinite a then (if is_infinite b then f64_nan else f64_inf neg)
         else if is_infinite b then f64_signed_zero neg
         else if f64_mag b = 0 then (if f64_mag a = 0 then f64_nan else f64_inf neg)
         else let n = f64_signif a * 2 ^ 120; q = n div f64_signif b;
                  sticky = (if n mod f64_signif b = 0 then 0 else 1)
              in f64_round neg (2 * q + sticky) (f64_scale a - f64_scale b - 121))"

text \<open>\<^verbatim>\<open>a % b\<close> has the sign of \<open>a\<close>; \<^verbatim>\<open>rem_euclid\<close> adds the divisor's magnitude to a negative rest.\<close>

definition f64_rem :: "f64 \<Rightarrow> f64 \<Rightarrow> f64" where
  "f64_rem a b =
     (if is_nan a \<or> is_nan b \<or> is_infinite a \<or> f64_mag b = 0 then f64_nan
      else if is_infinite b then a
      else let e = min (f64_scale a) (f64_scale b)
           in f64_round (f64_neg a) (nat (\<bar>f64_at_scale a e\<bar> mod \<bar>f64_at_scale b e\<bar>)) e)"

definition f64_abs :: "f64 \<Rightarrow> f64" where
  "f64_abs x = of_nat (f64_mag x)"

definition f64_rem_euclid :: "f64 \<Rightarrow> f64 \<Rightarrow> f64" where
  "f64_rem_euclid a b =
     (let r = f64_rem a b in if f64_lt r f64_zero then f64_add r (f64_abs b) else r)"

text \<open>\<^verbatim>\<open>n as f64\<close> for a signed integer, \<^verbatim>\<open>x as i32\<close> and \<^verbatim>\<open>x as usize\<close> for a float (saturating).\<close>

definition f64_of_int :: "int \<Rightarrow> f64" where
  "f64_of_int i = (if i < 0 then f64_opp (f64_of_nat (nat (- i))) else f64_of_nat (nat i))"

definition f64_saturate :: "int \<Rightarrow> int \<Rightarrow> f64 \<Rightarrow> int" where
  "f64_saturate lo hi x =
     (if is_nan x then 0
      else if is_infinite x then (if f64_neg x then lo else hi)
      else max lo (min hi (f64_trunc_int x)))"

definition f64_as_i32 :: "f64 \<Rightarrow> int" where
  "f64_as_i32 = f64_saturate (- (2 ^ 31)) (2 ^ 31 - 1)"

definition f64_as_usize :: "f64 \<Rightarrow> nat" where
  "f64_as_usize x = nat (f64_saturate 0 (2 ^ 64 - 1) x)"

section \<open>Laws\<close>

lemma f64_add_comm: "f64_add a b = f64_add b a"
  unfolding f64_add_def by (auto simp: min.commute add.commute conj_commute Let_def)

lemma f64_mul_comm: "f64_mul a b = f64_mul b a"
  unfolding f64_mul_def
  by (cases "f64_neg a"; cases "f64_neg b") (auto simp: mult.commute add.commute Let_def)

lemma f64_as_i32_range: "- (2 ^ 31) \<le> f64_as_i32 x \<and> f64_as_i32 x < 2 ^ 31"
  by (auto simp: f64_as_i32_def f64_saturate_def)

lemma f64_as_usize_range: "f64_as_usize x < 2 ^ 64"
  by (auto simp: f64_as_usize_def f64_saturate_def)

section \<open>Integers below \<open>2 ^ 53\<close> are added exactly\<close>

lemma bit_len_0 [simp]: "bit_len 0 = 0"
  by (simp add: bit_len.simps)

lemma bit_len_double: "0 < n \<Longrightarrow> bit_len (n * 2) = Suc (bit_len n)"
  by (subst bit_len.simps) simp

lemma bit_len_shift: "0 < n \<Longrightarrow> bit_len (n * 2 ^ k) = bit_len n + k"
proof (induction k)
  case (Suc k)
  then have "bit_len (n * 2 ^ k * 2) = Suc (bit_len (n * 2 ^ k))" by (intro bit_len_double) simp
  with Suc show ?case by (simp add: ac_simps)
qed simp

lemma bit_len_bounds: "0 < n \<Longrightarrow> 2 ^ (bit_len n - 1) \<le> n \<and> n < 2 ^ bit_len n \<and> 0 < bit_len n"
proof (induction n rule: bit_len.induct)
  case (1 n)
  show ?case
  proof (cases "n div 2 = 0")
    case True
    with "1.prems" have "n = 1" by simp
    then show ?thesis by (simp add: bit_len.simps)
  next
    case False
    from "1.IH" "1.prems" False have IH: "2 ^ (bit_len (n div 2) - 1) \<le> n div 2"
      "n div 2 < 2 ^ bit_len (n div 2)" "0 < bit_len (n div 2)" by auto
    have eq: "bit_len n = Suc (bit_len (n div 2))" using "1.prems" by (subst bit_len.simps) simp
    obtain j where j: "bit_len (n div 2) = Suc j" using IH(3) by (cases "bit_len (n div 2)") auto
    show ?thesis unfolding eq j using IH(1,2) by (auto simp: j)
  qed
qed

lemma shifted_bounds:
  assumes "0 < n" "bit_len n = Suc k" "k \<le> 52"
  shows "2 ^ 52 \<le> n * 2 ^ (52 - k)" "n * 2 ^ (52 - k) < 2 ^ 53"
proof -
  have n: "2 ^ k \<le> n" "n < 2 ^ Suc k" using bit_len_bounds [OF assms(1)] assms(2) by simp_all
  have p: "2 ^ k * 2 ^ (52 - k) = (2 :: nat) ^ 52" "2 ^ Suc k * 2 ^ (52 - k) = (2 :: nat) ^ 53"
    using assms(3) unfolding power_add [symmetric] by simp_all
  show "2 ^ 52 \<le> n * 2 ^ (52 - k)"
    unfolding p(1) [symmetric] using n(1) by (rule mult_le_mono1)
  show "n * 2 ^ (52 - k) < 2 ^ 53"
    unfolding p(2) [symmetric] using n(2) by (rule mult_strict_right_mono) simp
qed

text \<open>A nonzero integer below \<open>2 ^ 53\<close>: its fields, and its value at a scale.\<close>

lemma f64_of_nat_fields:
  assumes "0 < n" "n < 2 ^ 53"
  shows "f64_exp (f64_of_nat n) = bit_len n - 1 + 1023"
    and "f64_signif (f64_of_nat n) = n * 2 ^ (53 - bit_len n)"
    and "\<not> f64_neg (f64_of_nat n)"
    and "bit_len n \<le> 53"
proof -
  define k where "k = bit_len n - 1"
  note b = bit_len_bounds [OF assms(1)]
  have "2 ^ (bit_len n - 1) < (2 :: nat) ^ 53" using b assms(2) by linarith
  then have "bit_len n - 1 < 53" by (rule power_less_imp_less_exp [rotated]) simp
  then show len: "bit_len n \<le> 53" by simp
  then have k: "k \<le> 52" "bit_len n = Suc k" using b by (auto simp: k_def)
  note m = shifted_bounds [OF assms(1) k(2,1)]
  define f where "f = n * 2 ^ (52 - k) - 2 ^ 52"
  have f: "f < 2 ^ 52" using m by (simp add: f_def)
  have "f64_of_nat n = of_nat ((k + 1023) * 2 ^ 52 + f)"
    using assms(1) k by (simp add: f64_of_nat_def f_def Let_def)
  moreover have "(k + 1023) * 2 ^ 52 + f < 2 ^ 63" using k(1) f by simp
  ultimately have bits: "unat (f64_of_nat n) = (k + 1023) * 2 ^ 52 + f"
    using unat_of_nat_small [where 'a = 64, of "(k + 1023) * 2 ^ 52 + f"] by (simp del: of_nat_add of_nat_mult)
  have "(k + 1023) * 2 ^ 52 + f < 2 ^ 63" by fact
  then have mag: "f64_mag (f64_of_nat n) = (k + 1023) * 2 ^ 52 + f" by (simp add: f64_mag_def bits)
  have "((k + 1023) * 2 ^ 52 + f) div 2 ^ 52 = k + 1023" "((k + 1023) * 2 ^ 52 + f) mod 2 ^ 52 = f"
    using f by (simp_all only: div_mult_self3 mod_mult_self3 div_less mod_less)
  with mag have e: "f64_exp (f64_of_nat n) = k + 1023" and mant: "f64_mant (f64_of_nat n) = f"
    by (simp_all only: f64_exp_def f64_mant_def)
  show "f64_exp (f64_of_nat n) = bit_len n - 1 + 1023" using e k by simp
  show "f64_signif (f64_of_nat n) = n * 2 ^ (53 - bit_len n)"
    using e mant m(1) k by (simp add: f64_signif_def f_def)
  show "\<not> f64_neg (f64_of_nat n)"
    using \<open>(k + 1023) * 2 ^ 52 + f < 2 ^ 63\<close> by (simp add: f64_neg_def bits)
qed

lemma f64_of_nat_finite:
  assumes "n < 2 ^ 53"
  shows "\<not> is_nan (f64_of_nat n)" "\<not> is_infinite (f64_of_nat n)" "\<not> f64_neg (f64_of_nat n)"
proof -
  have "f64_exp (f64_of_nat n) \<noteq> 2047 \<and> \<not> f64_neg (f64_of_nat n)"
  proof (cases "n = 0")
    case True
    then show ?thesis by (simp add: f64_of_nat_0 f64_zero_def f64_exp_def f64_mag_def f64_neg_def)
  next
    case False
    then show ?thesis using f64_of_nat_fields [of n] assms by simp
  qed
  then show "\<not> is_nan (f64_of_nat n)" "\<not> is_infinite (f64_of_nat n)" "\<not> f64_neg (f64_of_nat n)"
    by (simp_all add: is_nan_def is_infinite_def)
qed

lemma f64_scale_of_nat:
  assumes "0 < n" "n < 2 ^ 53"
  shows "f64_scale (f64_of_nat n) = int (bit_len n) - 53"
  using f64_of_nat_fields [OF assms] bit_len_bounds [OF assms(1)] by (simp add: f64_scale_def)

lemma at_scale_of_nat:
  assumes "0 < n" "n < 2 ^ 53" "e \<le> f64_scale (f64_of_nat n)"
  shows "f64_at_scale (f64_of_nat n) e = int n * 2 ^ nat (- e)"
proof -
  note f = f64_of_nat_fields [OF assms(1,2)]
  have s: "f64_scale (f64_of_nat n) = int (bit_len n) - 53" by (rule f64_scale_of_nat [OF assms(1,2)])
  have "nat (- e) = (53 - bit_len n) + nat (f64_scale (f64_of_nat n) - e)"
    using assms(3) f(4) unfolding s by simp
  then have "2 ^ nat (- e) = (2 :: nat) ^ (53 - bit_len n) * 2 ^ nat (f64_scale (f64_of_nat n) - e)"
    by (simp only: power_add)
  then have "f64_signif (f64_of_nat n) * 2 ^ nat (f64_scale (f64_of_nat n) - e) = n * 2 ^ nat (- e)"
    unfolding f(2) by simp
  then have "int (f64_signif (f64_of_nat n) * 2 ^ nat (f64_scale (f64_of_nat n) - e)) = int n * 2 ^ nat (- e)"
    by (simp only: of_nat_mult of_nat_power of_nat_numeral)
  then show ?thesis using f(3) by (simp only: f64_at_scale_def Let_def if_False)
qed

lemma round_shift_exact: "round_shift (q * 2 ^ k) k = q"
  by (simp add: round_shift_def Let_def)

text \<open>Rounding the integer \<open>n\<close>, written at a scale \<open>e \<le> 0\<close>, gives \<^verbatim>\<open>n as f64\<close>.\<close>

lemma round_of_nat:
  assumes "0 < n" "n < 2 ^ 53" "e \<le> 0"
  shows "f64_round False (n * 2 ^ nat (- e)) e = f64_of_nat n"
proof -
  note len = f64_of_nat_fields(4) [OF assms(1,2)] and b = bit_len_bounds [OF assms(1)]
  define k where "k = bit_len n - 1"
  have k: "bit_len n = Suc k" "k \<le> 52" using b len by (auto simp: k_def)
  have "bit_len (n * 2 ^ nat (- e)) = bit_len n + nat (- e)" by (rule bit_len_shift [OF assms(1)])
  then have top: "int (bit_len (n * 2 ^ nat (- e))) - 1 + e = int k" using assms(3) k by simp
  define q where "q = n * 2 ^ (52 - k)"
  have qe: "(if int k - 52 \<le> e then n * 2 ^ nat (- e) * 2 ^ nat (e - (int k - 52))
      else round_shift (n * 2 ^ nat (- e)) (nat (int k - 52 - e))) = q"
  proof (cases "int k - 52 \<le> e")
    case True
    have "nat (- e) + nat (e - (int k - 52)) = 52 - k" using True assms(3) k by simp
    then show ?thesis using True by (simp add: q_def mult.assoc flip: power_add)
  next
    case False
    have "nat (- e) = (52 - k) + nat (int k - 52 - e)" using False k by simp
    then have "n * 2 ^ nat (- e) = q * 2 ^ nat (int k - 52 - e)" by (simp add: q_def power_add)
    then show ?thesis using False by (simp add: round_shift_exact)
  qed
  have q: "2 ^ 52 \<le> q" "q < 2 ^ 53" unfolding q_def by (rule shifted_bounds [OF assms(1) k])+
  have "nat (int k + 1023) * 2 ^ 52 + q - 2 ^ 52 = (k + 1023) * 2 ^ 52 + (q - 2 ^ 52)"
    using q by (simp add: nat_add_distrib)
  moreover from this have "nat (int k + 1023) * 2 ^ 52 + q - 2 ^ 52 < 2047 * 2 ^ 52" using q k by simp
  moreover have "f64_of_nat n = of_nat ((k + 1023) * 2 ^ 52 + (q - 2 ^ 52))"
    using assms(1) k by (simp add: f64_of_nat_def q_def Let_def)
  moreover have "\<not> int k < - 1022" "n * 2 ^ nat (- e) \<noteq> 0" using assms(1) by simp_all
  ultimately show ?thesis
    by (simp only: f64_round_def Let_def top qe if_False not_le [symmetric] add_0 simp_thms)
qed

lemma f64_add_exact:
  assumes "a + b < 2 ^ 53"
  shows "f64_add (f64_of_nat a) (f64_of_nat b) = f64_of_nat (a + b)"
proof -
  have ab: "a < 2 ^ 53" "b < 2 ^ 53" using assms by linarith+
  note fin = f64_of_nat_finite [OF ab(1)] f64_of_nat_finite [OF ab(2)]
  define e where "e = min (f64_scale (f64_of_nat a)) (f64_scale (f64_of_nat b))"
  have scale: "f64_scale (f64_of_nat n) \<le> 0 \<and> (e \<le> f64_scale (f64_of_nat n) \<longrightarrow>
      f64_at_scale (f64_of_nat n) e = int n * 2 ^ nat (- e))" if "n < 2 ^ 53" for n
  proof (cases "n = 0")
    case True
    then show ?thesis
      by (simp add: f64_of_nat_0 f64_zero_def f64_scale_def f64_exp_def f64_mag_def f64_at_scale_def
          f64_signif_def f64_mant_def f64_neg_def)
  next
    case False
    with that show ?thesis
      using at_scale_of_nat [of n e] f64_scale_of_nat [of n] f64_of_nat_fields(4) [of n] by simp
  qed
  have e: "e \<le> 0" "e \<le> f64_scale (f64_of_nat a)" "e \<le> f64_scale (f64_of_nat b)"
    using scale [OF ab(1)] by (auto simp: e_def)
  have sum: "f64_at_scale (f64_of_nat a) e + f64_at_scale (f64_of_nat b) e = int (a + b) * 2 ^ nat (- e)"
    using scale [OF ab(1)] scale [OF ab(2)] e by (simp add: algebra_simps)
  have mag: "nat \<bar>int (a + b) * 2 ^ nat (- e)\<bar> = (a + b) * 2 ^ nat (- e)"
    by (simp add: nat_mult_distrib nat_power_eq abs_mult)
  show ?thesis
  proof (cases "a + b = 0")
    case True
    then have "int (a + b) * 2 ^ nat (- e) = 0" "f64_of_nat (a + b) = f64_zero"
      by (simp_all add: f64_of_nat_0)
    then show ?thesis
      using fin unfolding f64_add_def Let_def e_def [symmetric] sum by (simp add: f64_signed_zero_def)
  next
    case False
    then have s: "(int (a + b) * 2 ^ nat (- e) < 0) = False" "(int (a + b) * 2 ^ nat (- e) = 0) = False"
      and pos: "0 < a + b"
      by (auto simp: mult_less_0_iff)
    then show ?thesis
      using fin round_of_nat [of "a + b" e] assms False e
      unfolding f64_add_def Let_def e_def [symmetric] sum mag s by (simp del: of_nat_add add_gr_0)
  qed
qed

section \<open>Truncation of integers\<close>

lemma f64_trunc_of_nat:
  assumes "n < 2 ^ 53"
  shows "f64_trunc_nat (f64_of_nat n) = n"
proof (cases "n = 0")
  case True
  then show ?thesis by (simp add: f64_of_nat_0 f64_zero_def f64_trunc_nat_def f64_signif_def f64_scale_def f64_exp_def
      f64_mant_def f64_mag_def)
next
  case False
  then have n: "0 < n" by simp
  note f = f64_of_nat_fields [OF n assms] and s = f64_scale_of_nat [OF n assms]
  show ?thesis
  proof (cases "bit_len n = 53")
    case True
    then show ?thesis using f s by (simp add: f64_trunc_nat_def)
  next
    case False
    then have "bit_len n < 53" using f(4) by simp
    then have "f64_scale (f64_of_nat n) < 0" "nat (- f64_scale (f64_of_nat n)) = 53 - bit_len n" using s by simp_all
    then show ?thesis by (simp add: f64_trunc_nat_def f(2))
  qed
qed

lemma f64_neg_bit: "f64_neg x \<longleftrightarrow> bit x 63"
proof -
  have "unat x < 2 * 2 ^ 63" using unsigned_less [of x] by simp
  then have "unat x div 2 ^ 63 = (if 2 ^ 63 \<le> unat x then 1 else 0)"
    by (auto intro!: div_nat_eqI)
  then have "odd (unat x div 2 ^ 63) \<longleftrightarrow> 2 ^ 63 \<le> unat x" by simp
  then have "bit (unat x) 63 \<longleftrightarrow> 2 ^ 63 \<le> unat x" by (simp add: bit_iff_odd)
  then show ?thesis by (simp add: f64_neg_def bit_unsigned_iff)
qed

lemma f64_opp_fields: "f64_mag (f64_opp x) = f64_mag x" "f64_neg (f64_opp x) = (\<not> f64_neg x)"
proof -
  have "take_bit 63 (unat (f64_neg_zero)) = 0" by (simp add: f64_neg_zero_def take_bit_eq_mod)
  then show "f64_mag (f64_opp x) = f64_mag x"
    unfolding f64_mag_def f64_opp_def unsigned_xor_eq take_bit_eq_mod [symmetric] take_bit_xor by simp
  have "bit f64_neg_zero 63" by (simp add: f64_neg_zero_def)
  then show "f64_neg (f64_opp x) = (\<not> f64_neg x)" by (simp add: f64_neg_bit f64_opp_def bit_xor_iff)
qed

lemma f64_opp_same:
  "f64_trunc_nat (f64_opp x) = f64_trunc_nat x" "is_nan (f64_opp x) = is_nan x" "is_infinite (f64_opp x) = is_infinite x"
  by (simp_all add: f64_trunc_nat_def f64_signif_def f64_scale_def is_nan_def is_infinite_def f64_exp_def f64_mant_def
      f64_opp_fields)

lemma f64_of_int_facts:
  assumes "\<bar>i\<bar> < 2 ^ 53"
  shows "f64_trunc_int (f64_of_int i) = i" "\<not> is_nan (f64_of_int i)" "\<not> is_infinite (f64_of_int i)"
proof -
  have n: "nat \<bar>i\<bar> < 2 ^ 53" using assms by simp
  note fin = f64_of_nat_finite [OF n]
  show "f64_trunc_int (f64_of_int i) = i" "\<not> is_nan (f64_of_int i)" "\<not> is_infinite (f64_of_int i)"
    using fin f64_trunc_of_nat [OF n]
    by (auto simp: f64_of_int_def f64_trunc_int_def f64_opp_same f64_opp_fields)
qed

end
