(* ===== verification/Operators.thy ===== *)
theory Operators
  imports Heap F64_Arith
begin

unbundle bit_operations_syntax

text \<open>
  The operators on evaluated operands (\<^verbatim>\<open>apply_binary_op\<close> and \<^verbatim>\<open>apply_unary_op\<close> of
  \<^verbatim>\<open>crates/night24-gts/src/evaluator/expressions.rs\<close>), which the tree walker and the bytecode VM
  share. An error is an error value with its runtime flag set, as in the code. The host's
  \<^verbatim>\<open>powf\<close> is the argument \<open>pow\<close>.

  The lemmas characterise on which operands each operator succeeds, and with what.
\<close>

section \<open>Arithmetic\<close>

definition em_dash :: string where
  "em_dash = '' '' @ [CHR 0xE2, CHR 0x80, CHR 0x94] @ '' ''"

definition eval_add :: "obj \<Rightarrow> obj \<Rightarrow> position \<Rightarrow> obj" where
  "eval_add left right pos =
     (case (left, right) of
        (ONumber a, ONumber b) \<Rightarrow> ONumber (f64_add a b)
      | (OString a, OString b) \<Rightarrow> OString (a @ b)
      | _ \<Rightarrow>
          if is_string left \<or> is_string right
          then new_error pos (''TypeError: cannot add string and '' @
                 (if is_string left then type_tag right else type_tag left) @ em_dash @
                 ''use template literals or String()'')
          else new_error pos (''TypeError: cannot add '' @ type_tag left @ '' and '' @ type_tag right @
                 em_dash @ ''types must match''))"

fun to_numeric :: "obj \<Rightarrow> f64 option" where
  "to_numeric (ONumber n) = Some n"
| "to_numeric (ODate ms) = Some (f64_of_int ms)"
| "to_numeric _ = None"

definition with_numbers :: "obj \<Rightarrow> obj \<Rightarrow> position \<Rightarrow> (f64 \<Rightarrow> f64 \<Rightarrow> obj) \<Rightarrow> obj" where
  "with_numbers left right pos f =
     (case to_numeric left of
        None \<Rightarrow> new_error pos (''TypeError: left operand must be number, got '' @ type_tag left)
      | Some l \<Rightarrow>
          (case to_numeric right of
             None \<Rightarrow> new_error pos (''TypeError: right operand must be number, got '' @ type_tag right)
           | Some r \<Rightarrow> f l r))"

definition number_op :: "obj \<Rightarrow> obj \<Rightarrow> position \<Rightarrow> (f64 \<Rightarrow> f64 \<Rightarrow> f64) \<Rightarrow> obj" where
  "number_op left right pos f = with_numbers left right pos (\<lambda>l r. ONumber (f l r))"

section \<open>Bits\<close>

text \<open>
  \<^verbatim>\<open>to_int32\<close>: the remainder of the truncated value modulo \<open>2 ^ 32\<close>, brought into the signed
  range. Each step of the source is exact in \<^verbatim>\<open>f64\<close>, so it is computed on integers.
\<close>

definition to_int32 :: "f64 \<Rightarrow> int" where
  "to_int32 n =
     (if is_nan n \<or> is_infinite n \<or> f64_eq n f64_zero then 0
      else let t = f64_trunc_int n; modulo = 4294967296; m = t - (t div modulo) * modulo
           in if m \<ge> 2147483648 then m - modulo else m)"

type_synonym i32 = "32 word"

definition bit_op :: "obj \<Rightarrow> obj \<Rightarrow> position \<Rightarrow> (i32 \<Rightarrow> i32 \<Rightarrow> i32) \<Rightarrow> obj" where
  "bit_op left right pos f =
     with_numbers left right pos
       (\<lambda>l r. ONumber (f64_of_int (sint (f (word_of_int (to_int32 l)) (word_of_int (to_int32 r))))))"

definition wrapping_shl :: "i32 \<Rightarrow> i32 \<Rightarrow> i32" where
  "wrapping_shl a b = push_bit (unat b mod 32) a"

definition wrapping_shr :: "i32 \<Rightarrow> i32 \<Rightarrow> i32" where
  "wrapping_shr a b = signed_drop_bit (unat b mod 32) a"

definition wrapping_ushr :: "i32 \<Rightarrow> i32 \<Rightarrow> i32" where
  "wrapping_ushr a b = drop_bit (unat b mod 32) a"

section \<open>Comparison\<close>

datatype ordering = Less | Equal | Greater

definition f64_partial_cmp :: "f64 \<Rightarrow> f64 \<Rightarrow> ordering option" where
  "f64_partial_cmp a b =
     (if f64_lt a b then Some Less else if f64_eq a b then Some Equal
      else if f64_lt b a then Some Greater else None)"

text \<open>Rust compares strings by their bytes.\<close>

fun str_cmp :: "string \<Rightarrow> string \<Rightarrow> ordering" where
  "str_cmp [] [] = Equal"
| "str_cmp [] (_ # _) = Less"
| "str_cmp (_ # _) [] = Greater"
| "str_cmp (a # as) (b # bs) =
     (if (of_char a :: nat) < of_char b then Less
      else if (of_char b :: nat) < of_char a then Greater
      else str_cmp as bs)"

definition compare :: "obj \<Rightarrow> obj \<Rightarrow> string \<Rightarrow> position \<Rightarrow> obj" where
  "compare left right op pos =
     (case (case (left, right) of
              (ONumber a, ONumber b) \<Rightarrow> Some (f64_partial_cmp a b)
            | (OString a, OString b) \<Rightarrow> Some (Some (str_cmp a b))
            | _ \<Rightarrow> None) of
        None \<Rightarrow>
          new_error pos (''TypeError: cannot compare '' @ type_tag left @ '' and '' @ type_tag right @
            em_dash @ ''types must match'')
      | Some ord \<Rightarrow>
          OBoolean (case ord of
            None \<Rightarrow> False
          | Some o1 \<Rightarrow>
              if op = ''<'' then o1 = Less
              else if op = ''<='' then o1 \<noteq> Greater
              else if op = ''>'' then o1 = Greater
              else if op = ''>='' then o1 \<noteq> Less
              else False))"

section \<open>Membership and instances\<close>

text \<open>\<^verbatim>\<open>str::parse::<usize>\<close>: an optional plus sign, at least one digit, below \<open>2 ^ 64\<close>.\<close>

fun digits_value :: "nat \<Rightarrow> string \<Rightarrow> nat option" where
  "digits_value acc [] = Some acc"
| "digits_value acc (c # cs) =
     (let n = (of_char c :: nat)
      in if 48 \<le> n \<and> n \<le> 57 then digits_value (acc * 10 + (n - 48)) cs else None)"

definition parse_usize :: "string \<Rightarrow> nat option" where
  "parse_usize s =
     (let ds = (case s of c # cs \<Rightarrow> if c = CHR ''+'' then cs else s | [] \<Rightarrow> s)
      in if ds = [] then None
         else case digits_value 0 ds of
                None \<Rightarrow> None
              | Some n \<Rightarrow> if n < 2 ^ 64 then Some n else None)"

definition eval_in :: "'x store \<Rightarrow> obj \<Rightarrow> obj \<Rightarrow> position \<Rightarrow> obj" where
  "eval_in st left right pos =
     (case left of
        OString key \<Rightarrow>
          (case right of
             OHash h \<Rightarrow> OBoolean (hash_contains key (hashes st h))
           | OArray a \<Rightarrow>
               (case parse_usize key of
                  Some i \<Rightarrow> OBoolean (i < length (arrays st a))
                | None \<Rightarrow> OBoolean False)
           | OInstance i \<Rightarrow>
               OBoolean (i_props (instances st i) key \<noteq> None
                 \<or> c_methods (class_cells st (i_class (instances st i))) key \<noteq> None)
           | _ \<Rightarrow> new_error pos ''TypeError: right operand of 'in' must be object'')
      | _ \<Rightarrow> new_error pos ''TypeError: left operand of 'in' must be string'')"

text \<open>The walk up the superclasses; \<open>None\<close> if it does not end.\<close>

partial_function (option) inherits_from :: "'x store \<Rightarrow> addr \<Rightarrow> addr \<Rightarrow> bool option" where
  "inherits_from st c cls =
     (if c = cls then Some True
      else case c_super (class_cells st c) of
             None \<Rightarrow> Some False
           | Some parent \<Rightarrow> inherits_from st parent cls)"

declare inherits_from.simps [code]

definition eval_instanceof :: "'x store \<Rightarrow> obj \<Rightarrow> obj \<Rightarrow> obj option" where
  "eval_instanceof st left right =
     (case (left, right) of
        (OInstance i, OClass cls) \<Rightarrow> map_option OBoolean (inherits_from st (i_class (instances st i)) cls)
      | _ \<Rightarrow> Some (OBoolean False))"

section \<open>The operator tables\<close>

definition apply_binary_op ::
  "(f64 \<Rightarrow> f64 \<Rightarrow> f64) \<Rightarrow> 'x store \<Rightarrow> string \<Rightarrow> obj \<Rightarrow> obj \<Rightarrow> position \<Rightarrow> obj option" where
  "apply_binary_op pow st op left right pos =
     (if op = ''+'' then Some (eval_add left right pos)
      else if op = ''-'' then Some (number_op left right pos f64_sub)
      else if op = ''*'' then Some (number_op left right pos f64_mul)
      else if op = ''/'' then Some (number_op left right pos f64_div)
      else if op = ''%'' then Some (number_op left right pos f64_rem_euclid)
      else if op = ''**'' then Some (number_op left right pos pow)
      else if op = ''&'' then Some (bit_op left right pos (\<lambda>a b. a AND b))
      else if op = ''|'' then Some (bit_op left right pos (\<lambda>a b. a OR b))
      else if op = ''^'' then Some (bit_op left right pos (\<lambda>a b. a XOR b))
      else if op = ''<<'' then Some (bit_op left right pos wrapping_shl)
      else if op = ''>>'' then Some (bit_op left right pos wrapping_shr)
      else if op = ''>>>'' then Some (bit_op left right pos wrapping_ushr)
      else if op = ''==='' then Some (OBoolean (strict_equal left right))
      else if op = ''!=='' then Some (OBoolean (\<not> strict_equal left right))
      else if op = ''<'' then Some (compare left right ''<'' pos)
      else if op = ''<='' then Some (compare left right ''<='' pos)
      else if op = ''>'' then Some (compare left right ''>'' pos)
      else if op = ''>='' then Some (compare left right ''>='' pos)
      else if op = ''instanceof'' then eval_instanceof st left right
      else if op = ''in'' then Some (eval_in st left right pos)
      else Some (new_error pos (''unknown infix operator: '' @ op)))"

fun typeof_name :: "obj \<Rightarrow> string" where
  "typeof_name OUndefined = ''undefined''"
| "typeof_name ONull = ''object''"
| "typeof_name (OBoolean _) = ''boolean''"
| "typeof_name (ONumber _) = ''number''"
| "typeof_name (OString _) = ''string''"
| "typeof_name (OFunction _) = ''function''"
| "typeof_name (OBuiltin _) = ''function''"
| "typeof_name (OClass _) = ''function''"
| "typeof_name (OClosure _) = ''function''"
| "typeof_name _ = ''object''"

text \<open>\<^verbatim>\<open>!(*n as i32) as f64\<close>: the complement of a saturating conversion.\<close>

definition bit_not :: "f64 \<Rightarrow> f64" where
  "bit_not n = f64_of_int (sint (NOT (word_of_int (f64_as_i32 n) :: i32)))"

definition apply_unary_op :: "string \<Rightarrow> obj \<Rightarrow> position \<Rightarrow> obj" where
  "apply_unary_op op right pos =
     (if op = ''!'' then OBoolean (\<not> is_truthy right)
      else if op = ''-'' then
        (case right of ONumber n \<Rightarrow> ONumber (f64_opp n)
         | _ \<Rightarrow> new_error pos (''TypeError: cannot negate '' @ type_tag right))
      else if op = ''+'' then
        (case right of ONumber n \<Rightarrow> ONumber n
         | _ \<Rightarrow> new_error pos (''TypeError: cannot apply + to '' @ type_tag right))
      else if op = ''typeof'' then OString (typeof_name right)
      else if op = ''void'' then OUndefined
      else if op = ''~'' then
        (case right of ONumber n \<Rightarrow> ONumber (bit_not n)
         | _ \<Rightarrow> new_error pos (''TypeError: cannot apply ~ to '' @ type_tag right))
      else new_error pos (''unknown prefix operator: '' @ op))"

section \<open>When operators succeed\<close>

definition same_addable :: "obj \<Rightarrow> obj \<Rightarrow> bool" where
  "same_addable a b \<longleftrightarrow>
     (\<exists>x y. a = ONumber x \<and> b = ONumber y) \<or> (\<exists>s t. a = OString s \<and> b = OString t)"

lemma eval_add_error: "is_runtime_error (eval_add a b pos) \<longleftrightarrow> \<not> same_addable a b"
  by (cases a; cases b) (simp_all add: eval_add_def same_addable_def)

lemma eval_add_number: "eval_add a b pos = ONumber z \<longleftrightarrow> (\<exists>x y. a = ONumber x \<and> b = ONumber y \<and> z = f64_add x y)"
  by (cases a; cases b) (auto simp: eval_add_def new_error_def split: prod.split)

lemma with_numbers_error:
  assumes "\<And>l r. \<not> is_runtime_error (f l r)"
  shows "is_runtime_error (with_numbers a b pos f) \<longleftrightarrow> to_numeric a = None \<or> to_numeric b = None"
  using assms by (auto simp: with_numbers_def split: option.split)

lemma typeof_name_tag: "typeof_name v = type_tag v"
  by (cases v) simp_all

section \<open>Comparisons are total orders\<close>

lemma f64_cmp_cases:
  assumes "\<not> is_nan a" "\<not> is_nan b"
  shows "f64_partial_cmp a b = Some (if f64_key a < f64_key b then Less
    else if f64_key a = f64_key b then Equal else Greater)"
  using assms by (auto simp: f64_partial_cmp_def f64_lt_def f64_eq_def)

lemma f64_cmp_nan: "is_nan a \<or> is_nan b \<Longrightarrow> f64_partial_cmp a b = None"
  by (auto simp: f64_partial_cmp_def f64_lt_def f64_eq_def)

lemma str_cmp_Equal: "str_cmp s t = Equal \<longleftrightarrow> s = t"
proof (induction s t rule: str_cmp.induct)
  case (4 a as b bs)
  have "(of_char a :: nat) = of_char b \<longleftrightarrow> a = b" by simp
  with 4 show ?case by (auto simp: not_less order_antisym_conv)
qed auto

lemma str_cmp_flip: "str_cmp s t = Less \<longleftrightarrow> str_cmp t s = Greater"
  by (induction s t rule: str_cmp.induct) auto

lemma str_cmp_Less_Cons:
  "str_cmp (a # as) (b # bs) = Less \<longleftrightarrow>
     (of_char a :: nat) < of_char b \<or> ((of_char a :: nat) = of_char b \<and> str_cmp as bs = Less)"
  by auto

lemma str_cmp_trans: "str_cmp s t = Less \<Longrightarrow> str_cmp t u = Less \<Longrightarrow> str_cmp s u = Less"
proof (induction s arbitrary: t u)
  case Nil
  then show ?case by (cases t; cases u) simp_all
next
  case (Cons a as)
  from Cons.prems(1) obtain b bs where t: "t = b # bs" by (cases t) simp_all
  from Cons.prems(2) obtain c cs where u: "u = c # cs" unfolding t by (cases u) simp_all
  from Cons.prems Cons.IH [of bs cs] show ?case
    unfolding t u str_cmp_Less_Cons by (metis less_trans)
qed

section \<open>Bit operators\<close>

lemma to_int32_mod:
  assumes "\<not> is_nan n" "\<not> is_infinite n"
  shows "to_int32 n mod 2 ^ 32 = f64_trunc_int n mod 2 ^ 32"
proof (cases "f64_eq n f64_zero")
  case True
  then have "n = 0 \<or> n = 0x8000000000000000"
    by (auto simp only: f64_eq_iff f64_zero_def f64_mag_0_iff)
  then have "f64_trunc_int n = 0"
    by (auto simp: f64_trunc_int_def f64_trunc_nat_def f64_signif_def f64_scale_def f64_exp_def f64_mant_def
        f64_mag_def)
  with True show ?thesis by (simp add: to_int32_def)
next
  case False
  with assms show ?thesis by (auto simp: to_int32_def Let_def minus_div_mult_eq_mod)
qed

lemma to_int32_range: "- (2 ^ 31) \<le> to_int32 n \<and> to_int32 n < 2 ^ 31"
proof -
  have "0 \<le> t mod 4294967296" "t mod 4294967296 < 4294967296" for t :: int by simp_all
  then show ?thesis by (auto simp: to_int32_def Let_def minus_div_mult_eq_mod)
qed

text \<open>The operand of a bit operator is the 32-bit word of its truncated value.\<close>

lemma to_int32_word:
  assumes "\<not> is_nan n" "\<not> is_infinite n"
  shows "(word_of_int (to_int32 n) :: i32) = word_of_int (f64_trunc_int n)"
  using to_int32_mod [OF assms] by (simp add: word_of_int_eq_iff take_bit_eq_mod)

text \<open>On 32-bit integers a bit operator is the operation on their two's complement.\<close>

definition in_i32 :: "int \<Rightarrow> bool" where
  "in_i32 i \<longleftrightarrow> - (2 ^ 31) \<le> i \<and> i < 2 ^ 31"

lemma bit_op_ints:
  assumes "in_i32 i" "in_i32 j"
  shows "bit_op (ONumber (f64_of_int i)) (ONumber (f64_of_int j)) pos f =
    ONumber (f64_of_int (sint (f (word_of_int i) (word_of_int j))))"
proof -
  have "\<bar>i\<bar> < 2 ^ 53" "\<bar>j\<bar> < 2 ^ 53" using assms by (auto simp: in_i32_def)
  then have "(word_of_int (to_int32 (f64_of_int i)) :: i32) = word_of_int i"
    "(word_of_int (to_int32 (f64_of_int j)) :: i32) = word_of_int j"
    by (simp_all add: to_int32_word f64_of_int_facts)
  then show ?thesis by (simp add: bit_op_def with_numbers_def)
qed

lemma sint_i32: "in_i32 i \<Longrightarrow> sint (word_of_int i :: i32) = i"
  by (simp add: in_i32_def signed_take_bit_int_eq_self signed_of_int)

lemma sint_bitwise:
  assumes "in_i32 i" "in_i32 j"
  shows "sint ((word_of_int i :: i32) AND word_of_int j) = i AND j"
    "sint ((word_of_int i :: i32) OR word_of_int j) = i OR j"
    "sint ((word_of_int i :: i32) XOR word_of_int j) = i XOR j"
  using sint_i32 [OF assms(1)] sint_i32 [OF assms(2)]
  by (simp_all add: signed_and_eq signed_or_eq signed_xor_eq)

lemma shift_amount: "unat (word_of_int j :: i32) mod 32 = nat (j mod 32)"
proof -
  have "int (unat (word_of_int j :: i32)) = j mod 2 ^ 32" by (simp add: uint_word_of_int)
  then have "int (unat (word_of_int j :: i32) mod 32) = j mod 2 ^ 32 mod 32" by (simp add: zmod_int)
  also have "\<dots> = j mod 32" by (simp add: mod_mod_cancel)
  finally show ?thesis by simp
qed

lemma sint_shifts:
  assumes "in_i32 i"
  shows "sint (wrapping_shl (word_of_int i) (word_of_int j)) = signed_take_bit 31 (i * 2 ^ nat (j mod 32))"
    "sint (wrapping_shr (word_of_int i) (word_of_int j)) = i div 2 ^ nat (j mod 32)"
    "sint (wrapping_ushr (word_of_int i) (word_of_int j)) = signed_take_bit 31 (i mod 2 ^ 32 div 2 ^ nat (j mod 32))"
proof -
  have "push_bit k (word_of_int i :: i32) = word_of_int (i * 2 ^ k)" for k
    by (simp add: push_bit_eq_mult)
  then show "sint (wrapping_shl (word_of_int i) (word_of_int j)) = signed_take_bit 31 (i * 2 ^ nat (j mod 32))"
    unfolding wrapping_shl_def shift_amount by (simp only: signed_of_int) simp
  show "sint (wrapping_shr (word_of_int i) (word_of_int j)) = i div 2 ^ nat (j mod 32)"
    by (simp add: wrapping_shr_def shift_amount sint_signed_drop_bit_eq sint_i32 [OF assms] drop_bit_eq_div)
  have "drop_bit k (word_of_int i :: i32) = word_of_int (drop_bit k (take_bit 32 i))" for k
    by (rule bit_word_eqI) (simp add: bit_drop_bit_eq bit_word_of_int_iff bit_take_bit_iff)
  then have "drop_bit k (word_of_int i :: i32) = word_of_int (i mod 2 ^ 32 div 2 ^ k)" for k
    by (simp add: drop_bit_eq_div take_bit_eq_mod)
  then show "sint (wrapping_ushr (word_of_int i) (word_of_int j)) = signed_take_bit 31 (i mod 2 ^ 32 div 2 ^ nat (j mod 32))"
    by (simp add: wrapping_ushr_def shift_amount signed_of_int)
qed

end
