(* ===== verification/Upvalues.thy ===== *)
theory Upvalues
  imports Environment
begin

text \<open>
  Captured variables (\<^verbatim>\<open>crates/night24-gts/src/bytecode/upvalue.rs\<close> and the capture and close
  helpers of \<^verbatim>\<open>interp_helpers/closures.rs\<close>). An upvalue is a cell of the store; while it is open it
  stands for a slot of the frame's operand stack, closing it copies the slot's value.
  The table of open upvalues is the \<^verbatim>\<open>BTreeMap\<close> from slots to upvalues, a list in slot order.
\<close>

section \<open>One upvalue\<close>

definition is_open :: "upvalue \<Rightarrow> bool" where
  "is_open u = (case u of Open _ \<Rightarrow> True | Closed _ \<Rightarrow> False)"

definition open_slot :: "upvalue \<Rightarrow> nat option" where
  "open_slot u = (case u of Open slot \<Rightarrow> Some slot | Closed _ \<Rightarrow> None)"

definition upvalue_get :: "upvalue \<Rightarrow> obj list \<Rightarrow> obj option" where
  "upvalue_get u slots =
     (case u of
        Open slot \<Rightarrow> if slot < length slots then Some (slots ! slot) else None
      | Closed v \<Rightarrow> Some v)"

text \<open>\<^verbatim>\<open>set\<close> returns whether it stored, with the cell and the slots afterwards.\<close>

definition upvalue_set :: "upvalue \<Rightarrow> obj list \<Rightarrow> obj \<Rightarrow> bool \<times> upvalue \<times> obj list" where
  "upvalue_set u slots v =
     (case u of
        Open slot \<Rightarrow>
          if slot < length slots then (True, u, slots[slot := v]) else (False, u, slots)
      | Closed _ \<Rightarrow> (True, Closed v, slots))"

definition close_from_slots :: "upvalue \<Rightarrow> obj list \<Rightarrow> bool \<times> upvalue" where
  "close_from_slots u slots =
     (case u of
        Open slot \<Rightarrow>
          if slot < length slots then (True, Closed (slots ! slot)) else (False, u)
      | Closed _ \<Rightarrow> (True, u))"

section \<open>The open upvalues of a frame\<close>

type_synonym open_table = "(nat \<times> addr list) list"

definition put_upvalue :: "addr \<Rightarrow> upvalue \<Rightarrow> 'x store \<Rightarrow> 'x store" where
  "put_upvalue a u st = st\<lparr>upvalues := (upvalues st)(a := u)\<rparr>"

definition close_upvalue :: "obj list \<Rightarrow> addr \<Rightarrow> 'x store \<Rightarrow> 'x store" where
  "close_upvalue slots a st = put_upvalue a (snd (close_from_slots (upvalues st a) slots)) st"

text \<open>\<^verbatim>\<open>close_open_upvalues_from\<close>: the entries from \<open>first\<close> on are removed and closed in order.\<close>

definition close_open_upvalues_from ::
  "open_table \<Rightarrow> obj list \<Rightarrow> nat \<Rightarrow> 'x store \<Rightarrow> open_table \<times> 'x store" where
  "close_open_upvalues_from table slots first st =
     (filter (\<lambda>e. fst e < first) table,
      fold (close_upvalue slots) (concat (map snd (filter (\<lambda>e. first \<le> fst e) table))) st)"

text \<open>\<^verbatim>\<open>entry(slot).or_default()\<close>, then \<^verbatim>\<open>push\<close>.\<close>

fun table_entry :: "open_table \<Rightarrow> nat \<Rightarrow> addr list" where
  "table_entry [] slot = []"
| "table_entry ((s, us) # t) slot = (if s = slot then us else table_entry t slot)"

fun table_push :: "open_table \<Rightarrow> nat \<Rightarrow> addr list \<Rightarrow> open_table" where
  "table_push [] slot new = [(slot, new)]"
| "table_push ((s, us) # t) slot new =
     (if s = slot then (s, us @ new) # t
      else if slot < s then (slot, new) # (s, us) # t
      else (s, us) # table_push t slot new)"

definition capture_open_upvalue ::
  "open_table \<Rightarrow> nat \<Rightarrow> 'x store \<Rightarrow> addr \<times> open_table \<times> 'x store" where
  "capture_open_upvalue table slot st =
     (case find (\<lambda>a. is_open (upvalues st a)) (table_entry table slot) of
        Some existing \<Rightarrow> (existing, table_push table slot [], st)
      | None \<Rightarrow>
          let (a, st') = new_upvalue (Open slot) st
          in (a, table_push table slot [a], st'))"

text \<open>
  \<^verbatim>\<open>capture_proto_upvalues\<close>: a local that is already bound in the environment is captured by a
  copy of its value; otherwise its slot is captured; an upvalue of the parent is shared.
\<close>

fun capture_upvalues ::
  "function_proto \<Rightarrow> env \<Rightarrow> addr list \<Rightarrow> upvalue_desc list \<Rightarrow> open_table \<Rightarrow> 'x store
   \<Rightarrow> (obj + addr list) \<times> open_table \<times> 'x store" where
  "capture_upvalues proto env current [] table st = (Inr [], table, st)"
| "capture_upvalues proto env current (d # ds) table st =
     (case (case ud_source d of
              LocalSlot slot \<Rightarrow>
                (case env_get st env (ud_name d) of
                   Some v \<Rightarrow> let (a, st') = new_upvalue (Closed v) st in (Inr a, table, st')
                 | None \<Rightarrow>
                     let (a, table', st') = capture_open_upvalue table (unat slot) st
                     in (Inr a, table', st'))
            | ParentUpvalue index \<Rightarrow>
                if unat index < length current then (Inr (current ! unat index), table, st)
                else (Inl (new_error (proto_pos proto)
                        (''VMError: missing parent upvalue '' @ show_nat (unat index) @
                         '' for closure '' @ proto_name proto)), table, st)) of
        (Inl e, table', st') \<Rightarrow> (Inl e, table', st')
      | (Inr a, table', st') \<Rightarrow>
          (case capture_upvalues proto env current ds table' st' of
             (Inl e, table'', st'') \<Rightarrow> (Inl e, table'', st'')
           | (Inr as, table'', st'') \<Rightarrow> (Inr (a # as), table'', st'')))"

definition capture_proto_upvalues ::
  "function_proto \<Rightarrow> env \<Rightarrow> open_table \<Rightarrow> addr list \<Rightarrow> 'x store
   \<Rightarrow> (obj + addr list) \<times> open_table \<times> 'x store" where
  "capture_proto_upvalues proto env table current st =
     capture_upvalues proto env current (proto_upvalue_desc proto) table st"

section \<open>Reading, writing, closing\<close>

lemma upvalue_get_set:
  "upvalue_set u slots v = (True, u', slots') \<Longrightarrow> upvalue_get u' slots' = Some v"
  by (auto simp: upvalue_set_def upvalue_get_def split: upvalue.splits if_splits)

lemma upvalue_set_fails:
  "fst (upvalue_set u slots v) = False \<longleftrightarrow> upvalue_get u slots = None"
  by (auto simp: upvalue_set_def upvalue_get_def split: upvalue.splits)

text \<open>Closing keeps the value, detaches it from the slots, and is final.\<close>

lemma close_keeps_value:
  assumes "close_from_slots u slots = (True, u')"
  shows "\<not> is_open u'" "upvalue_get u' slots' = upvalue_get u slots"
    "close_from_slots u' slots' = (True, u')"
  using assms by (auto simp: close_from_slots_def upvalue_get_def is_open_def split: upvalue.splits if_splits)

lemma close_fails: "fst (close_from_slots u slots) = False \<longleftrightarrow> upvalue_get u slots = None"
  by (auto simp: close_from_slots_def upvalue_get_def split: upvalue.splits)

section \<open>The invariant of the table\<close>

text \<open>
  Slots are strictly increasing, addresses are allocated, and an open cell in the entry of a
  slot stands for that slot; no slot has two open cells.
\<close>

definition entry_inv :: "'x store \<Rightarrow> nat \<Rightarrow> addr list \<Rightarrow> bool" where
  "entry_inv st s us \<longleftrightarrow>
     (\<forall>a\<in>set us. a < next_addr st \<and> (is_open (upvalues st a) \<longrightarrow> upvalues st a = Open s)) \<and>
     length (filter (\<lambda>a. is_open (upvalues st a)) us) \<le> 1"

definition table_inv :: "open_table \<Rightarrow> 'x store \<Rightarrow> bool" where
  "table_inv table st \<longleftrightarrow>
     sorted_wrt (<) (map fst table) \<and> (\<forall>(s, us)\<in>set table. entry_inv st s us)"

lemma table_inv_nil [simp]: "table_inv [] st"
  by (simp add: table_inv_def)

lemma table_entry_in: "sorted_wrt (<) (map fst t) \<Longrightarrow> (s, us) \<in> set t \<Longrightarrow> table_entry t s = us"
  by (induction t s rule: table_entry.induct) fastforce+

lemma table_entry_mem: "table_entry t s = us \<Longrightarrow> us \<noteq> [] \<Longrightarrow> (s, us) \<in> set t"
  by (induction t s rule: table_entry.induct) (auto split: if_splits)

lemma set_table_push:
  "(s, us) \<in> set (table_push t slot new) \<Longrightarrow>
     (s, us) \<in> set t \<or> s = slot \<and> (us = new \<or> (\<exists>old. (slot, old) \<in> set t \<and> us = old @ new))"
  by (induction t slot new rule: table_push.induct) (auto split: if_splits)

lemma fst_table_push: "fst ` set (table_push t slot new) = insert slot (fst ` set t)"
  by (induction t slot new rule: table_push.induct) auto

lemma sorted_table_push: "sorted_wrt (<) (map fst t) \<Longrightarrow> sorted_wrt (<) (map fst (table_push t slot new))"
proof (induction t slot new rule: table_push.induct)
  case (2 s us t slot new)
  show ?case
  proof (cases "s = slot \<or> slot < s")
    case True
    with "2.prems" show ?thesis by (auto intro: less_trans)
  next
    case False
    then have "sorted_wrt (<) (map fst (table_push t slot new))" using 2 by auto
    moreover have "\<forall>x\<in>fst ` set (table_push t slot new). s < x"
      unfolding fst_table_push using False "2.prems" by auto
    ultimately show ?thesis using False by simp
  qed
qed simp

lemma table_entry_push: "table_entry (table_push t slot new) slot = table_entry t slot @ new"
  if "sorted_wrt (<) (map fst t)"
  using that
proof (induction t slot new rule: table_push.induct)
  case (2 s us t slot new)
  have "table_entry t slot = []" if "slot < s"
    using "2.prems" that table_entry_mem [of t slot] by (cases "table_entry t slot") fastforce+
  with 2 show ?case by auto
qed simp

section \<open>Capturing\<close>

lemma find_open_None:
  "find (\<lambda>a. is_open (upvalues st a)) us = None \<longleftrightarrow> filter (\<lambda>a. is_open (upvalues st a)) us = []"
  by (induction us) auto

lemma table_invD: "table_inv table st \<Longrightarrow> (s, us) \<in> set table \<Longrightarrow> entry_inv st s us"
  unfolding table_inv_def by fast

lemma table_invI:
  "sorted_wrt (<) (map fst table) \<Longrightarrow> (\<And>s us. (s, us) \<in> set table \<Longrightarrow> entry_inv st s us) \<Longrightarrow>
     table_inv table st"
  unfolding table_inv_def by fast

lemma table_inv_sorted: "table_inv table st \<Longrightarrow> sorted_wrt (<) (map fst table)"
  by (simp add: table_inv_def)

lemma table_inv_entry:
  assumes "table_inv table st" "a \<in> set (table_entry table slot)"
  shows "a < next_addr st" "is_open (upvalues st a) \<Longrightarrow> upvalues st a = Open slot"
proof -
  have "table_entry table slot \<noteq> []" using assms(2) by auto
  then have "(slot, table_entry table slot) \<in> set table" using table_entry_mem by blast
  from table_invD [OF assms(1) this] assms(2)
  show "a < next_addr st" "is_open (upvalues st a) \<Longrightarrow> upvalues st a = Open slot"
    by (simp_all add: entry_inv_def)
qed

lemma table_inv_alloc:
  assumes "table_inv table st" "new_upvalue u st = (a, st')"
  shows "table_inv table st'" "upvalues st' a = u" "next_addr st' = Suc a" "a = next_addr st"
    "\<And>b. b < a \<Longrightarrow> upvalues st' b = upvalues st b"
proof -
  have st': "a = next_addr st" "upvalues st' = (upvalues st)(a := u)" "next_addr st' = Suc a"
    using assms(2) by (auto simp: new_upvalue_def)
  have "entry_inv st' s us" if "entry_inv st s us" for s us
  proof -
    from that have old: "\<forall>b\<in>set us. b < a" by (simp add: entry_inv_def st')
    then have "filter (\<lambda>b. is_open (upvalues st' b)) us = filter (\<lambda>b. is_open (upvalues st b)) us"
      by (intro filter_cong) (auto simp: st'(2))
    with that old show ?thesis by (auto simp: entry_inv_def st'(2,3))
  qed
  with assms(1) show "table_inv table st'" by (auto simp: table_inv_def)
qed (use assms(2) in \<open>auto simp: new_upvalue_def\<close>)

lemma table_inv_push:
  assumes inv: "table_inv table st" and none: "\<forall>b\<in>set (table_entry table slot). \<not> is_open (upvalues st b)"
    and a: "a < next_addr st" "upvalues st a = Open slot"
  shows "table_inv (table_push table slot [a]) st"
proof (rule table_invI)
  show "sorted_wrt (<) (map fst (table_push table slot [a]))"
    using table_inv_sorted [OF inv] by (rule sorted_table_push)
  fix s us assume "(s, us) \<in> set (table_push table slot [a])"
  from set_table_push [OF this] consider "(s, us) \<in> set table" | "s = slot" "us = [a]"
    | old where "s = slot" "(slot, old) \<in> set table" "us = old @ [a]" by auto
  then show "entry_inv st s us"
  proof cases
    case 1
    with inv show ?thesis by (rule table_invD)
  next
    case 2
    with a show ?thesis by (simp add: entry_inv_def)
  next
    case 3
    then have "table_entry table slot = old" using table_inv_sorted [OF inv] by (simp add: table_entry_in)
    with none have "filter (\<lambda>a. is_open (upvalues st a)) old = []" by (simp add: filter_empty_conv)
    with table_invD [OF inv 3(2)] 3 a show ?thesis by (auto simp: entry_inv_def)
  qed
qed

lemma table_push_nil: "table_entry table slot \<noteq> [] \<Longrightarrow> sorted_wrt (<) (map fst table) \<Longrightarrow> table_push table slot [] = table"
proof (induction table slot "[] :: addr list" rule: table_push.induct)
  case (2 s us t slot)
  have "table_entry t slot = []" if "slot < s"
    using "2.prems"(2) that table_entry_mem [of t slot] by (cases "table_entry t slot") fastforce+
  with 2 show ?case by auto
qed simp

lemma capture_open_upvalue_inv:
  assumes inv: "table_inv table st" and cap: "capture_open_upvalue table slot st = (a, table', st')"
  shows "table_inv table' st' \<and> upvalues st' a = Open slot \<and>
    find (\<lambda>b. is_open (upvalues st' b)) (table_entry table' slot) = Some a"
proof -
  have sorted: "sorted_wrt (<) (map fst table)" using inv by (simp add: table_inv_def)
  show ?thesis
  proof (cases "find (\<lambda>b. is_open (upvalues st b)) (table_entry table slot)")
    case (Some b)
    then have b: "b \<in> set (table_entry table slot)" "is_open (upvalues st b)"
      by (auto simp: find_Some_iff)
    then have "table_push table slot [] = table" using sorted by (intro table_push_nil) auto
    with Some cap inv b show ?thesis
      using table_inv_entry(2) [OF inv b(1)] by (simp add: capture_open_upvalue_def)
  next
    case None
    obtain st'' where new: "new_upvalue (Open slot) st = (next_addr st, st'')"
      by (simp add: new_upvalue_def)
    note al = table_inv_alloc [OF inv new]
    have out: "a = next_addr st" "table' = table_push table slot [a]" "st' = st''"
      using cap None new by (auto simp: capture_open_upvalue_def)
    have closed: "\<not> is_open (upvalues st'' b)" if "b \<in> set (table_entry table slot)" for b
      using None that table_inv_entry(1) [OF inv that] al(5) by (auto simp: find_None_iff)
    have "table_inv table' st'"
      unfolding out using al closed by (intro table_inv_push) auto
    moreover have "find (\<lambda>b. is_open (upvalues st' b)) (table_entry table' slot) = Some a"
    proof -
      have "filter (\<lambda>b. is_open (upvalues st' b)) (table_entry table slot) = []"
        using closed by (simp add: filter_empty_conv out)
      moreover have "find P (xs @ [x]) = Some x" if "filter P xs = []" "P x" for P :: "addr \<Rightarrow> bool" and xs x
        using that by (induction xs) (auto split: if_splits)
      ultimately show ?thesis
        using sorted al(2) by (simp add: out table_entry_push is_open_def)
    qed
    ultimately show ?thesis using al(2) out by simp
  qed
qed

text \<open>Capturing a slot again, with nothing closed in between, gives the same cell.\<close>

lemma capture_open_upvalue_again:
  assumes "table_inv table st" "capture_open_upvalue table slot st = (a, table', st')"
  shows "capture_open_upvalue table' slot st' = (a, table', st')"
proof -
  from capture_open_upvalue_inv [OF assms] have inv: "table_inv table' st'"
    and f: "find (\<lambda>b. is_open (upvalues st' b)) (table_entry table' slot) = Some a" by auto
  then have "table_entry table' slot \<noteq> []" by auto
  then have "table_push table' slot [] = table'"
    using inv by (simp add: table_push_nil table_inv_def)
  with f show ?thesis by (simp add: capture_open_upvalue_def)
qed

section \<open>Closing\<close>

lemma close_twice:
  "snd (close_from_slots (snd (close_from_slots u slots)) slots) = snd (close_from_slots u slots)"
  by (auto simp: close_from_slots_def split: upvalue.split)

lemma fold_close:
  "upvalues (fold (close_upvalue slots) as st) a =
     (if a \<in> set as then snd (close_from_slots (upvalues st a) slots) else upvalues st a)
   \<and> next_addr (fold (close_upvalue slots) as st) = next_addr st"
  by (induction as arbitrary: st) (auto simp: close_upvalue_def put_upvalue_def close_twice)

lemma close_open_upvalues_value:
  assumes inv: "table_inv table st"
    and close: "close_open_upvalues_from table slots first st = (table', st')"
    and e: "(s, us) \<in> set table" "a \<in> set us" "first \<le> s" "s < length slots"
  shows "\<not> is_open (upvalues st' a) \<and> upvalue_get (upvalues st' a) anything = upvalue_get (upvalues st a) slots"
proof -
  have st': "st' = fold (close_upvalue slots) (concat (map snd (filter (\<lambda>e. first \<le> fst e) table))) st"
    using close by (simp add: close_open_upvalues_from_def)
  have "a \<in> set (concat (map snd (filter (\<lambda>e. first \<le> fst e) table)))" using e by force
  then have u: "upvalues st' a = snd (close_from_slots (upvalues st a) slots)"
    by (simp only: st' fold_close) simp
  have "is_open (upvalues st a) \<longrightarrow> upvalues st a = Open s"
    using table_invD [OF inv e(1)] e(2) by (simp add: entry_inv_def)
  then show ?thesis
    using e(4) unfolding u
    by (auto simp: close_from_slots_def is_open_def upvalue_get_def split: upvalue.splits)
qed

lemma close_open_upvalues_inv:
  assumes "table_inv table st" "close_open_upvalues_from table slots first st = (table', st')"
  shows "table_inv table' st' \<and> fst ` set table' \<subseteq> {..<first}"
proof -
  have t': "table' = filter (\<lambda>e. fst e < first) table"
    and st': "st' = fold (close_upvalue slots) (concat (map snd (filter (\<lambda>e. first \<le> fst e) table))) st"
    using assms(2) by (simp_all add: close_open_upvalues_from_def)
  have open_st': "is_open (upvalues st' a) \<Longrightarrow> is_open (upvalues st a) \<and> upvalues st' a = upvalues st a"
    and next_st': "next_addr st' = next_addr st" for a
    unfolding st' using fold_close [of slots _ st a]
    by (auto simp: close_from_slots_def is_open_def split: upvalue.splits if_splits)
  have len: "length (filter (\<lambda>a. is_open (upvalues st' a)) us) \<le> length (filter (\<lambda>a. is_open (upvalues st a)) us)" for us
    using open_st' by (induction us) (auto intro: le_SucI)
  have "table_inv table' st'"
  proof (rule table_invI)
    show "sorted_wrt (<) (map fst table')"
      using table_inv_sorted [OF assms(1)] unfolding t' by (simp add: sorted_wrt_map sorted_wrt_filter)
    fix s us assume "(s, us) \<in> set table'"
    then have "entry_inv st s us" using table_invD [OF assms(1)] by (simp add: t')
    then show "entry_inv st' s us"
      unfolding entry_inv_def next_st' using open_st' len [of us] by (metis order_trans)
  qed
  then show ?thesis by (auto simp: t')
qed

lemma close_open_upvalues_cells:
  assumes inv: "table_inv table st"
    and close: "close_open_upvalues_from table slots first st = (table', st')"
    and e: "(s, us) \<in> set table" "a \<in> set us" "first \<le> s"
  shows "upvalues st' a = (if is_open (upvalues st a) \<and> s < length slots then Closed (slots ! s) else upvalues st a)"
proof -
  have st': "st' = fold (close_upvalue slots) (concat (map snd (filter (\<lambda>e. first \<le> fst e) table))) st"
    using close by (simp add: close_open_upvalues_from_def)
  have "a \<in> set (concat (map snd (filter (\<lambda>e. first \<le> fst e) table)))" using e by force
  then have u: "upvalues st' a = snd (close_from_slots (upvalues st a) slots)"
    by (simp only: st' fold_close) simp
  have "is_open (upvalues st a) \<longrightarrow> upvalues st a = Open s"
    using table_invD [OF inv e(1)] e(2) by (simp add: entry_inv_def)
  then show ?thesis
    unfolding u by (auto simp: close_from_slots_def is_open_def split: upvalue.splits)
qed

end
