(* ===== verification/Vm_State.thy ===== *)
theory Vm_State
  imports State_Result Operators Upvalues Layout
begin

unbundle bit_operations_syntax

text \<open>
  The state of a frame of the bytecode interpreter (\<^verbatim>\<open>VmState\<close> of
  \<^verbatim>\<open>crates/night24-gts/src/bytecode/interp.rs\<close>), the readers of operands
  (\<^verbatim>\<open>interp_helpers/operands.rs\<close>), the stack helpers (\<^verbatim>\<open>stack.rs\<close>) and the helpers of control flow
  and exceptions (\<^verbatim>\<open>control.rs\<close>).

  An operation of the VM is a \<open>sr\<close> function on the frame, one that only touches the store a
  \<open>sr\<close> function on the store. Every \<^verbatim>\<open>Err\<close> of the code is an error object; the model also says
  where it comes from: \<open>Fault\<close> is the complaint that the bytecode itself is malformed, \<open>Thrown\<close>
  every other error. \<open>Panic\<close> is a panic of the host program, \<open>Diverges\<close> a computation that
  does not return.
\<close>

section \<open>Errors and state\<close>

datatype run_err = Thrown obj | Panic | Diverges
datatype vm_err = Fault obj | Raise run_err

record 'x vm =
  v_ip :: nat
  v_last_ip :: nat
  v_stack :: "obj list"
  v_env :: env
  v_open :: open_table
  v_upvalues :: "addr list"
  v_count :: u64
  v_mem :: "'x store"

type_synonym ('x, 'a) mem_op = "('x store, run_err, 'a) sr"
type_synonym ('x, 'a) vm_op = "('x vm, vm_err, 'a) sr"

definition on_mem :: "('x, 'a) mem_op \<Rightarrow> ('x, 'a) vm_op" where
  "on_mem m = (\<lambda>s. case m (v_mem s) of
     (Inl e, st) \<Rightarrow> (Inl (Raise e), s\<lparr>v_mem := st\<rparr>)
   | (Inr x, st) \<Rightarrow> (Inr x, s\<lparr>v_mem := st\<rparr>))"

definition raise :: "obj \<Rightarrow> ('x, 'a) vm_op" where
  "raise e = err (Raise (Thrown e))"

text \<open>Results that are error values are errors: \<^verbatim>\<open>if r.is_runtime_error() { return Err(r) }\<close>.\<close>

definition checked :: "obj \<Rightarrow> ('s, run_err, obj) sr" where
  "checked v = (if is_runtime_error v then err (Thrown v) else ret v)"

text \<open>A computation that may not return, and one that may overflow the native stack.\<close>

definition returns :: "'a option \<Rightarrow> ('s, run_err, 'a) sr" where
  "returns r = (case r of None \<Rightarrow> err Diverges | Some x \<Rightarrow> ret x)"

definition in_depth :: "'a option \<Rightarrow> ('s, run_err, 'a) sr" where
  "in_depth r = (case r of None \<Rightarrow> err Panic | Some x \<Rightarrow> ret x)"

section \<open>Stack\<close>

definition stack_underflow :: "position \<Rightarrow> obj" where
  "stack_underflow pos = new_error pos ''VMError: stack underflow''"

definition push :: "obj \<Rightarrow> ('x, unit) vm_op" where
  "push v = modify (\<lambda>s. s\<lparr>v_stack := v_stack s @ [v]\<rparr>)"

text \<open>\<^verbatim>\<open>stack.pop().ok_or_else(|| stack_underflow(pos))?\<close> and \<^verbatim>\<open>stack.last()\<close> likewise.\<close>

definition pop :: "position \<Rightarrow> ('x, obj) vm_op" where
  "pop pos = (\<lambda>s. if v_stack s = [] then (Inl (Raise (Thrown (stack_underflow pos))), s)
                  else (Inr (last (v_stack s)), s\<lparr>v_stack := butlast (v_stack s)\<rparr>))"

definition top :: "position \<Rightarrow> ('x, obj) vm_op" where
  "top pos = (\<lambda>s. if v_stack s = [] then (Inl (Raise (Thrown (stack_underflow pos))), s)
                  else (Inr (last (v_stack s)), s))"

text \<open>\<^verbatim>\<open>stack.split_off(stack.len() - n)\<close>.\<close>

definition split_off :: "nat \<Rightarrow> ('x, obj list) vm_op" where
  "split_off n = update (\<lambda>s. let k = length (v_stack s) - n
     in (drop k (v_stack s), s\<lparr>v_stack := take k (v_stack s)\<rparr>))"

definition dup_stack :: "position \<Rightarrow> ('x, unit) vm_op" where
  "dup_stack pos = andthen (top pos) push"

definition apply_binary_stack_op :: "(f64 \<Rightarrow> f64 \<Rightarrow> f64) \<Rightarrow> string \<Rightarrow> position \<Rightarrow> ('x, unit) vm_op" where
  "apply_binary_stack_op pow op pos =
     andthen (pop pos) (\<lambda>right.
     andthen (pop pos) (\<lambda>left.
     andthen (on_mem (\<lambda>st. andthen (returns (apply_binary_op pow st op left right pos)) checked st)) push))"

definition apply_unary_stack_op :: "string \<Rightarrow> position \<Rightarrow> ('x, unit) vm_op" where
  "apply_unary_stack_op op pos =
     andthen (pop pos) (\<lambda>right. andthen (on_mem (checked (apply_unary_op op right pos))) push)"

text \<open>\<^verbatim>\<open>value.inspect()\<close> within the depth \<open>n\<close> of the native stack.\<close>

definition inspect_op :: "(f64 \<Rightarrow> string) \<Rightarrow> nat \<Rightarrow> obj \<Rightarrow> ('x, string) mem_op" where
  "inspect_op fmt n v = (\<lambda>st. in_depth (inspect fmt st n v) st)"

definition to_string_stack :: "(f64 \<Rightarrow> string) \<Rightarrow> nat \<Rightarrow> position \<Rightarrow> ('x, unit) vm_op" where
  "to_string_stack fmt n pos =
     andthen (pop pos) (\<lambda>v. andthen (on_mem (inspect_op fmt n v)) (\<lambda>s. push (OString s)))"

definition type_of_stack :: "position \<Rightarrow> ('x, unit) vm_op" where
  "type_of_stack pos = andthen (pop pos) (\<lambda>v. push (OString (typeof_name v)))"

section \<open>Operands\<close>

definition missing_operand :: "chunk \<Rightarrow> nat \<Rightarrow> string \<Rightarrow> vm_err" where
  "missing_operand c ip opcode =
     Fault (new_error (position_at c (ip - 1)) (''VMError: '' @ opcode @ '' missing operand''))"

definition read_byte_operand :: "chunk \<Rightarrow> string \<Rightarrow> ('x, u8) vm_op" where
  "read_byte_operand c opcode = (\<lambda>s.
     let ip = v_ip s
     in if ip < length (code c) then (Inr (code c ! ip), s\<lparr>v_ip := ip + 1\<rparr>)
        else (Inl (missing_operand c ip opcode), s))"

definition read_byte_operand_with_pos :: "chunk \<Rightarrow> string \<Rightarrow> ('x, nat \<times> position) vm_op" where
  "read_byte_operand_with_pos c opcode =
     andthen (read_byte_operand c opcode) (\<lambda>b.
     andthen (gets v_ip) (\<lambda>ip. ret (unat b, position_at c (ip - 2))))"

definition read_u16_operand :: "chunk \<Rightarrow> string \<Rightarrow> ('x, u16) vm_op" where
  "read_u16_operand c opcode = (\<lambda>s.
     let ip = v_ip s
     in if ip + 2 \<le> length (code c)
        then (Inr (word16 (code c ! ip) (code c ! (ip + 1))), s\<lparr>v_ip := ip + 2\<rparr>)
        else (Inl (missing_operand c ip opcode), s))"

definition read_u16_operand_with_pos :: "chunk \<Rightarrow> string \<Rightarrow> ('x, u16 \<times> position) vm_op" where
  "read_u16_operand_with_pos c opcode =
     andthen (read_u16_operand c opcode) (\<lambda>v.
     andthen (gets v_ip) (\<lambda>ip. ret (v, position_at c (ip - 3))))"

definition read_usize_operand_with_pos :: "chunk \<Rightarrow> string \<Rightarrow> ('x, nat \<times> position) vm_op" where
  "read_usize_operand_with_pos c opcode =
     andthen (read_u16_operand_with_pos c opcode) (\<lambda>(v, pos). ret (unat v, pos))"

definition read_u32_operand :: "chunk \<Rightarrow> string \<Rightarrow> ('x, u32) vm_op" where
  "read_u32_operand c opcode = (\<lambda>s.
     let ip = v_ip s
     in if ip + 4 \<le> length (code c)
        then (Inr (word32 (code c ! ip) (code c ! (ip + 1)) (code c ! (ip + 2)) (code c ! (ip + 3))),
              s\<lparr>v_ip := ip + 4\<rparr>)
        else (Inl (missing_operand c ip opcode), s))"

definition read_u32_operand_with_pos :: "chunk \<Rightarrow> string \<Rightarrow> ('x, u32 \<times> position) vm_op" where
  "read_u32_operand_with_pos c opcode =
     andthen (read_u32_operand c opcode) (\<lambda>v.
     andthen (gets v_ip) (\<lambda>ip. ret (v, position_at c (ip - 5))))"

definition read_string_const :: "obj list \<Rightarrow> nat \<Rightarrow> position \<Rightarrow> string \<Rightarrow> ('x, string) vm_op" where
  "read_string_const cs idx pos opcode =
     (case (if idx < length cs then Some (cs ! idx) else None) of
        Some (OString s) \<Rightarrow> ret s
      | _ \<Rightarrow> err (Fault (new_error pos (''VMError: '' @ opcode @ '' operand is not a string''))))"

definition read_string_operand :: "chunk \<Rightarrow> string \<Rightarrow> ('x, string \<times> position) vm_op" where
  "read_string_operand c opcode =
     andthen (read_u16_operand c opcode) (\<lambda>idx.
     andthen (gets v_ip) (\<lambda>ip. let pos = position_at c (ip - 3) in
     andthen (read_string_const (constants c) (unat idx) pos opcode) (\<lambda>s. ret (s, pos))))"

definition read_name_operand :: "chunk \<Rightarrow> string \<Rightarrow> ('x, string \<times> bool \<times> position) vm_op" where
  "read_name_operand c opcode =
     andthen (read_u16_operand c opcode) (\<lambda>operand.
     andthen (gets v_ip) (\<lambda>ip.
     let pos = position_at c (ip - 3);
         is_const = (operand AND 0x8000 \<noteq> 0);
         name_idx = unat (operand AND 0x7FFF)
     in andthen (read_string_const (constants c) name_idx pos opcode) (\<lambda>name.
        ret (name, is_const, pos))))"

definition read_const_operand :: "chunk \<Rightarrow> string \<Rightarrow> ('x, obj) vm_op" where
  "read_const_operand c opcode =
     andthen (read_u16_operand c opcode) (\<lambda>idx.
     andthen (gets v_ip) (\<lambda>ip.
     if unat idx < length (constants c) then ret (constants c ! unat idx)
     else err (Fault (new_error (position_at c (ip - 3))
            (''VMError: '' @ opcode @ '' constant index '' @ show_nat (unat idx) @ '' out of range'')))))"

definition push_const_from_operand :: "chunk \<Rightarrow> ('x, unit) vm_op" where
  "push_const_from_operand c = andthen (read_const_operand c ''CONST'') push"

definition read_type_operand :: "chunk \<Rightarrow> string \<Rightarrow> position \<Rightarrow> ('x, type_annotation) vm_op" where
  "read_type_operand c opcode pos =
     andthen (read_u16_operand c opcode) (\<lambda>idx.
     if unat idx < length (types c) then ret (types c ! unat idx)
     else err (Fault (new_error pos (''VMError: missing type annotation '' @ show_nat (unat idx)))))"

section \<open>Control flow\<close>

definition jump_to_operand :: "chunk \<Rightarrow> string \<Rightarrow> ('x, unit) vm_op" where
  "jump_to_operand c opcode =
     andthen (read_u32_operand c opcode) (\<lambda>target. modify (\<lambda>s. s\<lparr>v_ip := unat target\<rparr>))"

definition conditional_jump_from_stack :: "chunk \<Rightarrow> string \<Rightarrow> bool \<Rightarrow> ('x, unit) vm_op" where
  "conditional_jump_from_stack c opcode jump_when_truthy =
     andthen (read_u32_operand_with_pos c opcode) (\<lambda>(target, pos).
     andthen (pop pos) (\<lambda>cond.
     if is_truthy cond = jump_when_truthy then modify (\<lambda>s. s\<lparr>v_ip := unat target\<rparr>) else ret ()))"

text \<open>
  \<^verbatim>\<open>throw_value\<close>: an error value is thrown with its runtime flag set, its position and stack
  filled in where they were empty; any other value is wrapped, and kept in \<^verbatim>\<open>thrown\<close>.
\<close>

definition throw_value :: "(f64 \<Rightarrow> string) \<Rightarrow> nat \<Rightarrow> obj \<Rightarrow> position \<Rightarrow> ('x, obj) mem_op" where
  "throw_value fmt n v pos =
     (case v of
        OError message name stack runtime epos thrown \<Rightarrow>
          ret (OError message name
                 (if stack = [] then error_stack pos name message else stack) True
                 (if pos_is_zero epos then pos else epos) thrown)
      | _ \<Rightarrow>
          andthen (inspect_op fmt n v) (\<lambda>text.
          ret (case new_named_error pos ''Error'' text of
                 OError message name stack runtime epos _ \<Rightarrow>
                   OError message name stack runtime epos (Some v)
               | other \<Rightarrow> other)))"

definition throw_from_stack :: "(f64 \<Rightarrow> string) \<Rightarrow> nat \<Rightarrow> position \<Rightarrow> ('x, 'a) vm_op" where
  "throw_from_stack fmt n pos =
     andthen (pop pos) (\<lambda>v. andthen (on_mem (throw_value fmt n v pos)) raise)"

definition throw_match_error_from_stack ::
  "(f64 \<Rightarrow> string) \<Rightarrow> nat \<Rightarrow> position \<Rightarrow> ('x, 'a) vm_op" where
  "throw_match_error_from_stack fmt n pos =
     andthen (pop pos) (\<lambda>v. andthen (on_mem (inspect_op fmt n v)) (\<lambda>text.
     raise (new_error pos (''MatchError: no arm matched for '' @ text))))"

fun catch_value :: "obj \<Rightarrow> obj" where
  "catch_value (OError message name stack _ epos thrown) = OError message name stack False epos thrown"
| "catch_value other = other"

text \<open>\<^verbatim>\<open>Iterator::max_by_key\<close>: the last of the elements with the largest key.\<close>

fun max_by_key :: "('a \<Rightarrow> u32) \<Rightarrow> 'a list \<Rightarrow> 'a option" where
  "max_by_key key [] = None"
| "max_by_key key (x # xs) =
     (case max_by_key key xs of
        None \<Rightarrow> Some x
      | Some y \<Rightarrow> if key y < key x then Some x else Some y)"

definition protects :: "u32 \<Rightarrow> protected_region \<Rightarrow> bool" where
  "protects fault_ip r \<longleftrightarrow> try_start r \<le> fault_ip \<and> fault_ip < try_end r \<and> try_end r < handler_ip r"

text \<open>The handler for an error at \<open>last_ip\<close>; the caught value is pushed.\<close>

definition unwind_stack_to_handler ::
  "chunk \<Rightarrow> nat \<Rightarrow> obj list \<Rightarrow> obj \<Rightarrow> (nat \<times> obj list) option" where
  "unwind_stack_to_handler c last_ip stack error =
     (case max_by_key try_start (filter (protects (of_nat last_ip)) (protected_regions c)) of
        None \<Rightarrow> None
      | Some region \<Rightarrow> Some (unat (handler_ip region), stack @ [catch_value error]))"

section \<open>The handler is the innermost\<close>

lemma max_by_key_None: "max_by_key key xs = None \<longleftrightarrow> xs = []"
  by (cases xs) (auto split: option.split)

lemma max_by_key_Some:
  "max_by_key key xs = Some x \<Longrightarrow> x \<in> set xs \<and> (\<forall>y\<in>set xs. key y \<le> key x)"
  by (induction xs arbitrary: x) (fastforce simp: max_by_key_None split: option.splits if_splits)+

lemma max_by_key_last:
  "max_by_key key (filter P xs) = Some x \<Longrightarrow> \<exists>pre post. xs = pre @ x # post \<and> P x \<and>
     (\<forall>q\<in>set pre. P q \<longrightarrow> key q \<le> key x) \<and> (\<forall>q\<in>set post. P q \<longrightarrow> key q < key x)"
proof (induction xs)
  case (Cons y ys)
  show ?case
  proof (cases "P y \<and> (\<forall>z. max_by_key key (filter P ys) = Some z \<longrightarrow> key z < key y)")
    case True
    then have "x = y" using Cons.prems by (auto split: option.splits)
    moreover have "key q < key y" if "q \<in> set ys" "P q" for q
    proof -
      from that obtain z where z: "max_by_key key (filter P ys) = Some z"
        by (cases "max_by_key key (filter P ys)") (auto simp: max_by_key_None filter_empty_conv)
      with max_by_key_Some [OF z] that True show ?thesis by force
    qed
    ultimately show ?thesis using True by (intro exI [of _ "[]"] exI [of _ ys]) simp
  next
    case False
    then have x: "max_by_key key (filter P ys) = Some x" and "P y \<longrightarrow> key y \<le> key x"
      using Cons.prems by (auto split: option.splits if_splits)
    with Cons.IH obtain pre post where "ys = pre @ x # post" "P x"
      "\<forall>q\<in>set pre. P q \<longrightarrow> key q \<le> key x" "\<forall>q\<in>set post. P q \<longrightarrow> key q < key x" by blast
    with \<open>P y \<longrightarrow> key y \<le> key x\<close> show ?thesis
      by (intro exI [of _ "y # pre"] exI [of _ post]) simp
  qed
qed simp

end
