(* ===== verification/Vm_Calls.thy ===== *)
theory Vm_Calls
  imports Vm_State Compiler
begin

unbundle bit_operations_syntax

text \<open>
  What a frame of the VM needs of the rest of the program, the record \<open>world\<close>, and calls:
  parameter binding and \<open>apply_function\<close> of \<^verbatim>\<open>evaluator/expressions.rs\<close>, the call helpers of
  \<^verbatim>\<open>interp_helpers/calls.rs\<close>, class construction (\<^verbatim>\<open>bytecode/class.rs\<close>).

  The world's operations are arguments of the model: the functions of builtins, the tree
  walker, property lookup, the module loader and the clock. Each works on the whole store and
  may panic or not return; nothing is assumed of them.
\<close>

section \<open>The rest of the program\<close>

datatype 'a host_result = Done 'a | HostPanic | HostDiverges

type_synonym ('x, 'a) host_fun = "'x store \<Rightarrow> 'a host_result \<times> 'x store"

record 'x world =
  w_fmt :: "f64 \<Rightarrow> string"
  w_pow :: "f64 \<Rightarrow> f64 \<Rightarrow> f64"
  w_depth :: nat
  w_instruction_limit :: u64
  w_deadline_exceeded :: "'x \<Rightarrow> bool \<times> 'x"
  w_compiler :: host
  w_compile_depth :: nat
  w_builtin :: "nat \<Rightarrow> env \<Rightarrow> position \<Rightarrow> obj option \<Rightarrow> obj list \<Rightarrow> ('x, obj) host_fun"
  w_eval_expr :: "expr \<Rightarrow> env \<Rightarrow> ('x, obj) host_fun"
  w_eval_block :: "gblock \<Rightarrow> env \<Rightarrow> ('x, obj) host_fun"
  w_run_async :: "addr \<Rightarrow> env \<Rightarrow> env \<Rightarrow> obj list \<Rightarrow> position \<Rightarrow> ('x, obj) host_fun"
  w_get_property :: "obj \<Rightarrow> string \<Rightarrow> position \<Rightarrow> ('x, obj) host_fun"
  w_get_index :: "obj \<Rightarrow> obj \<Rightarrow> position \<Rightarrow> ('x, obj) host_fun"
  w_get_super_constructor :: "env \<Rightarrow> position \<Rightarrow> ('x, obj) host_fun"
  w_get_super_method :: "env \<Rightarrow> string \<Rightarrow> position \<Rightarrow> ('x, obj) host_fun"
  w_construct_class :: "addr \<Rightarrow> env \<Rightarrow> obj list \<Rightarrow> position \<Rightarrow> ('x, obj) host_fun"
  w_construct_builtin :: "addr \<Rightarrow> env \<Rightarrow> obj list \<Rightarrow> position \<Rightarrow> ('x, obj) host_fun"
  w_importer :: "(env \<Rightarrow> string \<Rightarrow> ('x, obj + obj) host_fun) option"
  w_wait_async :: "('x, unit) host_fun"
  w_register_globals :: "'x store \<Rightarrow> 'x store"

definition host_op :: "('x, 'a) host_fun \<Rightarrow> ('x, 'a) mem_op" where
  "host_op f = (\<lambda>st. case f st of
     (Done x, t) \<Rightarrow> (Inr x, t)
   | (HostPanic, t) \<Rightarrow> (Inl Panic, t)
   | (HostDiverges, t) \<Rightarrow> (Inl Diverges, t))"

definition throw :: "obj \<Rightarrow> ('x, 'a) mem_op" where
  "throw e = err (Thrown e)"

text \<open>\<^verbatim>\<open>match r { Ok(v) => v, Err(e) => e }\<close>.\<close>

definition as_value :: "('x, obj) mem_op \<Rightarrow> ('x, obj) mem_op" where
  "as_value m = (\<lambda>s. case m s of (Inl (Thrown e), t) \<Rightarrow> (Inr e, t) | r \<Rightarrow> r)"

text \<open>A bytecode closure called by its address, with arguments, caller, receiver and position.\<close>

type_synonym 'x caller = "addr \<Rightarrow> obj list \<Rightarrow> env \<Rightarrow> obj option \<Rightarrow> position \<Rightarrow> ('x, obj) mem_op"

section \<open>Binding parameters\<close>

fun bind_params_from :: "'x world \<Rightarrow> env \<Rightarrow> obj list \<Rightarrow> nat \<Rightarrow> gparam list \<Rightarrow> ('x, unit) mem_op" where
  "bind_params_from w scope args i [] = ret ()"
| "bind_params_from w scope args i (p # ps) =
     (if i < length args then
        (if param_spread p then
           andthen (update (new_array (drop i args))) (\<lambda>rest.
           modify (set_here scope (param_name p) rest))
         else
           andthen (modify (set_here scope (param_name p) (args ! i))) (\<lambda>_.
           bind_params_from w scope args (i + 1) ps))
      else
        andthen (case param_default p of
                   Some d \<Rightarrow> andthen (host_op (w_eval_expr w d scope)) checked
                 | None \<Rightarrow> ret OUndefined) (\<lambda>v.
        andthen (modify (set_here scope (param_name p) v)) (\<lambda>_.
        bind_params_from w scope args (i + 1) ps)))"

definition bind_arguments_object :: "env \<Rightarrow> obj list \<Rightarrow> ('x, unit) mem_op" where
  "bind_arguments_object scope args =
     andthen (gets (\<lambda>st. sc_bindings (scopes st (hd scope)) ''arguments'' \<noteq> None)) (\<lambda>already_bound.
     if already_bound then ret ()
     else andthen (update (new_array args)) (\<lambda>arguments.
          modify (set_here scope ''arguments'' arguments)))"

definition bind_params :: "'x world \<Rightarrow> env \<Rightarrow> gparam list \<Rightarrow> obj list \<Rightarrow> ('x, unit) mem_op" where
  "bind_params w scope params args =
     andthen (bind_params_from w scope args 0 params) (\<lambda>_. bind_arguments_object scope args)"

definition set_this :: "env \<Rightarrow> obj option \<Rightarrow> 'x store \<Rightarrow> 'x store" where
  "set_this scope this st =
     st\<lparr>scopes := (scopes st)(hd scope := (scopes st (hd scope))\<lparr>sc_this := this\<rparr>)\<rparr>"

text \<open>An explicit receiver wins; without one, only lexical functions keep the inherited \<^verbatim>\<open>this\<close>.\<close>

definition bind_this :: "env \<Rightarrow> obj option \<Rightarrow> bool \<Rightarrow> ('x, unit) mem_op" where
  "bind_this scope this lexical_this =
     (case this of
        Some t \<Rightarrow> modify (set_this scope (Some t))
      | None \<Rightarrow> if lexical_this then ret () else modify (set_this scope None))"

section \<open>Calling values\<close>

definition or_else :: "'a option \<Rightarrow> 'a option \<Rightarrow> 'a option" where
  "or_else a b = (case a of Some x \<Rightarrow> Some x | None \<Rightarrow> b)"

definition run_builtin ::
  "'x world \<Rightarrow> addr \<Rightarrow> env \<Rightarrow> position \<Rightarrow> obj option \<Rightarrow> obj list \<Rightarrow> ('x, obj) mem_op" where
  "run_builtin w a env pos receiver args =
     andthen (gets (\<lambda>st. bi_func (builtins st a))) (\<lambda>f. host_op (w_builtin w f env pos receiver args))"

definition apply_function ::
  "'x world \<Rightarrow> 'x caller \<Rightarrow> obj \<Rightarrow> env \<Rightarrow> obj list \<Rightarrow> obj option \<Rightarrow> position \<Rightarrow> ('x, obj) mem_op" where
  "apply_function w call func caller_env args this pos =
     (case func of
        OFunction a \<Rightarrow>
          andthen (gets (\<lambda>st. function_cells st a)) (\<lambda>f.
          andthen (update (env_child (f_env f))) (\<lambda>scope.
          andthen (bind_this scope this (f_lexical_this f)) (\<lambda>_.
          if f_is_async f then host_op (w_run_async w a scope caller_env args pos)
          else as_value
            (andthen (bind_params w scope (f_params f) args) (\<lambda>_.
             andthen (host_op (w_eval_block w (f_body f) scope)) (\<lambda>result.
             ret (case result of OReturn r \<Rightarrow> r | other \<Rightarrow> other)))))))
      | OBuiltin a \<Rightarrow>
          andthen (gets (\<lambda>st. bi_extra (builtins st a))) (\<lambda>extra.
          run_builtin w a caller_env pos extra args)
      | OClosure a \<Rightarrow> as_value (call a args caller_env None pos)
      | OClass a \<Rightarrow> host_op (w_construct_class w a caller_env args pos)
      | OHash h \<Rightarrow>
          andthen (gets (\<lambda>st. hash_get ''__call'' (hashes st h))) (\<lambda>m.
          case m of
            Some (OBuiltin b) \<Rightarrow> run_builtin w b caller_env pos None args
          | _ \<Rightarrow> ret (new_error pos ''TypeError: object is not a function''))
      | _ \<Rightarrow> ret (new_error pos (''TypeError: '' @ type_tag func @ '' is not a function'')))"

definition call_builtin ::
  "'x world \<Rightarrow> addr \<Rightarrow> env \<Rightarrow> obj list \<Rightarrow> obj option \<Rightarrow> position \<Rightarrow> ('x, obj) mem_op" where
  "call_builtin w a env args this pos =
     andthen (gets (\<lambda>st. bi_extra (builtins st a))) (\<lambda>extra.
     andthen (run_builtin w a env pos (or_else extra this) args) checked)"

definition call_value ::
  "'x world \<Rightarrow> 'x caller \<Rightarrow> env \<Rightarrow> obj \<Rightarrow> obj list \<Rightarrow> obj option \<Rightarrow> position \<Rightarrow> ('x, obj) mem_op" where
  "call_value w call env callee args this pos =
     (case callee of
        OBuiltin a \<Rightarrow> call_builtin w a env args this pos
      | OClosure a \<Rightarrow> call a args env this pos
      | OFunction a \<Rightarrow> andthen (apply_function w call callee env args this pos) checked
      | OClass a \<Rightarrow> andthen (apply_function w call callee env args this pos) checked
      | OHash h \<Rightarrow>
          andthen (gets (\<lambda>st. hash_get ''__call'' (hashes st h))) (\<lambda>m.
          case m of
            Some (OBuiltin b) \<Rightarrow> call_builtin w b env args this pos
          | _ \<Rightarrow> throw (new_error pos ''TypeError: object is not callable''))
      | _ \<Rightarrow> throw (new_error pos (''TypeError: '' @ type_tag callee @ '' is not callable'')))"

definition construct_value ::
  "'x world \<Rightarrow> 'x caller \<Rightarrow> env \<Rightarrow> obj \<Rightarrow> obj list \<Rightarrow> position \<Rightarrow> ('x, obj) mem_op" where
  "construct_value w call env callee args pos =
     (case callee of
        OClass a \<Rightarrow> andthen (host_op (w_construct_class w a env args pos)) checked
      | OBuiltin a \<Rightarrow> andthen (host_op (w_construct_builtin w a env args pos)) checked
      | OFunction a \<Rightarrow> andthen (apply_function w call callee env args None pos) checked
      | OHash a \<Rightarrow> andthen (apply_function w call callee env args None pos) checked
      | _ \<Rightarrow> throw (new_error pos (''TypeError: '' @ type_tag callee @ '' is not a constructor'')))"

section \<open>Call instructions\<close>

text \<open>The packed argument list on top of the stack receives a value, or the elements of one.\<close>

definition push_packed_arg :: "obj \<Rightarrow> bool \<Rightarrow> position \<Rightarrow> ('x, unit) vm_op" where
  "push_packed_arg value spread pos =
     andthen (top pos) (\<lambda>target.
     case target of
       OArray a \<Rightarrow>
         (case (spread, value) of
            (True, OArray items) \<Rightarrow>
              if items = a then err (Raise Panic)
              else on_mem (modify (\<lambda>st. st\<lparr>arrays := (arrays st)(a := arrays st a @ arrays st items)\<rparr>))
          | _ \<Rightarrow> on_mem (modify (\<lambda>st. st\<lparr>arrays := (arrays st)(a := arrays st a @ [value])\<rparr>)))
     | _ \<Rightarrow> raise (new_error pos (''VMError: packed call args target is '' @ type_tag target)))"

definition push_arg_stack :: "position \<Rightarrow> ('x, unit) vm_op" where
  "push_arg_stack pos = andthen (pop pos) (\<lambda>value. push_packed_arg value False pos)"

definition spread_stack :: "position \<Rightarrow> ('x, unit) vm_op" where
  "spread_stack pos =
     andthen (pop pos) (\<lambda>value.
     andthen (top pos) (\<lambda>target.
     case target of
       OArray _ \<Rightarrow> push_packed_arg value True pos
     | OHash h \<Rightarrow>
         (case value of
            OHash source \<Rightarrow>
              andthen (on_mem (gets (\<lambda>st. h_entries (hashes st source)))) (\<lambda>es.
              if h = source \<and> es \<noteq> [] then err (Raise Panic)
              else on_mem (modify (\<lambda>st.
                st\<lparr>hashes := (hashes st)(h := fold (\<lambda>(k, v). hash_set k v) es (hashes st h))\<rparr>)))
          | _ \<Rightarrow> ret ())
     | _ \<Rightarrow> raise (new_error pos (''VMError: SPREAD target is '' @ type_tag target))))"

definition call_stack :: "'x world \<Rightarrow> 'x caller \<Rightarrow> nat \<Rightarrow> bool \<Rightarrow> position \<Rightarrow> ('x, unit) vm_op" where
  "call_stack w call arg_count has_this_receiver pos =
     andthen (gets (length \<circ> v_stack)) (\<lambda>stack_len.
     let needed = arg_count + 1 + (if has_this_receiver then 1 else 0)
     in if stack_len < needed then raise (stack_underflow pos)
        else
          andthen (split_off arg_count) (\<lambda>args.
          andthen (pop pos) (\<lambda>callee.
          andthen (if has_this_receiver then andthen (pop pos) (\<lambda>t. ret (Some t)) else ret None) (\<lambda>this.
          andthen (gets v_env) (\<lambda>env.
          andthen (on_mem (call_value w call env callee args this pos)) push)))))"

definition call_from_operand :: "'x world \<Rightarrow> 'x caller \<Rightarrow> chunk \<Rightarrow> ('x, unit) vm_op" where
  "call_from_operand w call c =
     andthen (read_u16_operand_with_pos c ''CALL'') (\<lambda>(encoded_arg_count, pos).
     call_stack w call (unat (encoded_arg_count AND 0x7FFF)) (encoded_arg_count AND 0x8000 \<noteq> 0) pos)"

definition call_spread_stack :: "'x world \<Rightarrow> 'x caller \<Rightarrow> position \<Rightarrow> ('x, unit) vm_op" where
  "call_spread_stack w call pos =
     andthen (pop pos) (\<lambda>args_obj.
     andthen (pop pos) (\<lambda>callee.
     andthen (gets v_env) (\<lambda>env.
     case args_obj of
       OArray a \<Rightarrow>
         andthen (on_mem (gets (\<lambda>st. arrays st a))) (\<lambda>args.
         andthen (on_mem (call_value w call env callee args None pos)) push)
     | _ \<Rightarrow> raise (new_error pos
              (''VMError: CALL_SPREAD expected args array, got '' @ type_tag args_obj)))))"

definition construct_stack :: "'x world \<Rightarrow> 'x caller \<Rightarrow> nat \<Rightarrow> position \<Rightarrow> ('x, unit) vm_op" where
  "construct_stack w call arg_count pos =
     andthen (gets (length \<circ> v_stack)) (\<lambda>stack_len.
     if stack_len < arg_count + 1 then raise (stack_underflow pos)
     else
       andthen (split_off arg_count) (\<lambda>args.
       andthen (pop pos) (\<lambda>callee.
       andthen (gets v_env) (\<lambda>env.
       andthen (on_mem (construct_value w call env callee args pos)) push))))"

definition construct_from_operand :: "'x world \<Rightarrow> 'x caller \<Rightarrow> chunk \<Rightarrow> ('x, unit) vm_op" where
  "construct_from_operand w call c =
     andthen (read_usize_operand_with_pos c ''NEW'') (\<lambda>(arg_count, pos). construct_stack w call arg_count pos)"

end
