(* ===== verification/Vm_Handlers.thy ===== *)
theory Vm_Handlers
  imports Vm_Calls
begin

unbundle bit_operations_syntax

text \<open>
  The handlers of variables and of type annotations at run time
  (\<^verbatim>\<open>interp_helpers/bindings.rs\<close>): names looked up in the environment, globals, slots of the
  operand stack, captured variables.
\<close>

section \<open>Type annotations at run time\<close>

fun is_object_like :: "obj \<Rightarrow> bool" where
  "is_object_like (OHash _) = True"
| "is_object_like (OArray _) = True"
| "is_object_like (OInstance _) = True"
| "is_object_like (OMap _) = True"
| "is_object_like (OSet _) = True"
| "is_object_like (ODate _) = True"
| "is_object_like (ORegexp _ _) = True"
| "is_object_like (OError _ _ _ _ _ _) = True"
| "is_object_like ONull = True"
| "is_object_like _ = False"

fun is_function_like :: "obj \<Rightarrow> bool" where
  "is_function_like (OFunction _) = True"
| "is_function_like (OBuiltin _) = True"
| "is_function_like (OClass _) = True"
| "is_function_like (OClosure _) = True"
| "is_function_like _ = False"

definition matches_primitive :: "string \<Rightarrow> obj \<Rightarrow> bool" where
  "matches_primitive name v =
     (if name = ''any'' \<or> name = ''unknown'' then True
      else if name = ''number'' then (case v of ONumber _ \<Rightarrow> True | _ \<Rightarrow> False)
      else if name = ''string'' then is_string v
      else if name = ''boolean'' \<or> name = ''bool'' then (case v of OBoolean _ \<Rightarrow> True | _ \<Rightarrow> False)
      else if name = ''null'' then v = ONull
      else if name = ''undefined'' \<or> name = ''void'' then v = OUndefined
      else if name = ''object'' then is_object_like v
      else if name = ''function'' then is_function_like v
      else True)"

fun value_matches_type_annotation :: "'x store \<Rightarrow> obj \<Rightarrow> type_annotation \<Rightarrow> bool" where
  "value_matches_type_annotation st v (TypeAnnotation kind name array_of members optional) =
     (if optional \<and> (v = ONull \<or> v = OUndefined) then True
      else (case kind of
        TkUnion \<Rightarrow> list_ex (\<lambda>member. value_matches_type_annotation st v member) members
      | TkArray \<Rightarrow>
          (case v of
             OArray a \<Rightarrow>
               (case array_of of
                  None \<Rightarrow> True
                | Some inner \<Rightarrow> list_all (\<lambda>item. value_matches_type_annotation st item inner) (arrays st a))
           | _ \<Rightarrow> False)
      | TkObject \<Rightarrow> is_object_like v
      | TkFunction \<Rightarrow> is_function_like v
      | TkPrimitive \<Rightarrow> matches_primitive name v))"

text \<open>\<^verbatim>\<open>impl Display for TypeAnnotation\<close>.\<close>

fun show_type :: "type_annotation \<Rightarrow> string" where
  "show_type (TypeAnnotation kind name array_of members optional) =
     (case kind of
        TkPrimitive \<Rightarrow> name
      | TkArray \<Rightarrow> (case array_of of Some inner \<Rightarrow> show_type inner @ ''[]'' | None \<Rightarrow> ''any[]'')
      | TkUnion \<Rightarrow> join '' | '' (map show_type members)
      | TkObject \<Rightarrow> [CHR 0x7B] @ ''...'' @ [CHR 0x7D]
      | TkFunction \<Rightarrow> ''fn'')"

abbreviation quote :: string where "quote \<equiv> [CHR 0x27]"

definition check_type_annotation ::
  "string \<Rightarrow> obj \<Rightarrow> type_annotation \<Rightarrow> position \<Rightarrow> ('x, unit) mem_op" where
  "check_type_annotation name v anno pos = (\<lambda>st.
     if \<not> type_check st \<or> value_matches_type_annotation st v anno then ret () st
     else throw (new_error pos (''TypeError: cannot assign '' @ type_tag v @ '' to '' @ quote @ name @ '': '' @
            show_type anno @ quote)) st)"

section \<open>Variables\<close>

definition load_this :: "('x, unit) vm_op" where
  "load_this =
     andthen (gets (\<lambda>s. case sc_this (scopes (v_mem s) (hd (v_env s))) of
                           Some v \<Rightarrow> v | None \<Rightarrow> OUndefined)) push"

definition load_local :: "nat \<Rightarrow> position \<Rightarrow> ('x, unit) vm_op" where
  "load_local slot pos =
     andthen (gets v_stack) (\<lambda>stack.
     if slot < length stack then push (stack ! slot)
     else raise (new_error pos (''VMError: LOAD_LOCAL slot '' @ show_nat slot @ '' out of range'')))"

definition load_local_from_operand :: "chunk \<Rightarrow> ('x, unit) vm_op" where
  "load_local_from_operand c =
     andthen (read_byte_operand_with_pos c ''LOAD_LOCAL'') (\<lambda>(slot, pos). load_local slot pos)"

definition store_local :: "nat \<Rightarrow> position \<Rightarrow> ('x, unit) vm_op" where
  "store_local slot pos =
     andthen (pop pos) (\<lambda>v.
     andthen (gets v_stack) (\<lambda>stack.
     if slot < length stack then modify (\<lambda>s. s\<lparr>v_stack := stack[slot := v]\<rparr>)
     else raise (new_error pos (''VMError: STORE_LOCAL slot '' @ show_nat slot @ '' out of range''))))"

definition store_local_from_operand :: "chunk \<Rightarrow> ('x, unit) vm_op" where
  "store_local_from_operand c =
     andthen (read_byte_operand_with_pos c ''STORE_LOCAL'') (\<lambda>(slot, pos). store_local slot pos)"

definition load_upvalue :: "nat \<Rightarrow> position \<Rightarrow> ('x, unit) vm_op" where
  "load_upvalue index pos =
     andthen (gets v_upvalues) (\<lambda>upvals.
     if index < length upvals then
       andthen (gets (\<lambda>s. upvalue_get (upvalues (v_mem s) (upvals ! index)) (v_stack s))) (\<lambda>r.
       case r of
         Some v \<Rightarrow> push v
       | None \<Rightarrow> raise (new_error pos (''VMError: open upvalue '' @ show_nat index @ '' points outside stack'')))
     else raise (new_error pos (''VMError: missing upvalue '' @ show_nat index)))"

definition load_upvalue_from_operand :: "chunk \<Rightarrow> ('x, unit) vm_op" where
  "load_upvalue_from_operand c =
     andthen (read_byte_operand_with_pos c ''LOAD_UPVALUE'') (\<lambda>(index, pos). load_upvalue index pos)"

definition store_upvalue :: "nat \<Rightarrow> position \<Rightarrow> ('x, unit) vm_op" where
  "store_upvalue index pos =
     andthen (top pos) (\<lambda>v.
     andthen (gets v_upvalues) (\<lambda>upvals.
     if index < length upvals then
       andthen (gets (\<lambda>s. upvalue_set (upvalues (v_mem s) (upvals ! index)) (v_stack s) v))
         (\<lambda>(stored, u, stack).
       if stored
       then modify (\<lambda>s. s\<lparr>v_stack := stack, v_mem := put_upvalue (upvals ! index) u (v_mem s)\<rparr>)
       else raise (new_error pos (''VMError: upvalue '' @ show_nat index @ '' points outside stack'')))
     else raise (new_error pos (''VMError: missing upvalue '' @ show_nat index))))"

definition store_upvalue_from_operand :: "chunk \<Rightarrow> ('x, unit) vm_op" where
  "store_upvalue_from_operand c =
     andthen (read_byte_operand_with_pos c ''STORE_UPVALUE'') (\<lambda>(index, pos). store_upvalue index pos)"

definition not_defined :: "position \<Rightarrow> string \<Rightarrow> obj" where
  "not_defined pos name = new_error pos (''ReferenceError: '' @ quote @ name @ quote @ '' is not defined'')"

definition load_name :: "string \<Rightarrow> position \<Rightarrow> ('x, unit) vm_op" where
  "load_name name pos =
     andthen (gets (\<lambda>s. env_get (v_mem s) (v_env s) name)) (\<lambda>r.
     case r of Some v \<Rightarrow> push v | None \<Rightarrow> raise (not_defined pos name))"

definition load_name_from_operand :: "chunk \<Rightarrow> ('x, unit) vm_op" where
  "load_name_from_operand c =
     andthen (read_string_operand c ''LOAD_NAME'') (\<lambda>(name, pos). load_name name pos)"

definition mod_mem :: "(env \<Rightarrow> 'x store \<Rightarrow> 'x store) \<Rightarrow> ('x, unit) vm_op" where
  "mod_mem f = modify (\<lambda>s. s\<lparr>v_mem := f (v_env s) (v_mem s)\<rparr>)"

definition store_name :: "string \<Rightarrow> bool \<Rightarrow> position \<Rightarrow> ('x, unit) vm_op" where
  "store_name name is_const pos =
     andthen (pop pos) (\<lambda>v.
     mod_mem (\<lambda>env. if is_const then set_const_here env name v else set_here env name v))"

definition store_name_from_operand :: "chunk \<Rightarrow> ('x, unit) vm_op" where
  "store_name_from_operand c =
     andthen (read_name_operand c ''STORE_NAME'') (\<lambda>(name, is_const, pos). store_name name is_const pos)"

definition store_typed_name :: "string \<Rightarrow> bool \<Rightarrow> type_annotation \<Rightarrow> position \<Rightarrow> ('x, unit) vm_op" where
  "store_typed_name name is_const anno pos =
     andthen (pop pos) (\<lambda>v.
     andthen (on_mem (check_type_annotation name v anno pos)) (\<lambda>_.
     mod_mem (\<lambda>env. if is_const then set_typed_const env name v (Some anno)
                     else set_typed env name v (Some anno))))"

definition store_typed_name_from_operand :: "chunk \<Rightarrow> ('x, unit) vm_op" where
  "store_typed_name_from_operand c =
     andthen (read_name_operand c ''STORE_TYPED_NAME'') (\<lambda>(name, is_const, pos).
     andthen (read_type_operand c ''STORE_TYPED_NAME'' pos) (\<lambda>anno.
     store_typed_name name is_const anno pos))"

definition assign_name :: "string \<Rightarrow> position \<Rightarrow> ('x, unit) vm_op" where
  "assign_name name pos =
     andthen (top pos) (\<lambda>v.
     andthen (gets (\<lambda>s. binding_info (v_mem s) (v_env s) name)) (\<lambda>info.
     case info of
       None \<Rightarrow> raise (not_defined pos name)
     | Some (is_const, anno) \<Rightarrow>
         if is_const
         then raise (new_error pos (''TypeError: assignment to constant '' @ quote @ name @ quote))
         else
           andthen (case anno of
                      Some t \<Rightarrow> on_mem (check_type_annotation name v t pos)
                    | None \<Rightarrow> ret ()) (\<lambda>_.
           mod_mem (\<lambda>env st. snd (env_assign env name v st)))))"

definition assign_name_from_operand :: "chunk \<Rightarrow> ('x, unit) vm_op" where
  "assign_name_from_operand c =
     andthen (read_string_operand c ''ASSIGN_NAME'') (\<lambda>(name, pos). assign_name name pos)"

definition load_global :: "string \<Rightarrow> position \<Rightarrow> ('x, unit) vm_op" where
  "load_global name pos =
     andthen (gets (\<lambda>s. get_global (v_mem s) name)) (\<lambda>r.
     case r of Some v \<Rightarrow> push v | None \<Rightarrow> raise (not_defined pos name))"

definition load_global_from_operand :: "chunk \<Rightarrow> ('x, unit) vm_op" where
  "load_global_from_operand c =
     andthen (read_string_operand c ''LOAD_GLOBAL'') (\<lambda>(name, pos). load_global name pos)"

definition store_global :: "string \<Rightarrow> position \<Rightarrow> ('x, unit) vm_op" where
  "store_global name pos = andthen (pop pos) (\<lambda>v. mod_mem (\<lambda>_. set_global name v))"

definition store_global_from_operand :: "chunk \<Rightarrow> ('x, unit) vm_op" where
  "store_global_from_operand c =
     andthen (read_name_operand c ''STORE_GLOBAL'') (\<lambda>(name, is_const, pos). store_global name pos)"

end
