(* ===== verification/Vm_Objects.thy ===== *)
theory Vm_Objects
  imports Vm_Handlers
begin

unbundle bit_operations_syntax

text \<open>
  The handlers of arrays, objects and iteration (\<^verbatim>\<open>interp_helpers/collections.rs\<close> and the iterator
  protocol of \<^verbatim>\<open>evaluator/iterator.rs\<close>), of modules (\<^verbatim>\<open>modules.rs\<close>), promises (\<^verbatim>\<open>async_ops.rs\<close>),
  superclass methods (\<^verbatim>\<open>access.rs\<close>), closures (\<^verbatim>\<open>closures.rs\<close>) and classes
  (\<^verbatim>\<open>bytecode/class.rs\<close>).
\<close>

section \<open>Arrays and objects\<close>

definition array_slice_from_stack :: "position \<Rightarrow> ('x, unit) vm_op" where
  "array_slice_from_stack pos =
     andthen (pop pos) (\<lambda>start_val.
     case start_val of
       ONumber n \<Rightarrow>
         andthen (pop pos) (\<lambda>array_val.
         andthen (on_mem (gets (\<lambda>st. case array_val of OArray a \<Rightarrow> drop (f64_as_usize n) (arrays st a) | _ \<Rightarrow> []))) (\<lambda>tail.
         andthen (on_mem (update (new_array tail))) push))
     | other \<Rightarrow> raise (new_error pos
         (''TypeError: array slice start must be a number, got '' @ type_tag other)))"

definition new_array_from_stack :: "nat \<Rightarrow> position \<Rightarrow> ('x, unit) vm_op" where
  "new_array_from_stack count pos =
     andthen (gets (length \<circ> v_stack)) (\<lambda>stack_len.
     if stack_len < count then raise (stack_underflow pos)
     else andthen (split_off count) (\<lambda>elements.
          andthen (on_mem (update (new_array elements))) push))"

definition new_array_from_operand :: "chunk \<Rightarrow> ('x, unit) vm_op" where
  "new_array_from_operand c =
     andthen (read_usize_operand_with_pos c ''NEW_ARRAY'') (\<lambda>(count, pos). new_array_from_stack count pos)"

definition new_object_to_stack :: "('x, unit) vm_op" where
  "new_object_to_stack = andthen (on_mem (update (new_hash empty_hash))) push"

definition put_hash :: "addr \<Rightarrow> hash_data \<Rightarrow> 'x store \<Rightarrow> 'x store" where
  "put_hash a h st = st\<lparr>hashes := (hashes st)(a := h)\<rparr>"

definition assign_property :: "obj \<Rightarrow> string \<Rightarrow> obj \<Rightarrow> position \<Rightarrow> ('x, obj) mem_op" where
  "assign_property target name v pos =
     (case target of
        OHash a \<Rightarrow>
          andthen (gets (\<lambda>st. hashes st a)) (\<lambda>h.
          if h_frozen h then throw (new_error pos ''TypeError: cannot assign to frozen object'')
          else if h_sealed h \<and> \<not> hash_contains name h
            then throw (new_error pos ''TypeError: cannot add property to sealed object'')
          else andthen (modify (put_hash a (hash_set name v h))) (\<lambda>_. ret v))
      | OInstance a \<Rightarrow>
          andthen (modify (\<lambda>st. st\<lparr>instances := (instances st)(a :=
            (instances st a)\<lparr>i_props := (i_props (instances st a))(name \<mapsto> v)\<rparr>)\<rparr>)) (\<lambda>_. ret v)
      | OClass a \<Rightarrow>
          andthen (modify (\<lambda>st. st\<lparr>class_cells := (class_cells st)(a :=
            (class_cells st a)\<lparr>c_statics := (c_statics (class_cells st a))(name \<mapsto> v)\<rparr>)\<rparr>)) (\<lambda>_. ret v)
      | _ \<Rightarrow> throw (new_error pos (''TypeError: cannot assign to property of '' @ type_tag target)))"

text \<open>\<^verbatim>\<open>*n as isize\<close> saturates; a key that is not a number leaves an array as it is.\<close>

definition f64_as_isize :: "f64 \<Rightarrow> int" where
  "f64_as_isize = f64_saturate (- (2 ^ 63)) (2 ^ 63 - 1)"

definition assign_index ::
  "(f64 \<Rightarrow> string) \<Rightarrow> nat \<Rightarrow> obj \<Rightarrow> obj \<Rightarrow> obj \<Rightarrow> position \<Rightarrow> ('x, obj) mem_op" where
  "assign_index fmt depth target key v pos =
     (case target of
        OArray a \<Rightarrow>
          (case key of
             ONumber n \<Rightarrow>
               andthen (gets (\<lambda>st. arrays st a)) (\<lambda>xs.
               let i = f64_as_isize n
               in if i < 0 \<or> i \<ge> int (length xs)
                  then throw (new_error pos ''RangeError: array index out of bounds'')
                  else andthen (modify (\<lambda>st. st\<lparr>arrays := (arrays st)(a := xs[nat i := v])\<rparr>)) (\<lambda>_. ret v))
           | _ \<Rightarrow> ret v)
      | OHash a \<Rightarrow>
          andthen (gets (\<lambda>st. h_frozen (hashes st a))) (\<lambda>frozen.
          if frozen then throw (new_error pos ''TypeError: cannot assign to frozen object'')
          else andthen (inspect_op fmt depth key) (\<lambda>name.
               andthen (modify (\<lambda>st. put_hash a (hash_set name v (hashes st a)) st)) (\<lambda>_. ret v)))
      | _ \<Rightarrow> throw (new_error pos (''TypeError: cannot index '' @ type_tag target)))"

definition set_property_stack :: "string \<Rightarrow> position \<Rightarrow> ('x, unit) vm_op" where
  "set_property_stack name pos =
     andthen (pop pos) (\<lambda>v.
     andthen (pop pos) (\<lambda>target.
     andthen (on_mem (assign_property target name v pos)) push))"

definition set_property_from_operand :: "chunk \<Rightarrow> ('x, unit) vm_op" where
  "set_property_from_operand c =
     andthen (read_string_operand c ''SET_PROPERTY'') (\<lambda>(name, pos). set_property_stack name pos)"

definition get_property_stack :: "'x world \<Rightarrow> string \<Rightarrow> position \<Rightarrow> ('x, unit) vm_op" where
  "get_property_stack w name pos =
     andthen (pop pos) (\<lambda>target.
     andthen (on_mem (andthen (host_op (w_get_property w target name pos)) checked)) push)"

definition get_property_from_operand :: "'x world \<Rightarrow> chunk \<Rightarrow> ('x, unit) vm_op" where
  "get_property_from_operand w c =
     andthen (read_string_operand c ''GET_PROPERTY'') (\<lambda>(name, pos). get_property_stack w name pos)"

definition get_index_stack :: "'x world \<Rightarrow> position \<Rightarrow> ('x, unit) vm_op" where
  "get_index_stack w pos =
     andthen (pop pos) (\<lambda>key.
     andthen (pop pos) (\<lambda>target.
     andthen (on_mem (andthen (host_op (w_get_index w target key pos)) checked)) push))"

definition set_index_stack :: "'x world \<Rightarrow> position \<Rightarrow> ('x, unit) vm_op" where
  "set_index_stack w pos =
     andthen (pop pos) (\<lambda>v.
     andthen (pop pos) (\<lambda>key.
     andthen (pop pos) (\<lambda>target.
     andthen (on_mem (assign_index (w_fmt w) (w_depth w) target key v pos)) push)))"

section \<open>Iteration\<close>

definition index_names :: "nat \<Rightarrow> string list" where
  "index_names n = map show_nat [0..<n]"

definition iterable_keys :: "(f64 \<Rightarrow> string) \<Rightarrow> nat \<Rightarrow> 'x store \<Rightarrow> obj \<Rightarrow> string list option" where
  "iterable_keys fmt depth st v =
     (case v of
        OArray a \<Rightarrow> Some (index_names (length (arrays st a)))
      | OHash a \<Rightarrow> Some (map fst (h_entries (hashes st a)))
      | OString s \<Rightarrow> Some (index_names (length (chars_of s)))
      | OMap a \<Rightarrow> those (map (\<lambda>e. inspect fmt st depth (fst (snd e))) (maps st a))
      | OSet a \<Rightarrow> those (map (\<lambda>e. inspect fmt st depth (snd e)) (set_cells st a))
      | _ \<Rightarrow> Some [])"

definition iter_keys_stack :: "'x world \<Rightarrow> position \<Rightarrow> ('x, unit) vm_op" where
  "iter_keys_stack w pos =
     andthen (pop pos) (\<lambda>v.
     andthen (on_mem (\<lambda>st. in_depth (iterable_keys (w_fmt w) (w_depth w) st v) st)) (\<lambda>keys.
     andthen (on_mem (update (new_array (map OString keys)))) push))"

definition get_iterator :: "'x world \<Rightarrow> 'x caller \<Rightarrow> obj \<Rightarrow> env \<Rightarrow> position \<Rightarrow> ('x, obj) mem_op" where
  "get_iterator w call v env pos =
     andthen (host_op (w_get_property w v ''@@iterator'' pos)) (\<lambda>meth.
     if is_runtime_error meth then ret meth
     else if meth = OUndefined
       then ret (new_error pos (''TypeError: '' @ type_tag v @ '' is not iterable''))
     else apply_function w call meth env [] (Some v) pos)"

definition iterator_next :: "'x world \<Rightarrow> 'x caller \<Rightarrow> obj \<Rightarrow> env \<Rightarrow> position \<Rightarrow> ('x, obj) mem_op" where
  "iterator_next w call iterator env pos =
     andthen (host_op (w_get_property w iterator ''next'' pos)) (\<lambda>nxt.
     if is_runtime_error nxt then ret nxt
     else if nxt = OUndefined
       then ret (new_error pos ''TypeError: iterator.next is not a function'')
     else
       andthen (apply_function w call nxt env [] (Some iterator) pos) (\<lambda>result.
       if is_runtime_error result then ret result
       else case result of
              OHash _ \<Rightarrow> ret result
            | other \<Rightarrow> ret (new_error pos (''TypeError: iterator.next returned '' @ type_tag other))))"

definition iter_values_stack :: "'x world \<Rightarrow> 'x caller \<Rightarrow> position \<Rightarrow> ('x, unit) vm_op" where
  "iter_values_stack w call pos =
     andthen (pop pos) (\<lambda>v.
     andthen (gets v_env) (\<lambda>env.
     andthen (on_mem (andthen (get_iterator w call v env pos) checked)) push))"

definition iter_next_stack :: "'x world \<Rightarrow> 'x caller \<Rightarrow> position \<Rightarrow> ('x, unit) vm_op" where
  "iter_next_stack w call pos =
     andthen (pop pos) (\<lambda>iterator.
     andthen (gets v_env) (\<lambda>env.
     andthen (on_mem (andthen (iterator_next w call iterator env pos) checked)) push))"

definition len_stack :: "position \<Rightarrow> ('x, unit) vm_op" where
  "len_stack pos =
     andthen (pop pos) (\<lambda>v.
     andthen (on_mem (gets (\<lambda>st. case v of
                OArray a \<Rightarrow> Some (length (arrays st a))
              | OHash a \<Rightarrow> Some (length (h_entries (hashes st a)))
              | OString s \<Rightarrow> Some (length (chars_of s))
              | OMap a \<Rightarrow> Some (map_size (maps st a))
              | OSet a \<Rightarrow> Some (set_size (set_cells st a))
              | _ \<Rightarrow> None))) (\<lambda>r.
     case r of
       Some n \<Rightarrow> push (ONumber (f64_of_nat n))
     | None \<Rightarrow> raise (new_error pos (''TypeError: cannot get length of '' @ type_tag v))))"

section \<open>Modules and promises\<close>

definition import_module_stack :: "'x world \<Rightarrow> string \<Rightarrow> position \<Rightarrow> ('x, unit) vm_op" where
  "import_module_stack w source pos =
     (case w_importer w of
        None \<Rightarrow> raise (new_error pos ''ImportError: module loading is not configured'')
      | Some importer \<Rightarrow>
          andthen (gets v_env) (\<lambda>env.
          andthen (on_mem (andthen (host_op (importer env source)) (\<lambda>r.
            case r of Inl e \<Rightarrow> throw e | Inr module \<Rightarrow> ret module))) push))"

definition import_module_from_operand :: "'x world \<Rightarrow> chunk \<Rightarrow> ('x, unit) vm_op" where
  "import_module_from_operand w c =
     andthen (read_string_operand c ''IMPORT_MODULE'') (\<lambda>(source, pos). import_module_stack w source pos)"

definition current_exports :: "('x, obj) vm_op" where
  "current_exports = gets (\<lambda>s. case env_get (v_mem s) (v_env s) ''exports'' of
     Some v \<Rightarrow> v | None \<Rightarrow> OUndefined)"

definition export_name_stack :: "string \<Rightarrow> position \<Rightarrow> ('x, unit) vm_op" where
  "export_name_stack name pos =
     andthen (pop pos) (\<lambda>v.
     andthen current_exports (\<lambda>exports.
     case exports of
       OHash a \<Rightarrow> on_mem (modify (\<lambda>st. put_hash a (hash_set name v (hashes st a)) st))
     | other \<Rightarrow> raise (new_error pos (''TypeError: cannot export from '' @ type_tag other))))"

definition export_name_from_operand :: "chunk \<Rightarrow> ('x, unit) vm_op" where
  "export_name_from_operand c =
     andthen (read_string_operand c ''EXPORT_NAME'') (\<lambda>(name, pos). export_name_stack name pos)"

definition export_all_stack :: "position \<Rightarrow> ('x, unit) vm_op" where
  "export_all_stack pos =
     andthen (pop pos) (\<lambda>source_exports.
     andthen current_exports (\<lambda>exports.
     case (source_exports, exports) of
       (OHash src, OHash dst) \<Rightarrow>
         on_mem (modify (\<lambda>st. put_hash dst
           (fold (\<lambda>(k, v) h. if k = ''default'' then h else hash_set k v h)
              (h_entries (hashes st src)) (hashes st dst)) st))
     | _ \<Rightarrow> raise (new_error pos
              (''TypeError: export * source must be a module object, got '' @ type_tag source_exports))))"

definition wrap_resolved_promise_stack :: "position \<Rightarrow> ('x, unit) vm_op" where
  "wrap_resolved_promise_stack pos =
     andthen (pop pos) (\<lambda>v.
     andthen (on_mem (update (new_promise
       \<lparr>p_state = Fulfilled, p_value = Some v, p_continuations = []\<rparr>))) push)"

text \<open>
  \<^verbatim>\<open>await_value\<close>: a pending promise is awaited, and if it is still pending then, nothing can
  settle it while \<^verbatim>\<open>wait\<close> sleeps.
\<close>

definition await_value :: "'x world \<Rightarrow> obj \<Rightarrow> position \<Rightarrow> ('x, obj) mem_op" where
  "await_value w v pos =
     (case v of
        OPromise a \<Rightarrow>
          andthen (gets (\<lambda>st. p_state (promises st a))) (\<lambda>state0.
          andthen (if state0 = Pending then host_op (w_wait_async w) else ret ()) (\<lambda>_.
          andthen (gets (\<lambda>st. promises st a)) (\<lambda>p.
          let result = (case p_value p of Some r \<Rightarrow> r | None \<Rightarrow> OUndefined)
          in case p_state p of
               Pending \<Rightarrow> err Diverges
             | Fulfilled \<Rightarrow> ret result
             | Rejected \<Rightarrow>
                 (case result of
                    OError message name stack _ epos thrown \<Rightarrow>
                      throw (OError message name stack True (if pos_is_zero epos then pos else epos) thrown)
                  | other \<Rightarrow> andthen (inspect_op (w_fmt w) (w_depth w) other) (\<lambda>text. throw (new_error pos text))))))
      | _ \<Rightarrow> ret v)"

definition await_stack :: "'x world \<Rightarrow> position \<Rightarrow> ('x, unit) vm_op" where
  "await_stack w pos = andthen (pop pos) (\<lambda>v. andthen (on_mem (await_value w v pos)) push)"

section \<open>Superclass methods, closures, classes\<close>

definition super_method_stack :: "'x world \<Rightarrow> string \<Rightarrow> position \<Rightarrow> ('x, unit) vm_op" where
  "super_method_stack w name pos =
     andthen (gets v_env) (\<lambda>env.
     andthen (on_mem (andthen (host_op
       (if name = ''constructor'' then w_get_super_constructor w env pos
        else w_get_super_method w env name pos)) checked)) push)"

definition super_method_from_operand :: "'x world \<Rightarrow> chunk \<Rightarrow> ('x, unit) vm_op" where
  "super_method_from_operand w c =
     andthen (read_string_operand c ''SUPER_METHOD'') (\<lambda>(name, pos). super_method_stack w name pos)"

definition closure_from_proto :: "function_proto \<Rightarrow> addr list \<Rightarrow> env \<Rightarrow> closure_data" where
  "closure_from_proto proto upvals home_env =
     \<lparr>cl_proto = proto, cl_upvalues = upvals,
      cl_upvalue_names = map ud_name (proto_upvalue_desc proto), cl_home_env = home_env\<rparr>"

definition push_closure_from_operand :: "chunk \<Rightarrow> ('x, unit) vm_op" where
  "push_closure_from_operand c =
     andthen (read_usize_operand_with_pos c ''CLOSURE'') (\<lambda>(proto_idx, pos).
     if proto_idx < length (protos c) then
       let proto = protos c ! proto_idx
       in andthen (\<lambda>s. case capture_proto_upvalues proto (v_env s) (v_open s) (v_upvalues s) (v_mem s) of
              (Inl e, table, st) \<Rightarrow> (Inl (Raise (Thrown e)), s\<lparr>v_open := table, v_mem := st\<rparr>)
            | (Inr upvals, table, st) \<Rightarrow> (Inr upvals, s\<lparr>v_open := table, v_mem := st\<rparr>)) (\<lambda>upvals.
          andthen (gets v_env) (\<lambda>env.
          andthen (on_mem (update (new_closure (closure_from_proto proto upvals env)))) push))
     else err (Fault (new_error pos (''VMError: missing function prototype '' @ show_nat proto_idx))))"

definition is_error_class_name :: "string \<Rightarrow> bool" where
  "is_error_class_name name \<longleftrightarrow>
     name \<in> set [''Error'', ''TypeError'', ''RangeError'', ''ReferenceError'', ''SyntaxError'']"

definition blank_class :: "string \<Rightarrow> position \<Rightarrow> class_data" where
  "blank_class name pos =
     \<lparr>c_name = name, c_super = None, c_methods = Map.empty, c_fields = Map.empty,
      c_field_types = Map.empty, c_statics = Map.empty, c_static_types = Map.empty,
      c_native_ctor = None, c_pos = pos\<rparr>"

text \<open>The class of a built-in error: its native constructor is the host's number 0.\<close>

definition native_error_class :: "string \<Rightarrow> position \<Rightarrow> 'x store \<Rightarrow> addr \<times> 'x store" where
  "native_error_class name pos = new_class ((blank_class name pos)\<lparr>c_native_ctor := Some 0\<rparr>)"

definition default_resolution_map :: resolution_map where
  "default_resolution_map = \<lparr>rm_functions = (\<lambda>_. None), rm_top_level_names = []\<rparr>"

definition compiled :: "cerr + 'a \<Rightarrow> ('s, run_err, 'a) sr" where
  "compiled r = (case r of
     Inr x \<Rightarrow> ret x | Inl (CErr e) \<Rightarrow> err (Thrown e) | Inl CPanic \<Rightarrow> err Panic | Inl CFuel \<Rightarrow> err Diverges)"

definition build_member :: "'x world \<Rightarrow> env \<Rightarrow> (expr, stmt) class_member \<Rightarrow> class_data \<Rightarrow> ('x, class_data) mem_op" where
  "build_member w env m cls =
     (case cm_kind m of
        CmField \<Rightarrow>
          andthen (case cm_default_val m of
                     Some e \<Rightarrow> andthen (host_op (w_eval_expr w e env)) checked
                   | None \<Rightarrow> ret OUndefined) (\<lambda>v.
          ret (if cm_is_static m
               then cls\<lparr>c_statics := (c_statics cls)(cm_name m \<mapsto> v),
                        c_static_types := (case cm_type m of Some t \<Rightarrow> (c_static_types cls)(cm_name m \<mapsto> t)
                                                          | None \<Rightarrow> c_static_types cls)\<rparr>
               else cls\<lparr>c_fields := (c_fields cls)(cm_name m \<mapsto> v),
                        c_field_types := (case cm_type m of Some t \<Rightarrow> (c_field_types cls)(cm_name m \<mapsto> t)
                                                         | None \<Rightarrow> c_field_types cls)\<rparr>))
      | _ \<Rightarrow>
          (case cm_body m of
             None \<Rightarrow> ret cls
           | Some body \<Rightarrow>
               andthen (compiled (compile_method_proto
                   (compile_stmt (w_compiler w) default_resolution_map (w_compile_depth w)) default_resolution_map
                   (cm_name m) (cm_params m) body (cm_is_async m) (cm_type m) (cm_pos m))) (\<lambda>proto.
               andthen (update (new_closure (closure_from_proto proto [] env))) (\<lambda>closure.
               ret (if cm_is_static m then cls\<lparr>c_statics := (c_statics cls)(cm_name m \<mapsto> closure)\<rparr>
                    else cls\<lparr>c_methods := (c_methods cls)(cm_name m \<mapsto> closure)\<rparr>)))))"

fun build_members ::
  "'x world \<Rightarrow> env \<Rightarrow> (expr, stmt) class_member list \<Rightarrow> class_data \<Rightarrow> ('x, class_data) mem_op" where
  "build_members w env [] cls = ret cls"
| "build_members w env (m # ms) cls = andthen (build_member w env m cls) (build_members w env ms)"

definition build_super :: "'x world \<Rightarrow> gclass \<Rightarrow> env \<Rightarrow> class_data \<Rightarrow> ('x, class_data) mem_op" where
  "build_super w decl env cls =
     (case cd_super decl of
        None \<Rightarrow> ret cls
      | Some super_expr \<Rightarrow>
          andthen (host_op (w_eval_expr w super_expr env)) (\<lambda>sv.
          let not_a_class = throw (new_error (cd_pos decl) ''TypeError: superclass must be a class'')
          in case sv of
               OClass sc \<Rightarrow>
                 andthen (gets (\<lambda>st. class_cells st sc)) (\<lambda>sup.
                 ret (cls\<lparr>c_super := Some sc,
                      c_methods := c_methods cls ++ (c_methods sup)(''constructor'' := None),
                      c_fields := c_fields cls ++ c_fields sup\<rparr>))
             | OBuiltin b \<Rightarrow>
                 andthen (gets (\<lambda>st. bi_name (builtins st b))) (\<lambda>name.
                 if is_error_class_name name
                 then andthen (update (native_error_class name (cd_pos decl))) (\<lambda>sc.
                      ret (cls\<lparr>c_super := Some sc\<rparr>))
                 else not_a_class)
             | _ \<Rightarrow> not_a_class))"

definition build_class :: "'x world \<Rightarrow> gclass \<Rightarrow> env \<Rightarrow> ('x, obj) mem_op" where
  "build_class w decl env =
     andthen (build_super w decl env (blank_class (cd_name decl) (cd_pos decl))) (\<lambda>cls.
     andthen (build_members w env (cd_members decl) cls) (\<lambda>cls.
     andthen (update (new_class cls)) (\<lambda>a. ret (OClass a))))"

definition build_class_from_operand :: "'x world \<Rightarrow> chunk \<Rightarrow> ('x, unit) vm_op" where
  "build_class_from_operand w c =
     andthen (read_usize_operand_with_pos c ''NEW_CLASS'') (\<lambda>(class_idx, pos).
     if class_idx < length (classes c) then
       andthen (gets v_env) (\<lambda>env.
       andthen (on_mem (build_class w (classes c ! class_idx) env)) push)
     else err (Fault (new_error pos (''VMError: missing class declaration '' @ show_nat class_idx))))"

end
