(* ===== verification/Vm.thy ===== *)
theory Vm
  imports Vm_Objects
begin

unbundle bit_operations_syntax

text \<open>
  The dispatch loop of the bytecode interpreter (\<^verbatim>\<open>crates/night24-gts/src/bytecode/interp.rs\<close>) and
  the calls of closures (\<^verbatim>\<open>bytecode/call.rs\<close>). \<open>exec_op\<close> runs one instruction after its opcode has
  been read, \<open>step\<close> decodes and runs one, \<open>run\<close> is the loop with at most \<open>n\<close> iterations, and
  \<open>interpret\<close> ties the recursion of frames: a closure called by a frame runs in a frame of its
  own, one level of fuel below.
\<close>

section \<open>One instruction\<close>

datatype vm_flow = Continue | Return_value obj

definition cont :: "('x, unit) vm_op \<Rightarrow> ('x, vm_flow) vm_op" where
  "cont m = andthen m (\<lambda>_. ret Continue)"

text \<open>\<^verbatim>\<open>current_instruction_pos()\<close> and \<^verbatim>\<open>chunk.position_at(self.ip)\<close>.\<close>

definition at_instruction :: "chunk \<Rightarrow> (position \<Rightarrow> ('x, unit) vm_op) \<Rightarrow> ('x, vm_flow) vm_op" where
  "at_instruction c f = cont (andthen (gets (\<lambda>s. position_at c (v_last_ip s))) f)"

definition at_ip :: "chunk \<Rightarrow> (position \<Rightarrow> ('x, unit) vm_op) \<Rightarrow> ('x, vm_flow) vm_op" where
  "at_ip c f = cont (andthen (gets (\<lambda>s. position_at c (v_ip s))) f)"

definition pop_value :: "('x, unit) vm_op" where
  "pop_value = modify (\<lambda>s. s\<lparr>v_stack := butlast (v_stack s)\<rparr>)"

definition close_upvalues_op :: "nat \<Rightarrow> ('x, unit) vm_op" where
  "close_upvalues_op first = modify (\<lambda>s.
     let (table, st) = close_open_upvalues_from (v_open s) (v_stack s) first (v_mem s)
     in s\<lparr>v_open := table, v_mem := st\<rparr>)"

definition return_value :: "obj \<Rightarrow> ('x, vm_flow) vm_op" where
  "return_value v = andthen (close_upvalues_op 0) (\<lambda>_. ret (Return_value v))"

definition return_from_stack :: "('x, vm_flow) vm_op" where
  "return_from_stack =
     andthen (gets (\<lambda>s. if v_stack s = [] then OUndefined else last (v_stack s))) (\<lambda>v.
     andthen pop_value (\<lambda>_. return_value v))"

text \<open>The operator text of the arithmetic, comparison and bit instructions.\<close>

definition binary_op_text :: "(opcode \<times> string) list" where
  "binary_op_text =
     [(OpAdd, ''+''), (OpSub, ''-''), (OpMul, ''*''), (OpDiv, ''/''), (OpMod, ''%''), (OpPow, ''**''),
      (OpBitAnd, ''&''), (OpBitOr, ''|''), (OpBitXor, ''^''), (OpShl, ''<<''), (OpShr, ''>>''),
      (OpUShr, ''>>>''), (OpEq, ''===''), (OpNeq, ''!==''), (OpLt, ''<''), (OpLe, ''<=''), (OpGt, ''>''),
      (OpGe, ''>=''), (OpInstanceOf, ''instanceof''), (OpIn, ''in''), (OpConcat, ''+'')]"

definition unary_op_text :: "(opcode \<times> string) list" where
  "unary_op_text = [(OpNot, ''!''), (OpNeg, ''-''), (OpBitNot, ''~''), (OpIdentity, ''+'')]"

fun debug_name :: "opcode \<Rightarrow> string" where
  "debug_name OpAnd = ''And''"
| "debug_name OpOr = ''Or''"
| "debug_name OpDefineMethod = ''DefineMethod''"
| "debug_name _ = []"

fun exec_special :: "'x world \<Rightarrow> 'x caller \<Rightarrow> chunk \<Rightarrow> opcode \<Rightarrow> ('x, vm_flow) vm_op" where
  "exec_special w call c OpConst = cont (push_const_from_operand c)"
| "exec_special w call c OpPop = cont pop_value"
| "exec_special w call c OpDup = at_instruction c dup_stack"
| "exec_special w call c OpJump = cont (jump_to_operand c ''JUMP'')"
| "exec_special w call c OpLoop = cont (jump_to_operand c ''LOOP'')"
| "exec_special w call c OpJumpIfFalse = cont (conditional_jump_from_stack c ''JUMP_IF_FALSE'' False)"
| "exec_special w call c OpJumpIfTrue = cont (conditional_jump_from_stack c ''JUMP_IF_TRUE'' True)"
| "exec_special w call c OpReturn = return_from_stack"
| "exec_special w call c OpReturnNull = return_value ONull"
| "exec_special w call c OpToString = at_instruction c (to_string_stack (w_fmt w) (w_depth w))"
| "exec_special w call c OpTypeOf = at_instruction c type_of_stack"
| "exec_special w call c OpAwait = at_instruction c (await_stack w)"
| "exec_special w call c OpImportModule = cont (import_module_from_operand w c)"
| "exec_special w call c OpExportName = cont (export_name_from_operand c)"
| "exec_special w call c OpArraySliceFrom = at_ip c array_slice_from_stack"
| "exec_special w call c OpExportAll = at_ip c export_all_stack"
| "exec_special w call c OpWrapResolvedPromise = at_ip c wrap_resolved_promise_stack"
| "exec_special w call c OpCall = cont (call_from_operand w call c)"
| "exec_special w call c OpPushArg = at_instruction c push_arg_stack"
| "exec_special w call c OpSpread = at_instruction c spread_stack"
| "exec_special w call c OpCallSpread = at_instruction c (call_spread_stack w call)"
| "exec_special w call c OpNew = cont (construct_from_operand w call c)"
| "exec_special w call c OpNewClass = cont (build_class_from_operand w c)"
| "exec_special w call c OpClosure = cont (push_closure_from_operand c)"
| "exec_special w call c OpNewArray = cont (new_array_from_operand c)"
| "exec_special w call c OpNewObject = cont new_object_to_stack"
| "exec_special w call c OpSetProperty = cont (set_property_from_operand c)"
| "exec_special w call c OpGetProperty = cont (get_property_from_operand w c)"
| "exec_special w call c OpGetIndex = at_instruction c (get_index_stack w)"
| "exec_special w call c OpSetIndex = at_instruction c (set_index_stack w)"
| "exec_special w call c OpIterKeys = at_instruction c (iter_keys_stack w)"
| "exec_special w call c OpIterValues = at_instruction c (iter_values_stack w call)"
| "exec_special w call c OpIterNext = at_instruction c (iter_next_stack w call)"
| "exec_special w call c OpLen = at_instruction c len_stack"
| "exec_special w call c OpLoadName = cont (load_name_from_operand c)"
| "exec_special w call c OpStoreName = cont (store_name_from_operand c)"
| "exec_special w call c OpStoreTypedName = cont (store_typed_name_from_operand c)"
| "exec_special w call c OpAssignName = cont (assign_name_from_operand c)"
| "exec_special w call c OpLoadThis = cont load_this"
| "exec_special w call c OpLoadGlobal = cont (load_global_from_operand c)"
| "exec_special w call c OpStoreGlobal = cont (store_global_from_operand c)"
| "exec_special w call c OpLoadLocal = cont (load_local_from_operand c)"
| "exec_special w call c OpStoreLocal = cont (store_local_from_operand c)"
| "exec_special w call c OpSuperMethod = cont (super_method_from_operand w c)"
| "exec_special w call c OpLoadUpvalue = cont (load_upvalue_from_operand c)"
| "exec_special w call c OpStoreUpvalue = cont (store_upvalue_from_operand c)"
| "exec_special w call c OpThrow = at_instruction c (throw_from_stack (w_fmt w) (w_depth w))"
| "exec_special w call c OpThrowMatchError = at_instruction c (throw_match_error_from_stack (w_fmt w) (w_depth w))"
| "exec_special w call c op = cont (\<lambda>s. (Inl (Fault (new_error (position_at c (v_last_ip s))
     (''VMError: opcode '' @ debug_name op @ '' not implemented yet''))), s))"

definition exec_op :: "'x world \<Rightarrow> 'x caller \<Rightarrow> chunk \<Rightarrow> opcode \<Rightarrow> ('x, vm_flow) vm_op" where
  "exec_op w call c op =
     (case map_of binary_op_text op of
        Some text \<Rightarrow> at_instruction c (apply_binary_stack_op (w_pow w) text)
      | None \<Rightarrow>
          (case map_of unary_op_text op of
             Some text \<Rightarrow> at_instruction c (apply_unary_stack_op text)
           | None \<Rightarrow> exec_special w call c op))"

text \<open>\<^verbatim>\<open>format!("{:02x}", byte)\<close>.\<close>

definition hex_char :: "nat \<Rightarrow> char" where
  "hex_char n = char_of (if n < 10 then 48 + n else 87 + n)"

definition hex_byte :: "u8 \<Rightarrow> string" where
  "hex_byte b = [hex_char (unat b div 16), hex_char (unat b mod 16)]"

definition step :: "'x world \<Rightarrow> 'x caller \<Rightarrow> chunk \<Rightarrow> ('x, vm_flow) vm_op" where
  "step w call c = (\<lambda>s.
     let ip = v_ip s; byte = code c ! ip; s1 = s\<lparr>v_last_ip := ip\<rparr>
     in case from_byte byte of
          None \<Rightarrow> (Inl (Fault (new_error (position_at c ip)
                    (''VMError: unknown opcode byte 0x'' @ hex_byte byte))), s1)
        | Some op \<Rightarrow> exec_op w call c op (s1\<lparr>v_ip := ip + 1\<rparr>))"

section \<open>The loop\<close>

text \<open>
  How a frame ends. All but the last two carry the object that \<^verbatim>\<open>run\<close> returns: a value, an
  error nobody caught, a complaint about the bytecode, the end of the code, the budget.
\<close>

datatype exit = Returned obj | Uncaught obj | Malformed obj | Ran_off obj | Stopped obj | Crashed | Hung

definition exceeded :: "u64 \<Rightarrow> u64 \<Rightarrow> bool" where
  "exceeded limit count \<longleftrightarrow> limit > 0 \<and> count > limit"

definition check_execution_budget :: "'x world \<Rightarrow> chunk \<Rightarrow> 'x vm \<Rightarrow> obj option \<times> 'x vm" where
  "check_execution_budget w c s =
     (let count = v_count s + 1; s1 = s\<lparr>v_count := count\<rparr>; pos = position_at c (v_ip s)
      in if unat count mod 4096 \<noteq> 0 then (None, s1)
         else if exceeded (w_instruction_limit w) count
           then (Some (new_error pos (''MemoryLimitError: instruction count '' @ show_nat (unat count) @
                   '' exceeded limit '' @ show_nat (unat (w_instruction_limit w)))), s1)
         else
           let (late, x1) = w_deadline_exceeded w (host_state (v_mem s1));
               s2 = s1\<lparr>v_mem := (v_mem s1)\<lparr>host_state := x1\<rparr>\<rparr>
           in if \<not> late then (None, s2)
              else let (still, x2) = w_deadline_exceeded w (host_state (v_mem s2));
                       s3 = s2\<lparr>v_mem := (v_mem s2)\<lparr>host_state := x2\<rparr>\<rparr>
                   in (if still then Some (new_error pos ''TimeoutError: script execution timed out'')
                       else None, s3))"

fun run :: "'x world \<Rightarrow> 'x caller \<Rightarrow> chunk \<Rightarrow> nat \<Rightarrow> 'x vm \<Rightarrow> exit \<times> 'x vm" where
  "run w call c 0 s = (Hung, s)"
| "run w call c (Suc n) s =
     (if length (code c) \<le> v_ip s
      then (Ran_off (new_error default_pos ''VMError: ran off the end of bytecode without RETURN''), s)
      else case check_execution_budget w c s of
        (Some e, s1) \<Rightarrow> (Stopped e, s1)
      | (None, s1) \<Rightarrow>
          (case step w call c s1 of
             (Inr Continue, s2) \<Rightarrow> run w call c n s2
           | (Inr (Return_value v), s2) \<Rightarrow> (Returned v, s2)
           | (Inl (Raise Panic), s2) \<Rightarrow> (Crashed, s2)
           | (Inl (Raise Diverges), s2) \<Rightarrow> (Hung, s2)
           | (Inl (Raise (Thrown e)), s2) \<Rightarrow>
               (case unwind_stack_to_handler c (v_last_ip s2) (v_stack s2) e of
                  Some (ip, stack) \<Rightarrow> run w call c n (s2\<lparr>v_ip := ip, v_stack := stack\<rparr>)
                | None \<Rightarrow> (Uncaught e, s2))
           | (Inl (Fault e), s2) \<Rightarrow>
               (case unwind_stack_to_handler c (v_last_ip s2) (v_stack s2) e of
                  Some (ip, stack) \<Rightarrow> run w call c n (s2\<lparr>v_ip := ip, v_stack := stack\<rparr>)
                | None \<Rightarrow> (Malformed e, s2))))"

definition vm_new :: "env \<Rightarrow> addr list \<Rightarrow> 'x store \<Rightarrow> 'x vm" where
  "vm_new env upvals st =
     \<lparr>v_ip = 0, v_last_ip = 0, v_stack = [], v_env = env, v_open = [], v_upvalues = upvals,
      v_count = 0, v_mem = st\<rparr>"

section \<open>Calling closures\<close>

type_synonym 'x interpreter = "chunk \<Rightarrow> env \<Rightarrow> addr list \<Rightarrow> 'x store \<Rightarrow> exit \<times> 'x store"

definition run_chunk :: "'x interpreter \<Rightarrow> chunk \<Rightarrow> env \<Rightarrow> addr list \<Rightarrow> ('x, obj) mem_op" where
  "run_chunk interp c env upvals = (\<lambda>st. case interp c env upvals st of
     (Returned v, t) \<Rightarrow> (Inr v, t)
   | (Uncaught v, t) \<Rightarrow> (Inr v, t)
   | (Malformed v, t) \<Rightarrow> (Inr v, t)
   | (Ran_off v, t) \<Rightarrow> (Inr v, t)
   | (Stopped v, t) \<Rightarrow> (Inr v, t)
   | (Crashed, t) \<Rightarrow> (Inl Panic, t)
   | (Hung, t) \<Rightarrow> (Inl Diverges, t))"

definition bind_upvalues_into_scope :: "closure_data \<Rightarrow> env \<Rightarrow> 'x store \<Rightarrow> 'x store" where
  "bind_upvalues_into_scope cl scope st =
     fold (\<lambda>(name, a) st. case upvalue_get (upvalues st a) [] of
             Some v \<Rightarrow> set_here scope name v st
           | None \<Rightarrow> st) (zip (cl_upvalue_names cl) (cl_upvalues cl)) st"

definition flush_scope_to_upvalues :: "closure_data \<Rightarrow> env \<Rightarrow> 'x store \<Rightarrow> 'x store" where
  "flush_scope_to_upvalues cl scope st =
     fold (\<lambda>(name, a) st. case sc_bindings (scopes st (hd scope)) name of
             Some b \<Rightarrow> put_upvalue a (fst (snd (upvalue_set (upvalues st a) [] (b_value b)))) st
           | None \<Rightarrow> st) (zip (cl_upvalue_names cl) (cl_upvalues cl)) st"

definition check_return_type :: "obj \<Rightarrow> type_annotation option \<Rightarrow> position \<Rightarrow> 'x store \<Rightarrow> obj + obj" where
  "check_return_type v return_t pos st =
     (case return_t of
        None \<Rightarrow> Inr v
      | Some t \<Rightarrow>
          if \<not> type_check st \<or> value_matches_type_annotation st v t then Inr v
          else Inl (new_error pos (''TypeError: cannot return '' @ type_tag v @
                 '' from function returning '' @ show_type t)))"

text \<open>The outcome of an async function is a promise settled with it.\<close>

definition finish_call :: "bool \<Rightarrow> obj + obj \<Rightarrow> ('x, obj) mem_op" where
  "finish_call is_async r =
     (if is_async then
        update (new_promise (case r of
          Inl e \<Rightarrow> \<lparr>p_state = Rejected, p_value = Some e, p_continuations = []\<rparr>
        | Inr v \<Rightarrow> \<lparr>p_state = Fulfilled, p_value = Some v, p_continuations = []\<rparr>))
      else (case r of Inl e \<Rightarrow> throw e | Inr v \<Rightarrow> ret v))"

definition attempt :: "('x, 'a) mem_op \<Rightarrow> ('x, obj + 'a) mem_op" where
  "attempt m = (\<lambda>st. case m st of
     (Inl (Thrown e), t) \<Rightarrow> (Inr (Inl e), t)
   | (Inl e, t) \<Rightarrow> (Inl e, t)
   | (Inr x, t) \<Rightarrow> (Inr (Inr x), t))"

definition call_closure_impl :: "'x world \<Rightarrow> 'x interpreter \<Rightarrow> 'x caller" where
  "call_closure_impl w interp a args caller_env this pos =
     andthen (gets (\<lambda>st. closures st a)) (\<lambda>cl.
     let proto = cl_proto cl; finish = finish_call (proto_is_async proto) in
     andthen (update (env_child (cl_home_env cl))) (\<lambda>scope.
     andthen (bind_this scope this (proto_lexical_this proto)) (\<lambda>_.
     andthen (attempt (bind_params w scope (proto_params proto) args)) (\<lambda>bound.
     case bound of
       Inl e \<Rightarrow> finish (Inl e)
     | Inr _ \<Rightarrow>
         andthen (modify (bind_upvalues_into_scope cl scope)) (\<lambda>_.
         case proto_chunk proto of
           None \<Rightarrow> finish (Inl (new_error pos ''VMError: function body not compiled''))
         | Some chunk \<Rightarrow>
             andthen (run_chunk interp chunk scope (cl_upvalues cl)) (\<lambda>result.
             andthen (modify (flush_scope_to_upvalues cl scope)) (\<lambda>_.
             if is_runtime_error result then finish (Inl result)
             else andthen (gets (check_return_type result (proto_return_t proto) pos)) finish)))))))"

section \<open>Frames within frames\<close>

fun interpret_with_upvalues :: "'x world \<Rightarrow> nat \<Rightarrow> 'x interpreter" where
  "interpret_with_upvalues w 0 c env upvals st = (Hung, st)"
| "interpret_with_upvalues w (Suc n) c env upvals st =
     (let st1 = (if globals st ''println'' = None then w_register_globals w st else st);
          (r, s) = run w (call_closure_impl w (interpret_with_upvalues w n)) c (Suc n) (vm_new env upvals st1)
      in (r, v_mem s))"

definition interpret_chunk :: "'x world \<Rightarrow> nat \<Rightarrow> chunk \<Rightarrow> env \<Rightarrow> 'x store \<Rightarrow> exit \<times> 'x store" where
  "interpret_chunk w n c env st = interpret_with_upvalues w n c env [] st"

end
