(* ===== verification/Vm_Safe.thy ===== *)
theory Vm_Safe
  imports Vm Compiled
begin

unbundle bit_operations_syntax

text \<open>
  What running verified bytecode cannot do. \<open>quiet\<close> operations leave the instruction pointer,
  the offset of the running instruction and the instruction count alone and do not complain
  about the bytecode; \<open>steady\<close> operations leave the last two alone. Every handler is a reader
  of operands followed by a quiet operation, so an instruction of a verified chunk ends at
  the next instruction or at its jump target, and the loop never leaves the code.
\<close>

section \<open>Operations that leave the program counter alone\<close>

definition quiet :: "('x, 'a) vm_op \<Rightarrow> bool" where
  "quiet m \<longleftrightarrow> (\<forall>s r t. m s = (r, t) \<longrightarrow>
     v_ip t = v_ip s \<and> v_last_ip t = v_last_ip s \<and> v_count t = v_count s \<and> (\<forall>e. r \<noteq> Inl (Fault e)))"

definition steady :: "('x, 'a) vm_op \<Rightarrow> bool" where
  "steady m \<longleftrightarrow> (\<forall>s r t. m s = (r, t) \<longrightarrow> v_last_ip t = v_last_ip s \<and> v_count t = v_count s)"

named_theorems quiet \<open>operations that leave the program counter alone\<close>

lemma quietD:
  assumes "quiet m" "m s = (r, t)"
  shows "v_ip t = v_ip s" "v_last_ip t = v_last_ip s" "v_count t = v_count s" "r \<noteq> Inl (Fault e)"
  using assms unfolding quiet_def by blast+

lemma steadyD:
  assumes "steady m" "m s = (r, t)"
  shows "v_last_ip t = v_last_ip s" "v_count t = v_count s"
  using assms unfolding steady_def by blast+

lemma quiet_steady: "quiet m \<Longrightarrow> steady m"
  unfolding quiet_def steady_def by blast

lemma quiet_andthen [quiet]:
  assumes "quiet m" "\<And>x. quiet (f x)"
  shows "quiet (andthen m f)"
  unfolding quiet_def
proof (intro allI impI)
  fix s r t assume run: "andthen m f s = (r, t)"
  obtain r1 s1 where 1: "m s = (r1, s1)" by force
  show "v_ip t = v_ip s \<and> v_last_ip t = v_last_ip s \<and> v_count t = v_count s \<and> (\<forall>e. r \<noteq> Inl (Fault e))"
  proof (cases r1)
    case (Inl e)
    with run 1 quietD [OF assms(1) 1] show ?thesis by (auto simp: andthen_def)
  next
    case (Inr x)
    with run 1 have "f x s1 = (r, t)" by (simp add: andthen_def)
    from quietD [OF assms(2) this] quietD [OF assms(1) 1] show ?thesis by simp
  qed
qed

lemma steady_andthen:
  assumes "steady m" "\<And>x. steady (f x)"
  shows "steady (andthen m f)"
  unfolding steady_def
proof (intro allI impI)
  fix s r t assume run: "andthen m f s = (r, t)"
  obtain r1 s1 where 1: "m s = (r1, s1)" by force
  show "v_last_ip t = v_last_ip s \<and> v_count t = v_count s"
  proof (cases r1)
    case (Inl e)
    with run 1 steadyD [OF assms(1) 1] show ?thesis by (auto simp: andthen_def)
  next
    case (Inr x)
    with run 1 have "f x s1 = (r, t)" by (simp add: andthen_def)
    from steadyD [OF assms(2) this] steadyD [OF assms(1) 1] show ?thesis by simp
  qed
qed

lemma quiet_basic [quiet]:
  "quiet (ret x)" "quiet (err (Raise e))" "quiet (gets f)" "quiet (raise v)" "quiet (push v)"
  "quiet (pop pos)" "quiet (top pos)" "quiet (split_off n)" "quiet (on_mem m)" "quiet (mod_mem g)"
  "quiet pop_value" "quiet (close_upvalues_op n)"
  by (auto simp: quiet_def sr_defs raise_def push_def pop_def top_def split_off_def on_mem_def
      mod_mem_def pop_value_def close_upvalues_op_def Let_def split: prod.splits sum.splits if_splits)

lemma quiet_modify [quiet]:
  assumes "\<And>s. v_ip (f s) = v_ip s" "\<And>s. v_last_ip (f s) = v_last_ip s" "\<And>s. v_count (f s) = v_count s"
  shows "quiet (modify f)"
  using assms by (auto simp: quiet_def sr_defs)

lemma quiet_cases [quiet]:
  "\<lbrakk>b \<Longrightarrow> quiet m; \<not> b \<Longrightarrow> quiet m'\<rbrakk> \<Longrightarrow> quiet (if b then m else m')"
  "\<lbrakk>r = None \<Longrightarrow> quiet m; \<And>x. r = Some x \<Longrightarrow> quiet (k x)\<rbrakk> \<Longrightarrow>
     quiet (case r of None \<Rightarrow> m | Some x \<Rightarrow> k x)"
  "(\<And>x y. p = (x, y) \<Longrightarrow> quiet (g x y)) \<Longrightarrow> quiet (case p of (x, y) \<Rightarrow> g x y)"
  "quiet (h v) \<Longrightarrow> quiet (let x = v in h x)"
  by (simp_all split: option.split prod.split)

lemma quiet_stack_ops [quiet]:
  "quiet (dup_stack pos)" "quiet (apply_binary_stack_op pow op pos)"
  "quiet (apply_unary_stack_op op pos)" "quiet (to_string_stack fmt n pos)"
  "quiet (type_of_stack pos)" "quiet (throw_from_stack fmt n pos)"
  "quiet (throw_match_error_from_stack fmt n pos)"
  unfolding dup_stack_def apply_binary_stack_op_def apply_unary_stack_op_def to_string_stack_def
    type_of_stack_def throw_from_stack_def throw_match_error_from_stack_def
  by (intro quiet)+

lemma quiet_variables [quiet]:
  "quiet load_this" "quiet (load_local slot pos)" "quiet (store_local slot pos)"
  "quiet (load_upvalue i pos)" "quiet (store_upvalue i pos)" "quiet (load_name name pos)"
  "quiet (store_name name cst pos)" "quiet (store_typed_name name cst anno pos)"
  "quiet (assign_name name pos)" "quiet (load_global name pos)" "quiet (store_global name pos)"
  unfolding load_this_def load_local_def store_local_def load_upvalue_def store_upvalue_def
    load_name_def store_name_def store_typed_name_def assign_name_def load_global_def store_global_def
  by (intro quiet; simp)+

lemma quiet_obj [quiet]:
  assumes "\<And>a. quiet (f1 a)" "\<And>a. quiet (f2 a)" "\<And>a. quiet (f3 a)" "quiet f4" "quiet f5"
    "\<And>a. quiet (f6 a)" "\<And>a. quiet (f7 a)" "\<And>a. quiet (f8 a)" "\<And>a. quiet (f9 a)"
    "\<And>a. quiet (f10 a)" "\<And>a. quiet (f11 a)" "\<And>a b c d e f. quiet (f12 a b c d e f)"
    "\<And>a. quiet (f13 a)" "\<And>a. quiet (f14 a)" "\<And>a. quiet (f15 a)" "\<And>a b. quiet (f16 a b)"
    "\<And>a. quiet (f17 a)" "\<And>a. quiet (f18 a)" "\<And>a. quiet (f19 a)"
  shows "quiet (case_obj f1 f2 f3 f4 f5 f6 f7 f8 f9 f10 f11 f12 f13 f14 f15 f16 f17 f18 f19 v)"
  using assms by (cases v) simp_all

lemma quiet_bool [quiet]: "quiet a \<Longrightarrow> quiet b \<Longrightarrow> quiet (case_bool a b x)"
  by (cases x) simp_all

lemma quiet_arrays [quiet]:
  "quiet (array_slice_from_stack pos)" "quiet (new_array_from_stack n pos)" "quiet new_object_to_stack"
  "quiet (set_property_stack name pos)" "quiet (get_property_stack w name pos)"
  "quiet (get_index_stack w pos)" "quiet (set_index_stack w pos)" "quiet (iter_keys_stack w pos)"
  "quiet (iter_values_stack w call pos)" "quiet (iter_next_stack w call pos)" "quiet (len_stack pos)"
  unfolding array_slice_from_stack_def new_array_from_stack_def new_object_to_stack_def
    set_property_stack_def get_property_stack_def get_index_stack_def set_index_stack_def
    iter_keys_stack_def iter_values_stack_def iter_next_stack_def len_stack_def
  by (intro quiet)+

lemma quiet_modules [quiet]:
  "quiet (import_module_stack w source pos)" "quiet (export_name_stack name pos)"
  "quiet (export_all_stack pos)" "quiet (wrap_resolved_promise_stack pos)" "quiet (await_stack w pos)"
  "quiet (super_method_stack w name pos)"
  unfolding import_module_stack_def export_name_stack_def export_all_stack_def current_exports_def
    wrap_resolved_promise_stack_def await_stack_def super_method_stack_def
  by (intro quiet)+

lemma quiet_calls [quiet]:
  "quiet (push_packed_arg v spread pos)" "quiet (push_arg_stack pos)" "quiet (spread_stack pos)"
  "quiet (call_stack w call n this pos)" "quiet (call_spread_stack w call pos)"
  "quiet (construct_stack w call n pos)"
  unfolding push_arg_stack_def spread_stack_def call_stack_def call_spread_stack_def
    construct_stack_def push_packed_arg_def
  by (intro quiet)+

lemma quiet_capture [quiet]:
  "quiet (\<lambda>s. case capture_proto_upvalues proto (v_env s) (v_open s) (v_upvalues s) (v_mem s) of
     (Inl e, table, st) \<Rightarrow> (Inl (Raise (Thrown e)), s\<lparr>v_open := table, v_mem := st\<rparr>)
   | (Inr upvals, table, st) \<Rightarrow> (Inr upvals, s\<lparr>v_open := table, v_mem := st\<rparr>))"
  by (auto simp: quiet_def split: prod.splits sum.splits)

section \<open>Reading operands of a decoded instruction\<close>

definition instr_at :: "chunk \<Rightarrow> nat \<Rightarrow> opcode \<Rightarrow> u8 list \<Rightarrow> bool" where
  "instr_at c off op ops \<longleftrightarrow> (\<exists>xs. instrs c = Some xs \<and> (off, op, ops) \<in> set xs)"

text \<open>What the readers use of it: the bytes of the instruction are in the code.\<close>

definition fetches :: "chunk \<Rightarrow> nat \<Rightarrow> opcode \<Rightarrow> u8 list \<Rightarrow> bool" where
  "fetches c off op ops \<longleftrightarrow> code c ! off = op_byte op \<and> length ops = operand_width op
     \<and> off + 1 + operand_width op \<le> length (code c)
     \<and> (\<forall>j<operand_width op. code c ! (off + 1 + j) = ops ! j)"

lemma fetches_bytes:
  assumes "fetches c off op ops"
  shows "code c ! off = op_byte op" "length ops = operand_width op"
    "off + 1 + operand_width op \<le> length (code c)"
    "j < operand_width op \<Longrightarrow> code c ! (off + 1 + j) = ops ! j"
  using assms by (auto simp: fetches_def)

lemma fetches_append:
  assumes "code c = pre @ op_byte op # ops @ post" "length ops = operand_width op"
  shows "fetches c (length pre) op ops"
  using assms by (auto simp: fetches_def nth_append)

lemma instr_at_fetches:
  assumes "instr_at c off op ops" shows "fetches c off op ops"
proof -
  from assms obtain pre post where
    "code c = pre @ op_byte op # ops @ post" "off = length pre" "length ops = operand_width op"
    unfolding instr_at_def instrs_def by (metis add_0 layout_split)
  then show ?thesis using fetches_append by blast
qed

lemma read_operands:
  assumes "fetches c off op ops" "v_ip s = off + 1"
  shows "1 \<le> operand_width op \<Longrightarrow> read_byte_operand c name s = (Inr (ops ! 0), s\<lparr>v_ip := off + 2\<rparr>)"
    and "2 \<le> operand_width op \<Longrightarrow> read_u16_operand c name s = (Inr (word16_of ops), s\<lparr>v_ip := off + 3\<rparr>)"
    and "4 \<le> operand_width op \<Longrightarrow> read_u32_operand c name s = (Inr (word32_of ops), s\<lparr>v_ip := off + 5\<rparr>)"
  using fetches_bytes(3,4) [OF assms(1)] fetches_bytes(4) [OF assms(1), of 0]
    fetches_bytes(4) [OF assms(1), of 1] fetches_bytes(4) [OF assms(1), of 2]
    fetches_bytes(4) [OF assms(1), of 3] assms(2)
  by (simp_all add: read_byte_operand_def read_u16_operand_def read_u32_operand_def Let_def
      word16_of_def word32_of_def eval_nat_numeral)

lemma read_with_pos:
  assumes "fetches c off op ops" "v_ip s = off + 1"
  shows "1 \<le> operand_width op \<Longrightarrow>
      read_byte_operand_with_pos c name s = (Inr (unat (ops ! 0), position_at c off), s\<lparr>v_ip := off + 2\<rparr>)"
    and "2 \<le> operand_width op \<Longrightarrow>
      read_u16_operand_with_pos c name s = (Inr (word16_of ops, position_at c off), s\<lparr>v_ip := off + 3\<rparr>)"
    and "2 \<le> operand_width op \<Longrightarrow>
      read_usize_operand_with_pos c name s = (Inr (unat (word16_of ops), position_at c off), s\<lparr>v_ip := off + 3\<rparr>)"
    and "4 \<le> operand_width op \<Longrightarrow>
      read_u32_operand_with_pos c name s = (Inr (word32_of ops, position_at c off), s\<lparr>v_ip := off + 5\<rparr>)"
  by (simp_all add: read_byte_operand_with_pos_def read_u16_operand_with_pos_def
      read_usize_operand_with_pos_def read_u32_operand_with_pos_def andthen_def gets_def ret_def
      read_operands [OF assms])

lemma read_string_const_ok:
  "string_const cs idx \<Longrightarrow>
     read_string_const cs (unat idx) pos name = ret (case cs ! unat idx of OString s \<Rightarrow> s)"
  by (cases "cs ! unat idx") (simp_all add: string_const_def read_string_const_def)

lemma read_name_operands:
  assumes "fetches c off op ops" "v_ip s = off + 1" "2 \<le> operand_width op"
  shows "string_const (constants c) (word16_of ops) \<Longrightarrow>
      read_string_operand c name s =
        (Inr (case constants c ! unat (word16_of ops) of OString n \<Rightarrow> n, position_at c off), s\<lparr>v_ip := off + 3\<rparr>)"
    and "string_const (constants c) (word16_of ops AND 0x7FFF) \<Longrightarrow>
      read_name_operand c name s =
        (Inr (case constants c ! unat (word16_of ops AND 0x7FFF) of OString n \<Rightarrow> n,
              word16_of ops AND 0x8000 \<noteq> 0, position_at c off), s\<lparr>v_ip := off + 3\<rparr>)"
    and "unat (word16_of ops) < length (constants c) \<Longrightarrow>
      read_const_operand c name s = (Inr (constants c ! unat (word16_of ops)), s\<lparr>v_ip := off + 3\<rparr>)"
  using assms(3)
  by (simp_all add: read_string_operand_def read_name_operand_def read_const_operand_def andthen_def
      gets_def ret_def Let_def read_operands [OF assms(1,2)] read_string_const_ok)

lemma read_second_operand:
  assumes "fetches c off op ops" "v_ip s = off + 3" "operand_width op = 4"
    and "unat (word16_of (drop 2 ops)) < length (types c)"
  shows "read_type_operand c name pos s =
      (Inr (types c ! unat (word16_of (drop 2 ops))), s\<lparr>v_ip := off + 5\<rparr>)"
  using fetches_bytes(2,3) [OF assms(1)] fetches_bytes(4) [OF assms(1), of 2]
    fetches_bytes(4) [OF assms(1), of 3] assms(2-4)
  by (simp add: read_type_operand_def read_u16_operand_def andthen_def ret_def Let_def word16_of_def
      eval_nat_numeral)

section \<open>One instruction of a verified chunk\<close>

text \<open>An operation that starts behind the opcode at \<open>off\<close> and, if it succeeds, ends behind the operands.\<close>

definition ends :: "nat \<Rightarrow> nat \<Rightarrow> ('x, 'a) vm_op \<Rightarrow> bool" where
  "ends off width m \<longleftrightarrow> (\<forall>s r t. v_ip s = off + 1 \<longrightarrow> m s = (r, t) \<longrightarrow>
     v_last_ip t = v_last_ip s \<and> (\<forall>e. r \<noteq> Inl (Fault e)) \<and> (\<forall>x. r = Inr x \<longrightarrow> v_ip t = off + 1 + width))"

lemma ends_quiet: "quiet m \<Longrightarrow> ends off 0 m"
  by (fastforce simp: ends_def dest: quietD)

lemma ends_reader:
  assumes "\<And>s. v_ip s = off + 1 \<Longrightarrow> reader s = (Inr x, s\<lparr>v_ip := off + 1 + width\<rparr>)" and "quiet (f x)"
  shows "ends off width (andthen reader f)"
  unfolding ends_def
proof (intro allI impI)
  fix s r t assume ip: "v_ip s = off + 1" and run: "andthen reader f s = (r, t)"
  then have "f x (s\<lparr>v_ip := off + 1 + width\<rparr>) = (r, t)" by (simp add: andthen_def assms(1))
  from quietD [OF assms(2) this]
  show "v_last_ip t = v_last_ip s \<and> (\<forall>e. r \<noteq> Inl (Fault e)) \<and> (\<forall>x. r = Inr x \<longrightarrow> v_ip t = off + 1 + width)"
    by simp
qed

lemma ends_byte:
  assumes "fetches c off op ops" "operand_width op = 1" "\<And>pos. quiet (f (unat (ops ! 0), pos))"
  shows "ends off 1 (andthen (read_byte_operand_with_pos c name) f)"
  by (rule ends_reader) (use assms in \<open>auto simp: read_with_pos\<close>)

lemma ends_u16:
  assumes "fetches c off op ops" "operand_width op = 2" "\<And>pos. quiet (f (word16_of ops, pos))"
  shows "ends off 2 (andthen (read_u16_operand_with_pos c name) f)"
  by (rule ends_reader) (use assms in \<open>auto simp: read_with_pos\<close>)

lemma ends_usize:
  assumes "fetches c off op ops" "operand_width op = 2" "\<And>pos. quiet (f (unat (word16_of ops), pos))"
  shows "ends off 2 (andthen (read_usize_operand_with_pos c name) f)"
  by (rule ends_reader) (use assms in \<open>auto simp: read_with_pos\<close>)

lemma ends_string:
  assumes "fetches c off op ops" "operand_width op = 2"
    and "string_const (constants c) (word16_of ops)" "\<And>x. quiet (f x)"
  shows "ends off 2 (andthen (read_string_operand c name) f)"
  by (rule ends_reader) (use assms in \<open>auto simp: read_name_operands\<close>)

lemma ends_name:
  assumes "fetches c off op ops" "operand_width op = 2"
    and "string_const (constants c) (word16_of ops AND 0x7FFF)" "\<And>x. quiet (f x)"
  shows "ends off 2 (andthen (read_name_operand c name) f)"
  by (rule ends_reader) (use assms in \<open>auto simp: read_name_operands\<close>)

lemma ends_const:
  assumes "fetches c off op ops" "operand_width op = 2"
    and "unat (word16_of ops) < length (constants c)" "\<And>x. quiet (f x)"
  shows "ends off 2 (andthen (read_const_operand c name) f)"
  by (rule ends_reader) (use assms in \<open>auto simp: read_name_operands\<close>)

lemma ends_typed:
  assumes at: "fetches c off op ops" "operand_width op = 4"
    and ok: "string_const (constants c) (word16_of ops AND 0x7FFF)"
      "unat (word16_of (drop 2 ops)) < length (types c)"
  shows "ends off 4 (store_typed_name_from_operand c)"
  unfolding ends_def
proof (intro allI impI)
  fix s :: "'a vm" and r t
  assume ip: "v_ip s = off + 1" and run: "store_typed_name_from_operand c s = (r, t)"
  define n where "n = (case constants c ! unat (word16_of ops AND 0x7FFF) of OString n \<Rightarrow> n)"
  define k where "k = (word16_of ops AND 0x8000 \<noteq> 0)"
  have "read_name_operand c nm s = (Inr (n, k, position_at c off), s\<lparr>v_ip := off + 3\<rparr>)" for nm
    using read_name_operands(2) [OF at(1) ip _ ok(1)] at(2) by (simp add: n_def k_def)
  moreover have "read_type_operand c nm pos (s\<lparr>v_ip := off + 3\<rparr>) =
      (Inr (types c ! unat (word16_of (drop 2 ops))), s\<lparr>v_ip := off + 5\<rparr>)" for nm pos
    using read_second_operand [OF at(1) _ at(2) ok(2), of "s\<lparr>v_ip := off + 3\<rparr>"] by simp
  ultimately have "store_typed_name n k (types c ! unat (word16_of (drop 2 ops))) (position_at c off)
      (s\<lparr>v_ip := off + 5\<rparr>) = (r, t)"
    using run by (simp add: store_typed_name_from_operand_def andthen_def)
  from quietD [OF quiet_variables(8) this]
  show "v_last_ip t = v_last_ip s \<and> (\<forall>e. r \<noteq> Inl (Fault e)) \<and> (\<forall>x. r = Inr x \<longrightarrow> v_ip t = off + 1 + 4)"
    by simp
qed

text \<open>How an instruction leaves the frame: behind its operands, at its target, or returning.\<close>

definition lands :: "nat \<Rightarrow> opcode \<Rightarrow> u8 list \<Rightarrow> ('x, vm_flow) vm_op \<Rightarrow> bool" where
  "lands off op ops m \<longleftrightarrow> (\<forall>s r t. v_ip s = off + 1 \<longrightarrow> m s = (r, t) \<longrightarrow>
     v_last_ip t = v_last_ip s \<and> (\<forall>e. r \<noteq> Inl (Fault e)) \<and>
     (r = Inr Continue \<longrightarrow> op \<noteq> OpReturn \<and>
        (v_ip t = off + 1 + operand_width op \<or> op \<in> set ops_jump \<and> v_ip t = unat (word32_of ops))))"

lemma cont_eq:
  "cont m s = (case m s of (Inl e, t) \<Rightarrow> (Inl e, t) | (Inr _, t) \<Rightarrow> (Inr Continue, t))"
  by (simp add: cont_def andthen_def ret_def)

lemma lands_cont:
  assumes "ends off (operand_width op) m" "op \<noteq> OpReturn"
  shows "lands off op ops (cont m)"
  unfolding lands_def
proof (intro allI impI)
  fix s :: "'a vm" and r t assume ip: "v_ip s = off + 1" and run: "cont m s = (r, t)"
  obtain r1 t1 where 1: "m s = (r1, t1)" by force
  with assms(1) ip have "v_last_ip t1 = v_last_ip s" "\<forall>e. r1 \<noteq> Inl (Fault e)"
    "\<forall>x. r1 = Inr x \<longrightarrow> v_ip t1 = off + 1 + operand_width op" unfolding ends_def by blast+
  with run 1 assms(2) show "v_last_ip t = v_last_ip s \<and> (\<forall>e. r \<noteq> Inl (Fault e)) \<and>
     (r = Inr Continue \<longrightarrow> op \<noteq> OpReturn \<and>
        (v_ip t = off + 1 + operand_width op \<or> op \<in> set ops_jump \<and> v_ip t = unat (word32_of ops)))"
    by (cases r1) (auto simp: cont_eq)
qed

lemma lands_plain:
  assumes "operand_width op = 0" "op \<noteq> OpReturn"
  shows "(\<And>pos. quiet (f pos)) \<Longrightarrow> lands off op ops (at_instruction c f)"
    and "(\<And>pos. quiet (f pos)) \<Longrightarrow> lands off op ops (at_ip c f)"
    and "quiet m \<Longrightarrow> lands off op ops (cont m)"
  unfolding at_instruction_def at_ip_def
  by (rule lands_cont; use assms in \<open>auto intro!: ends_quiet quiet\<close>)+

lemma run_jump:
  assumes "fetches c off op ops" "operand_width op = 4" "v_ip s = off + 1"
  shows "jump_to_operand c name s = (Inr (), s\<lparr>v_ip := unat (word32_of ops)\<rparr>)"
    and "conditional_jump_from_stack c name b s =
      (if v_stack s = [] then (Inl (Raise (Thrown (stack_underflow (position_at c off)))), s\<lparr>v_ip := off + 5\<rparr>)
       else (Inr (), s\<lparr>v_stack := butlast (v_stack s),
               v_ip := (if is_truthy (last (v_stack s)) = b then unat (word32_of ops) else off + 5)\<rparr>))"
  using assms(2)
  by (simp_all add: jump_to_operand_def conditional_jump_from_stack_def andthen_def modify_def ret_def
      pop_def read_operands(3) [OF assms(1,3)] read_with_pos(4) [OF assms(1,3)])

lemma jump_facts:
  assumes "op \<in> set ops_jump" shows "operand_width op = 4" "op \<noteq> OpReturn"
  using assms by (auto simp: ops_jump_def operand_width_def ops_u16_def)

lemma lands_jump:
  assumes "fetches c off op ops" "op \<in> set ops_jump"
  shows "lands off op ops (cont (jump_to_operand c name))"
    and "lands off op ops (cont (conditional_jump_from_stack c name b))"
  unfolding lands_def using jump_facts [OF assms(2)] assms(2)
  by (auto simp: cont_eq run_jump [OF assms(1)])

lemma lands_return: "lands off OpReturn ops return_from_stack" "lands off OpReturnNull ops (return_value v)"
  by (auto simp: lands_def return_from_stack_def return_value_def andthen_def gets_def ret_def
      pop_value_def close_upvalues_op_def modify_def split: prod.splits if_splits)

lemma ends_name_handlers:
  assumes "fetches c off op ops" "operand_width op = 2" "string_const (constants c) (word16_of ops)"
  shows "ends off 2 (load_name_from_operand c)" "ends off 2 (assign_name_from_operand c)"
    "ends off 2 (load_global_from_operand c)" "ends off 2 (get_property_from_operand w c)"
    "ends off 2 (set_property_from_operand c)" "ends off 2 (super_method_from_operand w c)"
    "ends off 2 (import_module_from_operand w c)" "ends off 2 (export_name_from_operand c)"
  unfolding load_name_from_operand_def assign_name_from_operand_def load_global_from_operand_def
    get_property_from_operand_def set_property_from_operand_def super_method_from_operand_def
    import_module_from_operand_def export_name_from_operand_def
  by (rule ends_string [OF assms], intro quiet)+

lemma ends_store_handlers:
  assumes "fetches c off op ops" "operand_width op = 2"
    "string_const (constants c) (word16_of ops AND 0x7FFF)"
  shows "ends off 2 (store_name_from_operand c)" "ends off 2 (store_global_from_operand c)"
  unfolding store_name_from_operand_def store_global_from_operand_def
  by (rule ends_name [OF assms], intro quiet)+

lemma ends_slot_handlers:
  assumes "fetches c off op ops" "operand_width op = 1"
  shows "ends off 1 (load_local_from_operand c)" "ends off 1 (store_local_from_operand c)"
    "ends off 1 (load_upvalue_from_operand c)" "ends off 1 (store_upvalue_from_operand c)"
  unfolding load_local_from_operand_def store_local_from_operand_def load_upvalue_from_operand_def
    store_upvalue_from_operand_def
  by (rule ends_byte [OF assms], intro quiet)+

lemma ends_count_handlers:
  assumes "fetches c off op ops" "operand_width op = 2"
  shows "ends off 2 (call_from_operand w call c)" "ends off 2 (construct_from_operand w call c)"
    "ends off 2 (new_array_from_operand c)"
  unfolding call_from_operand_def construct_from_operand_def new_array_from_operand_def
  by (rule ends_u16 [OF assms] ends_usize [OF assms], intro quiet)+

lemma ends_table_handlers:
  assumes "fetches c off op ops" "operand_width op = 2"
  shows "unat (word16_of ops) < length (constants c) \<Longrightarrow> ends off 2 (push_const_from_operand c)"
    and "unat (word16_of ops) < length (protos c) \<Longrightarrow> ends off 2 (push_closure_from_operand c)"
    and "unat (word16_of ops) < length (classes c) \<Longrightarrow> ends off 2 (build_class_from_operand w c)"
proof -
  show "ends off 2 (push_const_from_operand c)" if "unat (word16_of ops) < length (constants c)"
    unfolding push_const_from_operand_def by (rule ends_const [OF assms that]) (intro quiet)
  show "ends off 2 (push_closure_from_operand c)" if "unat (word16_of ops) < length (protos c)"
    unfolding push_closure_from_operand_def Let_def
    by (rule ends_usize [OF assms]) (simp add: that, intro quiet)
  show "ends off 2 (build_class_from_operand w c)" if "unat (word16_of ops) < length (classes c)"
    unfolding build_class_from_operand_def
    by (rule ends_usize [OF assms]) (simp add: that, intro quiet)
qed

lemmas handler_ends = ends_name_handlers ends_store_handlers ends_slot_handlers ends_count_handlers
  ends_table_handlers ends_typed

lemma exec_special_lands:
  assumes at: "fetches c off op ops" and ok: "operands_ok c bs op ops"
    and other: "map_of binary_op_text op = None" "map_of unary_op_text op = None"
  shows "lands off op ops (exec_special w call c op)"
proof (cases "op \<in> set ops_jump")
  case True
  then show ?thesis using at
    by (auto simp: ops_jump_def intro!: lands_jump)
next
  case False
  with assms show ?thesis
    by (cases op) (auto simp: binary_op_text_def unary_op_text_def operands_ok_def name_ops_def
      operand_width_def ops_u16_def ops_u8_def ops_jump_def simp del: One_nat_def
      intro!: lands_return lands_plain lands_cont handler_ends ends_quiet quiet)
qed

lemma exec_operators_quiet:
  assumes "map_of binary_op_text op = Some name \<or> map_of unary_op_text op = Some name"
  shows "operand_width op = 0" "op \<noteq> OpReturn"
  using assms
  by (auto simp: binary_op_text_def unary_op_text_def operand_width_def ops_u16_def ops_jump_def
      ops_u8_def split: if_splits)

lemma exec_op_lands:
  assumes "fetches c off op ops" "operands_ok c bs op ops"
  shows "lands off op ops (exec_op w call c op)"
proof (cases "map_of binary_op_text op")
  case (Some name)
  with exec_operators_quiet [of op name] show ?thesis
    by (auto simp: exec_op_def intro!: lands_plain quiet)
next
  case None
  note none = this
  show ?thesis
  proof (cases "map_of unary_op_text op")
    case (Some name)
    with none exec_operators_quiet [of op name] show ?thesis
      by (auto simp: exec_op_def intro!: lands_plain quiet)
  qed (use none exec_special_lands [OF assms none] in \<open>simp add: exec_op_def\<close>)
qed

section \<open>The loop on a verified chunk\<close>

lemma bounds_instr:
  assumes "local_ok c" "ip \<in> bnds c" "ip < length (code c)"
  obtains op ops where "instr_at c ip op ops" "operands_ok c (bounds_of c (the (instrs c))) op ops"
  using assms by (fastforce simp: bnds_def bounds_of_def instr_at_def elim!: local_okE)

lemma next_instr:
  assumes "instr_at c off op ops"
  shows "off + 1 + operand_width op \<in> bnds c"
    and "off + 1 + operand_width op = length (code c) \<Longrightarrow> (off, op, ops) = last (the (instrs c))"
proof -
  from assms obtain xs k where xs: "instrs c = Some xs" "k < length xs" "xs ! k = (off, op, ops)"
    unfolding instr_at_def by (metis in_set_conv_nth)
  show "off + 1 + operand_width op \<in> bnds c"
  proof (cases "Suc k < length xs")
    case True
    with instrs_end(1) [OF xs] xs(1) show ?thesis
      by (auto simp: bnds_def bounds_of_def image_iff intro!: bexI [of _ "xs ! Suc k"])
  qed (use instrs_end(2) [OF xs] xs(1) in \<open>simp add: bnds_def bounds_of_def\<close>)
  have "fst (xs ! Suc k) < length (code c)" if "Suc k < length xs"
    using layout_bounds [of 0 "code c" xs] xs(1) nth_mem [OF that] that
    by (cases "xs ! Suc k") (fastforce simp: instrs_def)
  with instrs_end(1) [OF xs]
  have "\<not> Suc k < length xs" if "off + 1 + operand_width op = length (code c)" using that by auto
  then show "(off, op, ops) = last (the (instrs c))" if "off + 1 + operand_width op = length (code c)"
    using that xs by (cases xs rule: rev_cases) (auto simp: less_Suc_eq nth_append)
qed

lemma step_lands:
  assumes at: "fetches c off op ops" and ok: "operands_ok c bs op ops"
    and ip: "v_ip s = off" and run: "step w call c s = (r, t)"
  shows "v_last_ip t = off" "r \<noteq> Inl (Fault e)"
    and "r = Inr Continue \<Longrightarrow> op \<noteq> OpReturn \<and>
      (v_ip t = off + 1 + operand_width op \<or> op \<in> set ops_jump \<and> v_ip t = unat (word32_of ops))"
proof -
  let ?s = "s\<lparr>v_last_ip := off, v_ip := off + 1\<rparr>"
  have "exec_op w call c op ?s = (r, t)"
    using run ip fetches_bytes(1) [OF at] by (simp add: step_def Let_def)
  moreover have "v_ip ?s = off + 1" by simp
  moreover have "lands off op ops (exec_op w call c op)" by (rule exec_op_lands [OF at ok])
  ultimately have "v_last_ip t = v_last_ip ?s \<and> (\<forall>e. r \<noteq> Inl (Fault e)) \<and>
     (r = Inr Continue \<longrightarrow> op \<noteq> OpReturn \<and>
        (v_ip t = off + 1 + operand_width op \<or> op \<in> set ops_jump \<and> v_ip t = unat (word32_of ops)))"
    unfolding lands_def by blast
  then show "v_last_ip t = off" "r \<noteq> Inl (Fault e)"
    "r = Inr Continue \<Longrightarrow> op \<noteq> OpReturn \<and>
      (v_ip t = off + 1 + operand_width op \<or> op \<in> set ops_jump \<and> v_ip t = unat (word32_of ops))"
    by simp_all
qed

lemma budget_frame:
  assumes "check_execution_budget w c s = (x, t)"
  shows "v_ip t = v_ip s" "v_last_ip t = v_last_ip s" "v_count t = v_count s + 1"
    "v_stack t = v_stack s" "v_env t = v_env s" "v_open t = v_open s" "v_upvalues t = v_upvalues s"
  using assms by (auto simp: check_execution_budget_def Let_def split: if_splits prod.splits)

lemma handler_facts:
  assumes "unwind_stack_to_handler c last_ip stack e = Some (ip, stack')"
  obtains region where "region \<in> set (protected_regions c)" "protects (of_nat last_ip) region"
    "ip = unat (handler_ip region)" "stack' = stack @ [catch_value e]"
    "\<forall>r\<in>set (protected_regions c). protects (of_nat last_ip) r \<longrightarrow> try_start r \<le> try_start region"
  using assms
  by (fastforce simp: unwind_stack_to_handler_def dest!: max_by_key_Some split: option.splits)

text \<open>
  \<open>inside c I\<close>: an invariant \<open>I\<close> of the instruction pointer that every instruction of the chunk
  and every exception handler re-establishes.
\<close>

definition closed_under :: "chunk \<Rightarrow> nat set \<Rightarrow> bool" where
  "closed_under c I \<longleftrightarrow>
     I \<subseteq> bnds c
     \<and> (\<forall>off op ops. instr_at c off op ops \<and> op \<noteq> OpReturn \<longrightarrow>
          off + 1 + operand_width op \<in> I \<and> (op \<in> set ops_jump \<longrightarrow> unat (word32_of ops) \<in> I))
     \<and> (\<forall>r\<in>set (protected_regions c). unat (handler_ip r) \<in> I)"

lemma run_closed:
  assumes ok: "local_ok c" and closed: "closed_under c I"
  shows "v_ip s \<in> I \<Longrightarrow> run w call c n s = (r, t) \<Longrightarrow>
    (\<forall>e. r \<noteq> Malformed e) \<and> ((\<exists>e. r = Ran_off e) \<longrightarrow> length (code c) \<in> I)"
proof (induction n arbitrary: s)
  case (Suc n)
  have mem: "v_ip s \<in> bnds c" using Suc.prems(1) closed by (auto simp: closed_under_def)
  show ?case
  proof (cases "v_ip s < length (code c)")
    case False
    with mem ok have "v_ip s = length (code c)"
      by (fastforce simp: bnds_def bounds_of_def instrs_def dest: layout_bounds split: option.splits)
    with False Suc.prems show ?thesis by auto
  next
    case True
    from bounds_instr [OF ok mem True] obtain op ops where
      at: "instr_at c (v_ip s) op ops" and oks: "operands_ok c (bounds_of c (the (instrs c))) op ops" .
    obtain b s1 where b: "check_execution_budget w c s = (b, s1)" by force
    note b1 = budget_frame [OF b]
    show ?thesis
    proof (cases b)
      case None
      obtain r2 s2 where st: "step w call c s1 = (r2, s2)" by force
      note landed = step_lands [OF instr_at_fetches [OF at] oks b1(1) st]
      have next_ip: "v_ip s2 \<in> I" if "r2 = Inr Continue"
        using landed(3) [OF that] closed at by (auto simp: closed_under_def)
      have handler: ?thesis if "run w call c n (s2\<lparr>v_ip := ip, v_stack := stk\<rparr>) = (r, t)"
        and "unwind_stack_to_handler c (v_last_ip s2) (v_stack s2) e = Some (ip, stk)" for ip stk e
      proof -
        from that(2) closed have "ip \<in> I" by (auto simp: closed_under_def elim!: handler_facts)
        with Suc.IH [of "s2\<lparr>v_ip := ip, v_stack := stk\<rparr>"] that(1) show ?thesis by simp
      qed
      show ?thesis
      proof (cases r2)
        case (Inl err)
        with landed(2) have "\<nexists>e. err = Fault e" by blast
        then obtain x where "err = Raise x" by (cases err) auto
        with Inl True Suc.prems(2) b None st handler show ?thesis
          by (cases x) (auto split: option.splits prod.splits)
      next
        case (Inr fl)
        with True Suc.prems(2) b None st next_ip Suc.IH [of s2] show ?thesis
          by (cases fl) auto
      qed
    qed (use True Suc.prems(2) b in auto)
  qed
qed auto

lemma verified_closed: "local_ok c \<Longrightarrow> closed_under c (bnds c)"
  unfolding closed_under_def
proof (intro conjI allI impI ballI)
  fix off op ops assume "instr_at c off op ops \<and> op \<noteq> OpReturn"
  then show "off + 1 + operand_width op \<in> bnds c" using next_instr(1) by blast
next
  fix off op ops assume "local_ok c" "instr_at c off op ops \<and> op \<noteq> OpReturn" "op \<in> set ops_jump"
  then show "unat (word32_of ops) \<in> bnds c"
    by (fastforce simp: instr_at_def bnds_def operands_ok_def elim!: local_okE split: if_splits)
next
  fix r assume "local_ok c" "r \<in> set (protected_regions c)"
  then show "unat (handler_ip r) \<in> bnds c"
    by (fastforce simp: bnds_def region_ok_def elim!: local_okE)
qed simp

end
