(* ===== verification/Vm_Steps.thy ===== *)
theory Vm_Steps
  imports Vm_Safe
begin

unbundle bit_operations_syntax

text \<open>
  What single instructions do to a frame, for worlds without a time or instruction limit, and
  runs as sequences of instructions: \<open>reaches w call c s t\<close> says that a frame in state \<open>s\<close> goes
  on as a frame in state \<open>t\<close>, \<open>raises w call c s e t\<close> that it raises \<open>e\<close> in state \<open>t\<close>. States are
  compared up to the last instruction and the instruction count.
\<close>

section \<open>Runs\<close>

definition unlimited :: "'x world \<Rightarrow> bool" where
  "unlimited w \<longleftrightarrow> w_instruction_limit w = 0 \<and> (\<forall>x. w_deadline_exceeded w x = (False, x))"

lemma unlimited_budget:
  "unlimited w \<Longrightarrow> check_execution_budget w c s = (None, s\<lparr>v_count := v_count s + 1\<rparr>)"
  by (simp add: check_execution_budget_def unlimited_def exceeded_def Let_def)

text \<open>The same frame up to \<open>v_last_ip\<close> and \<open>v_count\<close>.\<close>

definition same_frame :: "'x vm \<Rightarrow> 'x vm \<Rightarrow> bool" where
  "same_frame s t \<longleftrightarrow> v_ip s = v_ip t \<and> v_stack s = v_stack t \<and> v_env s = v_env t \<and> v_open s = v_open t
     \<and> v_upvalues s = v_upvalues t \<and> v_mem s = v_mem t"

lemma same_frame_refl [simp]: "same_frame s s"
  by (simp add: same_frame_def)

definition reaches :: "'x world \<Rightarrow> 'x caller \<Rightarrow> chunk \<Rightarrow> 'x vm \<Rightarrow> 'x vm \<Rightarrow> bool" where
  "reaches w call c s t \<longleftrightarrow>
     (\<forall>s'. same_frame s' s \<longrightarrow> (\<exists>t' k. same_frame t' t \<and> (\<forall>n. run w call c (k + n) s' = run w call c n t')))"

definition raises :: "'x world \<Rightarrow> 'x caller \<Rightarrow> chunk \<Rightarrow> 'x vm \<Rightarrow> obj \<Rightarrow> 'x store \<Rightarrow> bool" where
  "raises w call c s e st \<longleftrightarrow>
     (\<forall>s'. same_frame s' s \<longrightarrow> (\<exists>t k. v_mem t = st \<and> (\<forall>n. run w call c (Suc (k + n)) s' =
        (case unwind_stack_to_handler c (v_last_ip t) (v_stack t) e of
           Some (ip, stack) \<Rightarrow> run w call c n (t\<lparr>v_ip := ip, v_stack := stack\<rparr>)
         | None \<Rightarrow> (Uncaught e, t)))))"

lemma reaches_refl [simp]: "reaches w call c s s"
  unfolding reaches_def
proof (intro allI impI)
  fix s' assume "same_frame s' s"
  then show "\<exists>t' k. same_frame t' s \<and> (\<forall>n. run w call c (k + n) s' = run w call c n t')"
    by (intro exI [of _ s'] exI [of _ 0]) simp
qed

lemma reaches_trans:
  assumes "reaches w call c s t" "reaches w call c t u"
  shows "reaches w call c s u"
  unfolding reaches_def
proof (intro allI impI)
  fix s' assume "same_frame s' s"
  with assms(1) obtain t' k where 1: "same_frame t' t" "\<And>n. run w call c (k + n) s' = run w call c n t'"
    unfolding reaches_def by blast
  with assms(2) obtain u' j where 2: "same_frame u' u" "\<And>n. run w call c (j + n) t' = run w call c n u'"
    unfolding reaches_def by blast
  have "run w call c (k + j + n) s' = run w call c n u'" for n
    using 1(2) [of "j + n"] 2(2) [of n] by (simp add: add.assoc)
  with 2(1) show "\<exists>t' k. same_frame t' u \<and> (\<forall>n. run w call c (k + n) s' = run w call c n t')" by blast
qed

lemma reaches_raises:
  assumes "reaches w call c s t" "raises w call c t e st"
  shows "raises w call c s e st"
  unfolding raises_def
proof (intro allI impI)
  fix s' assume "same_frame s' s"
  with assms(1) obtain t' k where 1: "same_frame t' t" "\<And>n. run w call c (k + n) s' = run w call c n t'"
    unfolding reaches_def by blast
  with assms(2) obtain u j where 2: "v_mem u = st" "\<And>n. run w call c (Suc (j + n)) t' =
        (case unwind_stack_to_handler c (v_last_ip u) (v_stack u) e of
           Some (ip, stack) \<Rightarrow> run w call c n (u\<lparr>v_ip := ip, v_stack := stack\<rparr>)
         | None \<Rightarrow> (Uncaught e, u))"
    unfolding raises_def by blast
  have "run w call c (Suc (k + j + n)) s' = run w call c (Suc (j + n)) t'" for n
    using 1(2) [of "Suc (j + n)"] by (simp add: add.assoc del: run.simps)
  with 2 show "\<exists>t k. v_mem t = st \<and> (\<forall>n. run w call c (Suc (k + n)) s' =
        (case unwind_stack_to_handler c (v_last_ip t) (v_stack t) e of
           Some (ip, stack) \<Rightarrow> run w call c n (t\<lparr>v_ip := ip, v_stack := stack\<rparr>)
         | None \<Rightarrow> (Uncaught e, t)))"
    by (intro exI [of _ u] exI [of _ "k + j"]) (simp add: del: run.simps)
qed

text \<open>
  One instruction: the rules below give it as an equation for \<open>exec_op\<close> on a state whose
  instruction pointer is behind the opcode.
\<close>

lemma step_reaches:
  assumes w: "unlimited w" and at: "fetches c (v_ip s) op ops"
    and exec: "\<And>last count. exec_op w call c op (s\<lparr>v_last_ip := v_ip s, v_ip := v_ip s + 1, v_count := count\<rparr>) =
      (Inr Continue, t\<lparr>v_last_ip := v_ip s, v_count := count\<rparr>)"
  shows "reaches w call c s t"
  unfolding reaches_def
proof (intro allI impI)
  fix s' assume same: "same_frame s' s"
  define u where "u = t\<lparr>v_last_ip := v_ip s, v_count := v_count s' + 1\<rparr>"
  have eq: "s'\<lparr>v_count := v_count s' + 1, v_last_ip := v_ip s, v_ip := Suc (v_ip s)\<rparr> =
      s\<lparr>v_last_ip := v_ip s, v_ip := Suc (v_ip s), v_count := v_count s' + 1\<rparr>"
    using same by (cases s; cases s') (simp add: same_frame_def)
  have ip: "v_ip s' = v_ip s" using same by (simp add: same_frame_def)
  have "step w call c (s'\<lparr>v_count := v_count s' + 1\<rparr>) = (Inr Continue, u)"
    using exec fetches_bytes(1) [OF at] by (simp add: step_def Let_def ip eq u_def)
  moreover have "v_ip s < length (code c)" using fetches_bytes(3) [OF at] by simp
  ultimately have "run w call c (Suc n) s' = run w call c n u" for n
    using ip by (simp add: unlimited_budget [OF w])
  moreover have "same_frame u t" by (simp add: u_def same_frame_def)
  ultimately show "\<exists>t' k. same_frame t' t \<and> (\<forall>n. run w call c (k + n) s' = run w call c n t')"
    by (intro exI [of _ u] exI [of _ 1]) simp
qed

lemma step_raises:
  assumes w: "unlimited w" and at: "fetches c (v_ip s) op ops"
    and exec: "\<And>count. \<exists>t. v_mem t = st \<and>
      exec_op w call c op (s\<lparr>v_last_ip := v_ip s, v_ip := v_ip s + 1, v_count := count\<rparr>) =
        (Inl (Raise (Thrown e)), t)"
  shows "raises w call c s e st"
  unfolding raises_def
proof (intro allI impI)
  fix s' assume same: "same_frame s' s"
  have eq: "s'\<lparr>v_count := v_count s' + 1, v_last_ip := v_ip s, v_ip := Suc (v_ip s)\<rparr> =
      s\<lparr>v_last_ip := v_ip s, v_ip := Suc (v_ip s), v_count := v_count s' + 1\<rparr>"
    using same by (cases s; cases s') (simp add: same_frame_def)
  have ip: "v_ip s' = v_ip s" using same by (simp add: same_frame_def)
  from exec obtain t where t: "v_mem t = st"
    "exec_op w call c op (s\<lparr>v_last_ip := v_ip s, v_ip := v_ip s + 1, v_count := v_count s' + 1\<rparr>) =
        (Inl (Raise (Thrown e)), t)" by blast
  have "step w call c (s'\<lparr>v_count := v_count s' + 1\<rparr>) = (Inl (Raise (Thrown e)), t)"
    using t(2) fetches_bytes(1) [OF at] by (simp add: step_def Let_def ip eq)
  moreover have "v_ip s < length (code c)" using fetches_bytes(3) [OF at] by simp
  ultimately have "run w call c (Suc n) s' =
        (case unwind_stack_to_handler c (v_last_ip t) (v_stack t) e of
           Some (ip, stack) \<Rightarrow> run w call c n (t\<lparr>v_ip := ip, v_stack := stack\<rparr>)
         | None \<Rightarrow> (Uncaught e, t))" for n
    using ip by (simp add: unlimited_budget [OF w])
  with t(1) show "\<exists>t k. v_mem t = st \<and> (\<forall>n. run w call c (Suc (k + n)) s' =
        (case unwind_stack_to_handler c (v_last_ip t) (v_stack t) e of
           Some (ip, stack) \<Rightarrow> run w call c n (t\<lparr>v_ip := ip, v_stack := stack\<rparr>)
         | None \<Rightarrow> (Uncaught e, t)))"
    by (intro exI [of _ t] exI [of _ 0]) (simp del: run.simps)
qed

section \<open>Instructions\<close>

lemma step_fetch:
  assumes "fetches c (v_ip s) op ops"
  shows "step w call c s = exec_op w call c op (s\<lparr>v_last_ip := v_ip s, v_ip := v_ip s + 1\<rparr>)"
  using fetches_bytes(1) [OF assms] by (simp only: step_def Let_def from_byte_op_byte option.case)

lemma cont_run: "m s = (r, t) \<Longrightarrow>
    cont m s = (case r of Inl e \<Rightarrow> (Inl e, t) | Inr _ \<Rightarrow> (Inr Continue, t))"
  by (simp add: cont_eq)

lemma reaches_const:
  assumes w: "unlimited w" and at: "fetches c (v_ip s) OpConst ops"
    and idx: "unat (word16_of ops) < length (constants c)"
  shows "reaches w call c s
    (s\<lparr>v_ip := v_ip s + 3, v_stack := v_stack s @ [constants c ! unat (word16_of ops)]\<rparr>)"
  by (rule step_reaches [OF w at])
    (use idx in
      \<open>simp add: read_name_operands(3) [OF at] exec_op_def binary_op_text_def unary_op_text_def cont_eq push_const_from_operand_def
        andthen_def push_def modify_def operand_width_def ops_u16_def\<close>)

lemma reaches_plain:
  assumes w: "unlimited w" and at: "fetches c (v_ip s) op ops"
  shows "op = OpPop \<Longrightarrow> reaches w call c s (s\<lparr>v_ip := v_ip s + 1, v_stack := butlast (v_stack s)\<rparr>)"
    and "op = OpDup \<Longrightarrow> v_stack s \<noteq> [] \<Longrightarrow>
      reaches w call c s (s\<lparr>v_ip := v_ip s + 1, v_stack := v_stack s @ [last (v_stack s)]\<rparr>)"
    and "op = OpTypeOf \<Longrightarrow> v_stack s = stk @ [v] \<Longrightarrow>
      reaches w call c s (s\<lparr>v_ip := v_ip s + 1, v_stack := stk @ [OString (typeof_name v)]\<rparr>)"
    and "op = OpLoadThis \<Longrightarrow> reaches w call c s (s\<lparr>v_ip := v_ip s + 1, v_stack := v_stack s @
        [case sc_this (scopes (v_mem s) (hd (v_env s))) of Some v \<Rightarrow> v | None \<Rightarrow> OUndefined]\<rparr>)"
  by (rule step_reaches [OF w at],
      simp add: exec_op_def binary_op_text_def unary_op_text_def cont_eq at_instruction_def andthen_def
        gets_def pop_value_def modify_def dup_stack_def top_def push_def type_of_stack_def pop_def load_this_def)+

lemma exec_load_name:
  assumes at: "fetches c off OpLoadName ops"
    and name: "unat (word16_of ops) < length (constants c)" "constants c ! unat (word16_of ops) = OString name"
    and ip: "v_ip s = off + 1"
  shows "exec_op w call c OpLoadName s = cont (load_name name (position_at c off)) (s\<lparr>v_ip := off + 3\<rparr>)"
proof -
  have "string_const (constants c) (word16_of ops)" using name by (simp add: string_const_def)
  moreover have "2 \<le> operand_width OpLoadName" by (simp add: operand_width_def ops_u16_def)
  ultimately show ?thesis
    by (simp add: read_name_operands(1) [OF at ip] exec_op_def binary_op_text_def unary_op_text_def
        cont_eq load_name_from_operand_def andthen_def name(2))
qed

lemma load_name_run:
  assumes w: "unlimited w" and at: "fetches c (v_ip s) OpLoadName ops"
    and name: "unat (word16_of ops) < length (constants c)" "constants c ! unat (word16_of ops) = OString name"
  shows "env_get (v_mem s) (v_env s) name = Some v \<Longrightarrow>
      reaches w call c s (s\<lparr>v_ip := v_ip s + 3, v_stack := v_stack s @ [v]\<rparr>)"
    and "env_get (v_mem s) (v_env s) name = None \<Longrightarrow>
      raises w call c s (not_defined (position_at c (v_ip s)) name) (v_mem s)"
proof -
  note load = exec_load_name [OF at name]
  show "reaches w call c s (s\<lparr>v_ip := v_ip s + 3, v_stack := v_stack s @ [v]\<rparr>)"
    if "env_get (v_mem s) (v_env s) name = Some v"
    by (rule step_reaches [OF w at], subst load, simp)
      (use that in \<open>simp add: cont_eq load_name_def andthen_def gets_def push_def modify_def\<close>)
  show "raises w call c s (not_defined (position_at c (v_ip s)) name) (v_mem s)"
    if "env_get (v_mem s) (v_env s) name = None"
    by (rule step_raises [OF w at], subst load, simp)
      (use that in \<open>simp add: cont_eq load_name_def andthen_def gets_def raise_def err_def\<close>)
qed

lemma reaches_jump:
  assumes w: "unlimited w" and at: "fetches c (v_ip s) op ops"
  shows "op = OpJump \<Longrightarrow> reaches w call c s (s\<lparr>v_ip := unat (word32_of ops)\<rparr>)"
    and "op = OpJumpIfFalse \<Longrightarrow> v_stack s = stk @ [v] \<Longrightarrow> reaches w call c s
      (s\<lparr>v_ip := (if is_truthy v then v_ip s + 5 else unat (word32_of ops)), v_stack := stk\<rparr>)"
    and "op = OpJumpIfTrue \<Longrightarrow> v_stack s = stk @ [v] \<Longrightarrow> reaches w call c s
      (s\<lparr>v_ip := (if is_truthy v then unat (word32_of ops) else v_ip s + 5), v_stack := stk\<rparr>)"
  by (rule step_reaches [OF w at],
      simp add: exec_op_def binary_op_text_def unary_op_text_def cont_eq run_jump [OF at jump_facts(1)])+

lemma binary_run:
  assumes w: "unlimited w" and at: "fetches c (v_ip s) op ops" and op: "map_of binary_op_text op = Some sign"
    and stack: "v_stack s = stk @ [l, r]"
    and res: "apply_binary_op (w_pow w) (v_mem s) sign l r (position_at c (v_ip s)) = Some v"
  shows "\<not> is_runtime_error v \<Longrightarrow> reaches w call c s (s\<lparr>v_ip := v_ip s + 1, v_stack := stk @ [v]\<rparr>)"
    and "is_runtime_error v \<Longrightarrow> raises w call c s v (v_mem s)"
proof -
  have exec: "exec_op w call c op (s\<lparr>v_last_ip := v_ip s, v_ip := v_ip s + 1, v_count := count\<rparr>) =
      (if is_runtime_error v
       then (Inl (Raise (Thrown v)), s\<lparr>v_last_ip := v_ip s, v_ip := v_ip s + 1, v_count := count, v_stack := stk\<rparr>)
       else (Inr Continue, s\<lparr>v_last_ip := v_ip s, v_ip := v_ip s + 1, v_count := count, v_stack := stk @ [v]\<rparr>))"
    for count
    using stack res butlast_append [of stk "[l, r]"] butlast_append [of stk "[l]"]
    by (simp add: exec_op_def op at_instruction_def cont_eq andthen_def gets_def
        apply_binary_stack_op_def pop_def on_mem_def returns_def checked_def ret_def err_def push_def modify_def)
  show "reaches w call c s (s\<lparr>v_ip := v_ip s + 1, v_stack := stk @ [v]\<rparr>)" if "\<not> is_runtime_error v"
    by (rule step_reaches [OF w at], subst exec) (simp add: that)
  show "raises w call c s v (v_mem s)" if "is_runtime_error v"
    by (rule step_raises [OF w at], subst exec) (simp add: that)
qed

lemma unary_run:
  assumes w: "unlimited w" and at: "fetches c (v_ip s) op ops"
    and op: "map_of binary_op_text op = None" "map_of unary_op_text op = Some sign"
    and stack: "v_stack s = stk @ [r]"
  defines "v \<equiv> apply_unary_op sign r (position_at c (v_ip s))"
  shows "\<not> is_runtime_error v \<Longrightarrow> reaches w call c s (s\<lparr>v_ip := v_ip s + 1, v_stack := stk @ [v]\<rparr>)"
    and "is_runtime_error v \<Longrightarrow> raises w call c s v (v_mem s)"
proof -
  have exec: "exec_op w call c op (s\<lparr>v_last_ip := v_ip s, v_ip := v_ip s + 1, v_count := count\<rparr>) =
      (if is_runtime_error v
       then (Inl (Raise (Thrown v)), s\<lparr>v_last_ip := v_ip s, v_ip := v_ip s + 1, v_count := count, v_stack := stk\<rparr>)
       else (Inr Continue, s\<lparr>v_last_ip := v_ip s, v_ip := v_ip s + 1, v_count := count, v_stack := stk @ [v]\<rparr>))"
    for count
    using stack
    by (simp add: exec_op_def op at_instruction_def cont_eq andthen_def gets_def v_def
        apply_unary_stack_op_def pop_def on_mem_def checked_def ret_def err_def push_def modify_def)
  show "reaches w call c s (s\<lparr>v_ip := v_ip s + 1, v_stack := stk @ [v]\<rparr>)" if "\<not> is_runtime_error v"
    by (rule step_reaches [OF w at], subst exec) (simp add: that)
  show "raises w call c s v (v_mem s)" if "is_runtime_error v"
    by (rule step_raises [OF w at], subst exec) (simp add: that)
qed

lemma new_array_run:
  assumes w: "unlimited w" and at: "fetches c (v_ip s) OpNewArray ops"
    and stack: "v_stack s = stk @ vs" "unat (word16_of ops) = length vs"
    and new: "new_array vs (v_mem s) = (a, st)"
  shows "reaches w call c s (s\<lparr>v_ip := v_ip s + 3, v_stack := stk @ [a], v_mem := st\<rparr>)"
  by (rule step_reaches [OF w at])
    (use stack new in
      \<open>simp add: read_with_pos(3) [OF at] exec_op_def binary_op_text_def unary_op_text_def cont_eq new_array_from_operand_def
        new_array_from_stack_def andthen_def gets_def split_off_def update_def on_mem_def push_def modify_def
        operand_width_def ops_u16_def Let_def\<close>)

lemma return_run:
  assumes w: "unlimited w" and at: "fetches c (v_ip s) OpReturn ops" and stack: "v_stack s = stk @ [v]"
    and "same_frame s' s" "v_open s = []"
  shows "\<exists>t. v_mem t = v_mem s \<and> run w call c (Suc n) s' = (Returned v, t)"
proof -
  have ip: "v_ip s' = v_ip s" "v_stack s' = stk @ [v]" "v_open s' = []" "v_mem s' = v_mem s"
    using assms by (simp_all add: same_frame_def)
  let ?s = "s'\<lparr>v_count := v_count s' + 1\<rparr>"
  have "fetches c (v_ip ?s) OpReturn ops" using at ip by simp
  from step_fetch [OF this, of w call]
  have "step w call c ?s = (Inr (Return_value v), ?s\<lparr>v_last_ip := v_ip s, v_ip := v_ip s + 1, v_stack := stk\<rparr>)"
    using ip by (simp add: exec_op_def binary_op_text_def unary_op_text_def
        return_from_stack_def return_value_def andthen_def gets_def pop_value_def close_upvalues_op_def
        modify_def ret_def close_open_upvalues_from_def)
  moreover have "v_ip s < length (code c)" using fetches_bytes(3) [OF at] by simp
  ultimately show ?thesis using ip by (simp add: unlimited_budget [OF w])
qed

end
