(* ===== verification/Vm_Runs.thy ===== *)
theory Vm_Runs
  imports Vm_Safe
begin

unbundle bit_operations_syntax

text \<open>
  Consequences for whole frames: bytecode the compiler emits for a program never leaves the
  code, the instruction limit bounds the loop of every frame, whatever its code, and frames
  shorter than the sampling interval never meet the limit.
\<close>

section \<open>Compiled programs\<close>

lemma compiled_closed:
  assumes "compile h n prog = Inr c" "small c"
  shows "local_ok c" "closed_under c (bnds c \<inter> {..<length (code c)})" "0 < length (code c)"
proof -
  from compile_prefix [OF assms] obtain c0 xs where
    c0: "c = write_op OpReturn (prog_pos prog) c0" "local_ok c0" "instrs c0 = Some xs"
      "instrs c = Some (xs @ [(length (code c0), OpReturn, [])])" .
  show ok: "local_ok c" using compile_sound [OF assms] by (rule sound_local)
  have len: "length (code c) = Suc (length (code c0))" by (simp add: c0(1) chunk_simps)
  then show "0 < length (code c)" by simp
  have c0_le: "b \<le> length (code c0)" if "b \<in> set (bounds_of c0 xs)" for b
    using that layout_bounds [of 0 "code c0" xs] c0(3) by (fastforce simp: bounds_of_def instrs_def)
  note inside = verified_closed [OF ok, unfolded closed_under_def]
  show "closed_under c (bnds c \<inter> {..<length (code c)})"
    unfolding closed_under_def
  proof (intro conjI allI impI ballI)
    fix off op ops assume at: "instr_at c off op ops \<and> op \<noteq> OpReturn"
    have "off + 1 + operand_width op \<noteq> length (code c)"
      using at next_instr(2) [of c off op ops] c0(4) by auto
    with at inside fetches_bytes(3) [OF instr_at_fetches, of c off op ops]
    show "off + 1 + operand_width op \<in> bnds c \<inter> {..<length (code c)}" by auto
    assume "op \<in> set ops_jump"
    with at inside compiled_jump_inside [OF assms]
    show "unat (word32_of ops) \<in> bnds c \<inter> {..<length (code c)}" by (auto simp: instr_at_def)
  next
    fix r assume r: "r \<in> set (protected_regions c)"
    then have "region_ok (bounds_of c0 xs) r" using c0 by (auto simp: local_ok_def list_all_iff chunk_simps)
    then have "unat (handler_ip r) \<le> length (code c0)" using c0_le by (simp add: region_ok_def)
    with r inside len show "unat (handler_ip r) \<in> bnds c \<inter> {..<length (code c)}" by auto
  qed auto
qed

lemma run_compiled:
  assumes "compile h n prog = Inr c" "small c" "run w call c k (vm_new env upvals st) = (r, t)"
  shows "r \<noteq> Malformed e" "r \<noteq> Ran_off e"
proof -
  note closed = compiled_closed [OF assms(1,2)]
  have "v_ip (vm_new env upvals st) \<in> bnds c \<inter> {..<length (code c)}"
    using zero_boundary [OF closed(1)] closed(3) by (simp add: vm_new_def)
  from run_closed [OF closed(1,2) this assms(3)] show "r \<noteq> Malformed e" "r \<noteq> Ran_off e" by auto
qed

lemma interpret_exit:
  assumes "interpret_with_upvalues w k c env upvals st = (r, st')" "r \<noteq> Hung"
  obtains j st1 t where "k = Suc j"
    "run w (call_closure_impl w (interpret_with_upvalues w j)) c k (vm_new env upvals st1) = (r, t)"
  using assms by (cases k) (auto simp: Let_def split: prod.splits)

section \<open>Frames of the program and of its functions\<close>

text \<open>The program's own chunk and those of its functions, at any depth.\<close>

inductive part_of :: "chunk \<Rightarrow> chunk \<Rightarrow> bool" where
  part_self: "part_of c c"
| part_proto: "p \<in> set (protos c) \<Longrightarrow> proto_chunk p = Some c' \<Longrightarrow> part_of d c' \<Longrightarrow> part_of d c"

lemma part_all_chunks: "part_of d c \<Longrightarrow> all_chunks Q c \<Longrightarrow> all_chunks Q d"
proof (induction rule: part_of.induct)
  case (part_proto p c c' d)
  then show ?case using all_chunks_iff [of Q c] all_chunks_proto_iff [of Q p] by blast
qed

text \<open>
  The code of a chunk that can be run off: its last instruction is not \<^verbatim>\<open>RETURN\<close>, or a jump or a
  handler targets its end.
\<close>

definition leads_out :: "chunk \<Rightarrow> bool" where
  "leads_out c \<longleftrightarrow> (case instrs c of None \<Rightarrow> True | Some xs \<Rightarrow>
     xs = [] \<or> fst (snd (last xs)) \<noteq> OpReturn
     \<or> list_ex (\<lambda>(i, op, ops). op \<in> set ops_jump \<and> unat (word32_of ops) = length (code c)) xs
     \<or> list_ex (\<lambda>r. unat (handler_ip r) = length (code c)) (protected_regions c))"

lemma closed_in_code:
  assumes ok: "local_ok c" and "\<not> leads_out c"
  shows "closed_under c (bnds c \<inter> {..<length (code c)})" "0 < length (code c)"
proof -
  from assms obtain xs where xs: "instrs c = Some xs" "xs \<noteq> []" "fst (snd (last xs)) = OpReturn"
    and jumps: "\<And>i op ops. (i, op, ops) \<in> set xs \<Longrightarrow> op \<in> set ops_jump \<Longrightarrow> unat (word32_of ops) \<noteq> length (code c)"
    and handlers: "\<And>r. r \<in> set (protected_regions c) \<Longrightarrow> unat (handler_ip r) \<noteq> length (code c)"
    by (auto simp: leads_out_def list_ex_iff split: option.splits)
  show "0 < length (code c)" using xs(1,2) by (cases "code c") (auto simp: instrs_def layout.simps)
  have le: "b \<le> length (code c)" if "b \<in> bnds c" for b
    using that layout_bounds [of 0 "code c" xs] xs(1) by (fastforce simp: bnds_def bounds_of_def instrs_def)
  note inside = verified_closed [OF ok, unfolded closed_under_def]
  show "closed_under c (bnds c \<inter> {..<length (code c)})"
    unfolding closed_under_def
  proof (intro conjI allI impI ballI)
    fix off op ops assume at: "instr_at c off op ops \<and> op \<noteq> OpReturn"
    have "off + 1 + operand_width op \<noteq> length (code c)"
      using at next_instr(2) [of c off op ops] xs by (metis fst_conv option.sel snd_conv)
    with at inside le show "off + 1 + operand_width op \<in> bnds c \<inter> {..<length (code c)}"
      by (metis IntI le_neq_implies_less lessThan_iff)
    assume "op \<in> set ops_jump"
    with at inside le jumps [of off op ops] xs(1)
    show "unat (word32_of ops) \<in> bnds c \<inter> {..<length (code c)}"
      by (metis IntI instr_at_def le_neq_implies_less lessThan_iff option.inject)
  next
    fix r assume "r \<in> set (protected_regions c)"
    with inside le handlers show "unat (handler_ip r) \<in> bnds c \<inter> {..<length (code c)}"
      by (metis IntI le_neq_implies_less lessThan_iff)
  qed auto
qed

lemma frame_stays:
  assumes "local_ok c" "interpret_with_upvalues w k c env upvals st = (r, st')"
  shows "r \<noteq> Malformed e" "\<not> leads_out c \<Longrightarrow> r \<noteq> Ran_off e"
proof -
  have *: "r \<noteq> Malformed e \<and> (\<not> leads_out c \<longrightarrow> r \<noteq> Ran_off e)"
  proof (cases "r = Hung")
    case False
    from assms(2) False obtain j st1 t where
      exit: "run w (call_closure_impl w (interpret_with_upvalues w j)) c k (vm_new env upvals st1) = (r, t)"
      by (rule interpret_exit)
    have start: "v_ip (vm_new env upvals st1) \<in> bnds c"
      using zero_boundary [OF assms(1)] by (simp add: vm_new_def)
    have "r \<noteq> Ran_off e" if "\<not> leads_out c"
    proof -
      note closed = closed_in_code [OF assms(1) that]
      from start closed(2) have "v_ip (vm_new env upvals st1) \<in> bnds c \<inter> {..<length (code c)}"
        by (simp add: vm_new_def)
      from run_closed [OF assms(1) closed(1) this exit] show ?thesis by auto
    qed
    with run_closed [OF assms(1) verified_closed [OF assms(1)] start exit] show ?thesis by blast
  qed simp
  then show "r \<noteq> Malformed e" "\<not> leads_out c \<Longrightarrow> r \<noteq> Ran_off e" by blast+
qed

section \<open>The instruction count\<close>

lemma steady_readers:
  "steady (read_byte_operand_with_pos c name)" "steady (read_u16_operand_with_pos c name)"
  "steady (read_usize_operand_with_pos c name)" "steady (read_u32_operand_with_pos c name)"
  "steady (read_string_operand c name)" "steady (read_name_operand c name)"
  "steady (read_const_operand c name)" "steady (read_type_operand c name pos)"
  "steady (read_u32_operand c name)"
  by (auto simp: steady_def read_byte_operand_with_pos_def read_u16_operand_with_pos_def
      read_usize_operand_with_pos_def read_u32_operand_with_pos_def read_string_operand_def
      read_name_operand_def read_const_operand_def read_type_operand_def read_string_const_def
      read_byte_operand_def read_u16_operand_def read_u32_operand_def sr_defs Let_def
      split: prod.splits sum.splits if_splits option.splits obj.splits)

lemma steady_cases:
  "steady m \<Longrightarrow> steady m' \<Longrightarrow> steady (if b then m else m')"
  "(\<And>x y. steady (g x y)) \<Longrightarrow> steady (case p of (x, y) \<Rightarrow> g x y)"
  "steady (err e)"
  by (simp_all add: steady_def sr_defs split: prod.split)

lemmas steady_intros = steady_readers steady_andthen steady_cases quiet_steady

lemma steady_handlers:
  "steady (load_name_from_operand c)" "steady (assign_name_from_operand c)"
  "steady (load_global_from_operand c)" "steady (get_property_from_operand w c)"
  "steady (set_property_from_operand c)" "steady (super_method_from_operand w c)"
  "steady (import_module_from_operand w c)" "steady (export_name_from_operand c)"
  "steady (store_name_from_operand c)" "steady (store_global_from_operand c)"
  "steady (load_local_from_operand c)" "steady (store_local_from_operand c)"
  "steady (load_upvalue_from_operand c)" "steady (store_upvalue_from_operand c)"
  "steady (call_from_operand w call c)" "steady (construct_from_operand w call c)"
  "steady (new_array_from_operand c)" "steady (push_const_from_operand c)"
  unfolding load_name_from_operand_def assign_name_from_operand_def load_global_from_operand_def
    get_property_from_operand_def set_property_from_operand_def super_method_from_operand_def
    import_module_from_operand_def export_name_from_operand_def
    store_name_from_operand_def store_global_from_operand_def
    load_local_from_operand_def store_local_from_operand_def load_upvalue_from_operand_def
    store_upvalue_from_operand_def call_from_operand_def construct_from_operand_def
    new_array_from_operand_def push_const_from_operand_def
  by (rule steady_andthen, rule steady_readers, rule quiet_steady, intro quiet)+

lemma steady_table_handlers:
  "steady (push_closure_from_operand c)" "steady (build_class_from_operand w c)"
  "steady (store_typed_name_from_operand c)"
proof -
  show "steady (push_closure_from_operand c)"
    unfolding push_closure_from_operand_def Let_def
    by (rule steady_andthen, rule steady_readers, rule steady_cases, rule steady_cases,
        rule quiet_steady, intro quiet, rule steady_cases)
  show "steady (build_class_from_operand w c)"
    unfolding build_class_from_operand_def
    by (rule steady_andthen, rule steady_readers, rule steady_cases, rule steady_cases,
        rule quiet_steady, intro quiet, rule steady_cases)
  show "steady (store_typed_name_from_operand c)"
    unfolding store_typed_name_from_operand_def
    by (rule steady_andthen, rule steady_readers, rule steady_cases, rule steady_cases,
        rule steady_andthen, rule steady_readers, rule quiet_steady, intro quiet)
qed

lemma steady_jumps:
  "steady (jump_to_operand c name)" "steady (conditional_jump_from_stack c name b)"
proof -
  have set_ip: "steady (modify (\<lambda>s. s\<lparr>v_ip := ip\<rparr>))" for ip
    by (simp add: steady_def modify_def)
  show "steady (jump_to_operand c name)"
    unfolding jump_to_operand_def by (intro steady_andthen steady_readers set_ip)
  show "steady (conditional_jump_from_stack c name b)"
    unfolding conditional_jump_from_stack_def
    by (intro steady_andthen steady_readers steady_cases set_ip quiet_steady quiet_basic)
qed

lemma steady_flow:
  "steady m \<Longrightarrow> steady (cont m)" "(\<And>pos. quiet (f pos)) \<Longrightarrow> steady (at_instruction c f)"
  "(\<And>pos. quiet (f pos)) \<Longrightarrow> steady (at_ip c f)" "steady return_from_stack" "steady (return_value v)"
proof -
  show cont: "steady (cont m)" if "steady m" for m :: "('x, unit) vm_op"
    unfolding cont_def by (rule steady_andthen [OF that]) (intro quiet_steady quiet)
  show "steady (at_instruction c f)" "steady (at_ip c f)" if "\<And>pos. quiet (f pos)"
    unfolding at_instruction_def at_ip_def by (intro cont quiet_steady quiet that)+
  show "steady return_from_stack" "steady (return_value v)"
    unfolding return_from_stack_def return_value_def by (intro quiet_steady quiet)+
qed

lemma steady_fault: "steady (\<lambda>s. (Inl (f s), s))"
  by (simp add: steady_def)

lemma steady_exec_op: "steady (exec_op w call c op)"
proof (cases "map_of binary_op_text op")
  case None
  note binary = this
  show ?thesis
  proof (cases "map_of unary_op_text op")
    case None
    have "steady (exec_special w call c op)"
      by (cases op) (simp_all add: steady_flow steady_handlers steady_table_handlers steady_jumps
          steady_fault quiet quiet_steady)
    with binary None show ?thesis by (simp add: exec_op_def)
  qed (use binary in \<open>simp add: exec_op_def steady_flow quiet\<close>)
qed (simp add: exec_op_def steady_flow quiet)

lemma step_count: "step w call c s = (r, t) \<Longrightarrow> v_count t = v_count s"
  using steady_exec_op [of w call c]
  by (fastforce simp: step_def Let_def dest: steadyD split: option.splits)

section \<open>The instruction limit\<close>

definition budget :: "u64 \<Rightarrow> nat" where
  "budget limit = (unat limit div 4096 + 1) * 4096"

lemma budget_gt: "unat limit < budget limit" "budget limit mod 4096 = 0"
  using mod_less_divisor [of 4096 "unat limit"] div_mult_mod_eq [of "unat limit" 4096]
  by (simp_all add: budget_def)

lemma count_Suc:
  assumes "v_count s = of_nat k" "k + 1 < 2 ^ 64"
  shows "unat (v_count s + 1) = k + 1"
proof -
  have "v_count s + 1 = of_nat (k + 1)" using assms(1) by simp
  then show ?thesis using unat_of_nat_small [of "k + 1"] assms(2) by (simp del: of_nat_Suc)
qed

lemma budget_stops:
  assumes "0 < w_instruction_limit w" "budget (w_instruction_limit w) < 2 ^ 64"
    and "v_count s = of_nat k" "k + 1 = budget (w_instruction_limit w)"
  shows "\<exists>e. fst (check_execution_budget w c s) = Some e"
proof -
  have n: "unat (v_count s + 1) = budget (w_instruction_limit w)"
    using count_Suc [of s k] assms by simp
  then have "w_instruction_limit w < v_count s + 1"
    using budget_gt(1) by (simp add: word_less_nat_alt)
  with assms(1) n budget_gt(2) show ?thesis
    by (simp add: check_execution_budget_def Let_def exceeded_def)
qed

text \<open>
  \<open>executes w call c s t\<close>: the loop of a frame that is in the state \<open>s\<close> comes to execute an
  instruction in the state \<open>t\<close>.
\<close>

inductive executes :: "'x world \<Rightarrow> 'x caller \<Rightarrow> chunk \<Rightarrow> 'x vm \<Rightarrow> 'x vm \<Rightarrow> bool"
  for w :: "'x world" and call :: "'x caller" and c :: chunk where
  executes_now: "v_ip s < length (code c) \<Longrightarrow> check_execution_budget w c s = (None, s1) \<Longrightarrow>
    executes w call c s s1"
| executes_next: "v_ip s < length (code c) \<Longrightarrow> check_execution_budget w c s = (None, s1) \<Longrightarrow>
    step w call c s1 = (Inr Continue, s2) \<Longrightarrow> executes w call c s2 t \<Longrightarrow> executes w call c s t"
| executes_handler: "v_ip s < length (code c) \<Longrightarrow> check_execution_budget w c s = (None, s1) \<Longrightarrow>
    step w call c s1 = (Inl x, s2) \<Longrightarrow> x = Raise (Thrown e) \<or> x = Fault e \<Longrightarrow>
    unwind_stack_to_handler c (v_last_ip s2) (v_stack s2) e = Some (ip, stk) \<Longrightarrow>
    executes w call c (s2\<lparr>v_ip := ip, v_stack := stk\<rparr>) t \<Longrightarrow> executes w call c s t"

lemma run_in_budget:
  assumes lim: "0 < w_instruction_limit w" "budget (w_instruction_limit w) < 2 ^ 64"
  shows "v_count s = of_nat k \<Longrightarrow> k < budget (w_instruction_limit w) \<Longrightarrow>
    budget (w_instruction_limit w) \<le> k + n \<Longrightarrow>
    \<forall>t. executes w call c s t \<longrightarrow> fst (step w call c t) \<noteq> Inl (Raise Diverges) \<Longrightarrow>
    fst (run w call c n s) \<noteq> Hung"
proof (induction n arbitrary: s k)
  case (Suc n)
  show ?case
  proof (cases "v_ip s < length (code c)")
    case True
    obtain b s1 where b: "check_execution_budget w c s = (b, s1)" by force
    note b1 = budget_frame [OF b]
    show ?thesis
    proof (cases b)
      case None
      with b have bn: "check_execution_budget w c s = (None, s1)" by simp
      obtain r2 s2 where st: "step w call c s1 = (r2, s2)" by force
      have no: "r2 \<noteq> Inl (Raise Diverges)"
        using Suc.prems(4) executes_now [OF True bn, of call] st by (metis fst_conv)
      have "k + 1 \<noteq> budget (w_instruction_limit w)"
        using budget_stops [OF lim Suc.prems(1), where c = c] b None by (metis fst_conv option.distinct(1))
      with Suc.prems have k: "k + 1 < budget (w_instruction_limit w)"
        "budget (w_instruction_limit w) \<le> k + 1 + n" by simp_all
      have count: "v_count s2 = of_nat (k + 1)"
        using step_count [OF st] b1(3) Suc.prems(1) by simp
      note rest = Suc.IH [OF _ k]
      show ?thesis
      proof (cases r2)
        case (Inl x)
        have on: "fst (run w call c n (s2\<lparr>v_ip := ip, v_stack := stk\<rparr>)) \<noteq> Hung"
          if "x = Raise (Thrown e) \<or> x = Fault e"
            "unwind_stack_to_handler c (v_last_ip s2) (v_stack s2) e = Some (ip, stk)" for e ip stk
          by (rule rest) (use count Suc.prems(4) executes_handler [OF True bn st [unfolded Inl] that] in auto)
        have "x \<noteq> Raise Diverges" using no Inl by simp
        with Inl True b None st on show ?thesis
          by (cases x; cases "case x of Raise y \<Rightarrow> y") (auto split: option.splits)
      next
        case (Inr fl)
        show ?thesis
        proof (cases fl)
          case Continue
          have "fst (run w call c n s2) \<noteq> Hung"
            by (rule rest) (use count Suc.prems(4) executes_next [OF True bn st [unfolded Inr Continue]] in auto)
          with True b None st Inr Continue show ?thesis by simp
        qed (use True b None st Inr in simp)
      qed
    qed (use True b in simp)
  qed simp
qed simp

lemma run_unsampled:
  "v_count s = of_nat k \<Longrightarrow> k + n < 4096 \<Longrightarrow> fst (run w call c n s) \<noteq> Stopped e"
proof (induction n arbitrary: s k)
  case (Suc n)
  show ?case
  proof (cases "v_ip s < length (code c)")
    case True
    have "unat (v_count s + 1) = k + 1" using Suc.prems by (intro count_Suc) simp_all
    then have b: "check_execution_budget w c s = (None, s\<lparr>v_count := v_count s + 1\<rparr>)"
      using Suc.prems(2) by (simp add: check_execution_budget_def Let_def)
    obtain r2 s2 where st: "step w call c (s\<lparr>v_count := v_count s + 1\<rparr>) = (r2, s2)" by force
    have count: "v_count s2 = of_nat (k + 1)" using step_count [OF st] Suc.prems(1) by simp
    have on: "fst (run w call c n s2) \<noteq> Stopped e"
      "fst (run w call c n (s2\<lparr>v_ip := ip, v_stack := stk\<rparr>)) \<noteq> Stopped e" for ip stk
      by (rule Suc.IH [of _ "k + 1"]; use count Suc.prems(2) in simp)+
    show ?thesis
    proof (cases r2)
      case (Inl err)
      with True b st on show ?thesis
        by (cases err; cases "case err of Raise x \<Rightarrow> x") (auto split: option.splits)
    next
      case (Inr fl)
      with True b st on show ?thesis by (cases fl) auto
    qed
  qed simp
qed simp

end
