(* ===== verification/Vm_Fuel.thy ===== *)
theory Vm_Fuel
  imports Vm
begin

text \<open>
  The fuel of \<open>interpret_with_upvalues\<close> bounds the instructions of a frame and the depth of calls.
  \<open>refines d m m'\<close> says that wherever \<open>m\<close> does not give up with \<open>d\<close>, \<open>m'\<close> does the same; it is
  kept by every operation that calls back into the interpreter, so more fuel never changes
  a result.
\<close>

section \<open>Operations with more fuel\<close>

definition refines :: "'e \<Rightarrow> ('s, 'e, 'a) sr \<Rightarrow> ('s, 'e, 'a) sr \<Rightarrow> bool" where
  "refines d m m' \<longleftrightarrow> (\<forall>s. fst (m s) \<noteq> Inl d \<longrightarrow> m' s = m s)"

named_theorems refines \<open>operations that more fuel does not change\<close>

lemma refinesD: "refines d m m' \<Longrightarrow> m s = (r, t) \<Longrightarrow> r \<noteq> Inl d \<Longrightarrow> m' s = (r, t)"
  unfolding refines_def by force

lemma refines_refl [refines]: "refines d m m"
  by (simp add: refines_def)

lemma refines_andthen [refines]:
  assumes "refines d m m'" "\<And>x. refines d (f x) (f' x)"
  shows "refines d (andthen m f) (andthen m' f')"
  unfolding refines_def
proof (intro allI impI)
  fix s assume ne: "fst (andthen m f s) \<noteq> Inl d"
  obtain r t where 1: "m s = (r, t)" by force
  then have "r \<noteq> Inl d" using ne by (auto simp: andthen_def)
  from refinesD [OF assms(1) 1 this] have 2: "m' s = (r, t)" .
  show "andthen m' f' s = andthen m f s"
  proof (cases r)
    case (Inr x)
    with ne 1 have "fst (f x t) \<noteq> Inl d" by (simp add: andthen_def)
    with assms(2) have "f' x t = f x t" by (simp add: refines_def)
    with 1 2 Inr show ?thesis by (simp add: andthen_def)
  qed (use 1 2 in \<open>simp add: andthen_def\<close>)
qed

lemma refines_cases [refines]:
  "\<lbrakk>refines d m m'; refines d k k'\<rbrakk> \<Longrightarrow> refines d (if b then m else k) (if b then m' else k')"
  "\<lbrakk>refines d m m'; \<And>x. refines d (g x) (g' x)\<rbrakk> \<Longrightarrow>
     refines d (case r of None \<Rightarrow> m | Some x \<Rightarrow> g x) (case r of None \<Rightarrow> m' | Some x \<Rightarrow> g' x)"
  "(\<And>x y. refines d (h x y) (h' x y)) \<Longrightarrow>
     refines d (case p of (x, y) \<Rightarrow> h x y) (case p of (x, y) \<Rightarrow> h' x y)"
  by (simp_all split: option.split prod.split)

lemma refines_array [refines]:
  "(\<And>a. refines d (f a) (f' a)) \<Longrightarrow>
     refines d (case v of OArray a \<Rightarrow> f a | _ \<Rightarrow> k v) (case v of OArray a \<Rightarrow> f' a | _ \<Rightarrow> k v)"
  by (cases v) (simp_all add: refines_refl)

lemma refines_on_mem [refines]:
  "refines Diverges m m' \<Longrightarrow> refines (Raise Diverges) (on_mem m) (on_mem m')"
  unfolding refines_def on_mem_def
  by (metis (mono_tags, lifting) fst_conv old.prod.case old.sum.simps(5) surj_pair)

lemma refines_as_value [refines]:
  assumes "refines Diverges m m'"
  shows "refines Diverges (as_value m) (as_value m')"
  unfolding refines_def
proof (intro allI impI)
  fix s assume ne: "fst (as_value m s) \<noteq> Inl Diverges"
  obtain r t where 1: "m s = (r, t)" by force
  with ne have "r \<noteq> Inl Diverges" by (auto simp: as_value_def)
  from refinesD [OF assms 1 this] 1 show "as_value m' s = as_value m s" by (simp add: as_value_def)
qed

definition caller_le :: "'x caller \<Rightarrow> 'x caller \<Rightarrow> bool" where
  "caller_le call call' \<longleftrightarrow>
     (\<forall>a args env this pos. refines Diverges (call a args env this pos) (call' a args env this pos))"

lemma refines_call [refines]:
  "caller_le call call' \<Longrightarrow> refines Diverges (call a args env this pos) (call' a args env this pos)"
  by (simp add: caller_le_def)

section \<open>Every operation that calls\<close>

lemma refines_values [refines]:
  assumes "caller_le call call'"
  shows "refines Diverges (apply_function w call f env args this pos) (apply_function w call' f env args this pos)"
    and "refines Diverges (call_value w call env f args this pos) (call_value w call' env f args this pos)"
    and "refines Diverges (construct_value w call env f args pos) (construct_value w call' env f args pos)"
    and "refines Diverges (get_iterator w call v env pos) (get_iterator w call' v env pos)"
    and "refines Diverges (iterator_next w call v env pos) (iterator_next w call' v env pos)"
proof -
  show app: "refines Diverges (apply_function w call f env args this pos) (apply_function w call' f env args this pos)"
    for f args this
    by (cases f) (simp_all add: apply_function_def refines_refl refines_as_value refines_call [OF assms])
  show "refines Diverges (call_value w call env f args this pos) (call_value w call' env f args this pos)"
    "refines Diverges (construct_value w call env f args pos) (construct_value w call' env f args pos)"
    by (cases f; simp add: call_value_def construct_value_def refines_refl refines_call [OF assms]
        refines_andthen app)+
  show "refines Diverges (get_iterator w call v env pos) (get_iterator w call' v env pos)"
    "refines Diverges (iterator_next w call v env pos) (iterator_next w call' v env pos)"
    unfolding get_iterator_def iterator_next_def by (intro refines app)+
qed

lemma refines_instructions [refines]:
  assumes "caller_le call call'"
  shows "refines (Raise Diverges) (call_from_operand w call c) (call_from_operand w call' c)"
    and "refines (Raise Diverges) (construct_from_operand w call c) (construct_from_operand w call' c)"
    and "refines (Raise Diverges) (call_spread_stack w call pos) (call_spread_stack w call' pos)"
    and "refines (Raise Diverges) (iter_values_stack w call pos) (iter_values_stack w call' pos)"
    and "refines (Raise Diverges) (iter_next_stack w call pos) (iter_next_stack w call' pos)"
  unfolding call_from_operand_def call_stack_def construct_from_operand_def construct_stack_def
    call_spread_stack_def iter_values_stack_def iter_next_stack_def Let_def
  by (intro refines assms)+

lemma refines_exec:
  assumes "caller_le call call'"
  shows "refines (Raise Diverges) (exec_op w call c op) (exec_op w call' c op)"
proof -
  have "refines (Raise Diverges) (exec_special w call c op) (exec_special w call' c op)"
    by (cases op) (simp_all add: refines_refl cont_def at_instruction_def refines_andthen
        refines_instructions [OF assms])
  then show ?thesis by (simp add: exec_op_def refines_refl split: option.split)
qed

lemma refines_step:
  assumes "caller_le call call'"
  shows "refines (Raise Diverges) (step w call c) (step w call' c)"
  using refines_exec [OF assms, of w c]
  by (auto simp: refines_def step_def Let_def split: option.splits)

section \<open>Frames with more fuel\<close>

lemma run_mono:
  assumes "caller_le call call'"
  shows "run w call c n s = (r, t) \<Longrightarrow> r \<noteq> Hung \<Longrightarrow> n \<le> m \<Longrightarrow> run w call' c m s = (r, t)"
proof (induction n arbitrary: s m)
  case (Suc n)
  then obtain m' where m: "m = Suc m'" "n \<le> m'" by (cases m) auto
  show ?case
  proof (cases "v_ip s < length (code c)")
    case True
    obtain b s1 where b: "check_execution_budget w c s = (b, s1)" by force
    show ?thesis
    proof (cases b)
      case None
      obtain r2 s2 where st: "step w call c s1 = (r2, s2)" by force
      have "r2 \<noteq> Inl (Raise Diverges)" using Suc.prems(1,2) True b None st by auto
      from refinesD [OF refines_step [OF assms] st this]
      have st': "step w call' c s1 = (r2, s2)" .
      note IH = Suc.IH [OF _ Suc.prems(2) m(2)]
      show ?thesis
      proof (cases r2)
        case (Inl err)
        with Suc.prems(1,2) True b None st st' m(1) IH show ?thesis
          by (cases err; cases "case err of Raise x \<Rightarrow> x") (auto split: option.splits)
      next
        case (Inr fl)
        with Suc.prems(1) True b None st st' m(1) IH show ?thesis by (cases fl) auto
      qed
    qed (use Suc.prems(1) True b m(1) in auto)
  qed (use Suc.prems(1) m(1) in auto)
qed auto

definition interp_le :: "'x interpreter \<Rightarrow> 'x interpreter \<Rightarrow> bool" where
  "interp_le interp interp' \<longleftrightarrow>
     (\<forall>c env upvals st r t. interp c env upvals st = (r, t) \<longrightarrow> r \<noteq> Hung \<longrightarrow> interp' c env upvals st = (r, t))"

lemma refines_run_chunk [refines]:
  assumes "interp_le interp interp'"
  shows "refines Diverges (run_chunk interp c env upvals) (run_chunk interp' c env upvals)"
  unfolding refines_def
proof (intro allI impI)
  fix st assume ne: "fst (run_chunk interp c env upvals st) \<noteq> Inl Diverges"
  obtain r t where 1: "interp c env upvals st = (r, t)" by force
  with ne have "r \<noteq> Hung" by (auto simp: run_chunk_def)
  with assms 1 have "interp' c env upvals st = (r, t)" unfolding interp_le_def by blast
  with 1 show "run_chunk interp' c env upvals st = run_chunk interp c env upvals st"
    by (simp add: run_chunk_def)
qed

lemma refines_attempt [refines]: "refines Diverges (attempt m) (attempt m)"
  by (rule refines_refl)

lemma refines_sum [refines]:
  "(\<And>x. refines d (g x) (g' x)) \<Longrightarrow>
     refines d (case r of Inl e \<Rightarrow> f e | Inr x \<Rightarrow> g x) (case r of Inl e \<Rightarrow> f e | Inr x \<Rightarrow> g' x)"
  by (simp add: refines_refl split: sum.split)

lemma call_closure_le:
  assumes "interp_le interp interp'"
  shows "caller_le (call_closure_impl w interp) (call_closure_impl w interp')"
  unfolding caller_le_def call_closure_impl_def Let_def
  by (intro allI refines assms)

lemma interpret_le: "n \<le> m \<Longrightarrow> interp_le (interpret_with_upvalues w n) (interpret_with_upvalues w m)"
proof (induction n arbitrary: m)
  case 0
  show ?case by (simp add: interp_le_def)
next
  case (Suc n)
  then obtain m' where m: "m = Suc m'" "n \<le> m'" by (cases m) auto
  show ?case
    unfolding interp_le_def
  proof (intro allI impI)
    fix c env upvals st r t
    let ?st = "if globals st ''println'' = None then w_register_globals w st else st"
    let ?call = "\<lambda>k. call_closure_impl w (interpret_with_upvalues w k)"
    assume run: "interpret_with_upvalues w (Suc n) c env upvals st = (r, t)" and r: "r \<noteq> Hung"
    obtain s where s: "run w (?call n) c (Suc n) (vm_new env upvals ?st) = (r, s)" "t = v_mem s"
      using run by (auto simp: Let_def simp del: run.simps split: prod.splits)
    from m(2) have "Suc n \<le> Suc m'" by simp
    from run_mono [OF call_closure_le [OF Suc.IH [OF m(2)]] s(1) r this]
    show "interpret_with_upvalues w m c env upvals st = (r, t)"
      by (simp add: m(1) Let_def s(2) del: run.simps)
  qed
qed

end
