(* ===== verification/Examples.thy ===== *)
theory Examples
  imports Vm_Steps
begin

unbundle bit_operations_syntax

text \<open>
  Concrete inputs the properties are tried on: small programs with what they compile to, and a
  world and a store in which bytecode can be run.
\<close>

section \<open>Programs\<close>

definition here_pos :: "nat \<Rightarrow> position" where
  "here_pos n = \<lparr>pos_file = ''m.gs'', pos_line = n, pos_col = 1, pos_offset = n\<rparr>"

text \<open>A parser that reads every template segment as the name \<^verbatim>\<open>x\<close>.\<close>

definition name_parser :: host where
  "name_parser =
     \<lparr>h_parse = (\<lambda>_ _. (\<lparr>prog_pos = default_pos,
          prog_body = [SLet default_pos ''__gts_tpl'' None None (Some (EIdent default_pos ''x''))],
          prog_errors = []\<rparr>, [])),
      h_regex_ok = (\<lambda>_. True), h_fmt = (\<lambda>_. [])\<rparr>"

text \<open>\<^verbatim>\<open>while (x) { break; }\<close>, and what it compiles to.\<close>

definition demo_loop :: program where
  "demo_loop = \<lparr>prog_pos = here_pos 1, prog_body =
     [SWhile (here_pos 1) (EIdent (here_pos 1) ''x'') (Block (here_pos 1) [SBreak (here_pos 2) []])],
     prog_errors = []\<rparr>"

definition demo_loop_chunk :: chunk where
  "demo_loop_chunk = Chunk
     [46, 0, 0, 51, 0, 0, 0, 18, 50, 0, 0, 0, 18, 53, 0, 0, 0, 0, 62]
     [OString ''x''] ((\<lambda>_. None)(KString ''x'' \<mapsto> 0)) [] [] []
     [\<lparr>line_ip = 0, line_pos = here_pos 1\<rparr>, \<lparr>line_ip = 3, line_pos = here_pos 1\<rparr>,
      \<lparr>line_ip = 8, line_pos = here_pos 2\<rparr>, \<lparr>line_ip = 13, line_pos = here_pos 1\<rparr>,
      \<lparr>line_ip = 18, line_pos = here_pos 1\<rparr>] []"

text \<open>\<^verbatim>\<open>`a${x}`\<close> as a program.\<close>

definition demo_template :: program where
  "demo_template = \<lparr>prog_pos = here_pos 1, prog_body =
     [SExpr (here_pos 1) (ETemplate (here_pos 1) (CHR 0x60 # ''a'' @ [CHR 0x24, CHR 0x7B] @ ''x'' @ [CHR 0x7D, CHR 0x60]))],
     prog_errors = []\<rparr>"

lemma compile_numeral [simp]:
  "compile_expr h res (numeral k) e c =
     compile_expr_step h res (compile_expr h res (pred_numeral k)) (compile_stmt h res (pred_numeral k)) e c"
  "compile_stmt h res (numeral k) st keep_value s =
     compile_stmt_step res (compile_expr h res (pred_numeral k)) (compile_stmt h res (pred_numeral k))
       st keep_value s"
  by (simp_all add: numeral_eq_Suc)

lemmas emit_eval = emit_string_operand_def add_constant_def push_constant_def emit_const_def
  emit_value_constant_def write_op_def write_u16_def write_u32_def here_def push_bytes_def
  push_line_def patch_jump_to_def patch_jump_here_def emit_jump_placeholder_def emit_def
  on_chunk_def emit_jump_def compile_stmts_def patch_all_def be16_def be32_def empty_chunk_def
  fresh_state_def emit_load_name_def

lemmas loop_eval = compile_expr_step_def compile_while_def push_loop_def pop_loop_def
  compile_break_continue_def emit_abrupt_action_def find_last_def

lemma demo_loop_compiles: "compile name_parser 5 demo_loop = Inr demo_loop_chunk"
proof -
  obtain res where "resolve_program demo_loop = Inr res" using resolve_program_ok by blast
  then show ?thesis
    by (simp add: compile_def) (simp add: demo_loop_def demo_loop_chunk_def loop_eval emit_eval Let_def)
qed

lemma demo_loop_small: "small demo_loop_chunk"
  by (simp add: small_def demo_loop_chunk_def all_chunks.simps small1_def)

lemmas decode_eval =
  from_byte_op_byte [of OpLoadName, simplified] from_byte_op_byte [of OpJumpIfFalse, simplified]
  from_byte_op_byte [of OpJump, simplified] from_byte_op_byte [of OpLoop, simplified]
  from_byte_op_byte [of OpReturn, simplified] from_byte_op_byte [of OpConst, simplified]

lemma demo_loop_instrs:
  "instrs demo_loop_chunk = Some
     [(0, OpLoadName, [0, 0]), (3, OpJumpIfFalse, [0, 0, 0, 18]), (8, OpJump, [0, 0, 0, 18]),
      (13, OpLoop, [0, 0, 0, 0]), (18, OpReturn, [])]"
  by (simp add: instrs_def demo_loop_chunk_def layout.simps(2) decode_eval operand_width_def ops_u16_def
      ops_jump_def ops_u8_def Let_def)

section \<open>A world and a store\<close>

text \<open>A world whose host operations return \<^verbatim>\<open>undefined\<close>, with an instruction limit.\<close>

definition finished :: "'a \<Rightarrow> 'x store \<Rightarrow> 'a host_result \<times> 'x store" where
  "finished x st = (Done x, st)"

definition still_world :: "u64 \<Rightarrow> unit world" where
  "still_world limit =
     \<lparr>w_fmt = (\<lambda>_. []), w_pow = (\<lambda>a _. a), w_depth = 100, w_instruction_limit = limit,
      w_deadline_exceeded = (\<lambda>x. (False, x)), w_compiler = name_parser, w_compile_depth = 50,
      w_builtin = (\<lambda>_ _ _ _ _. finished OUndefined), w_eval_expr = (\<lambda>_ _. finished OUndefined),
      w_eval_block = (\<lambda>_ _. finished OUndefined), w_run_async = (\<lambda>_ _ _ _ _. finished OUndefined),
      w_get_property = (\<lambda>_ _ _. finished OUndefined), w_get_index = (\<lambda>_ _ _. finished OUndefined),
      w_get_super_constructor = (\<lambda>_ _. finished OUndefined), w_get_super_method = (\<lambda>_ _ _. finished OUndefined),
      w_construct_class = (\<lambda>_ _ _ _. finished OUndefined), w_construct_builtin = (\<lambda>_ _ _ _. finished OUndefined),
      w_importer = None, w_wait_async = finished (), w_register_globals = id\<rparr>"

definition empty_store :: "unit store" where
  "empty_store =
     \<lparr>arrays = (\<lambda>_. []), hashes = (\<lambda>_. empty_hash),
      function_cells = (\<lambda>_. \<lparr>f_name = [], f_params = [], f_body = Block default_pos [], f_env = [0],
        f_is_async = False, f_return_t = None, f_pos = default_pos, f_lexical_this = False\<rparr>),
      builtins = (\<lambda>_. \<lparr>bi_name = [], bi_func = 0, bi_extra = None\<rparr>),
      class_cells = (\<lambda>_. blank_class [] default_pos),
      instances = (\<lambda>_. \<lparr>i_class = 0, i_props = Map.empty, i_pos = default_pos\<rparr>),
      promises = (\<lambda>_. \<lparr>p_state = Pending, p_value = None, p_continuations = []\<rparr>),
      maps = (\<lambda>_. []), set_cells = (\<lambda>_. []),
      closures = (\<lambda>_. \<lparr>cl_proto = proto_with_upvalues [] [] (Block default_pos []) False False None default_pos [],
        cl_upvalues = [], cl_upvalue_names = [], cl_home_env = [0]\<rparr>),
      scopes = (\<lambda>_. root_scope), upvalues = (\<lambda>_. Closed OUndefined), next_addr = 1,
      globals = Map.empty, type_check = False, allowed_modules = None, host_state = ()\<rparr>"

text \<open>Running the test of the loop: the name \<^verbatim>\<open>x\<close> is not defined.\<close>

lemma still_world_unlimited: "unlimited (still_world 0)"
  by (simp add: unlimited_def still_world_def)

lemma demo_loop_runs:
  "interpret_chunk (still_world 0) (Suc n) demo_loop_chunk [0] empty_store =
     (Uncaught (not_defined (here_pos 1) ''x''), empty_store)"
proof -
  let ?w = "still_world 0" and ?c = demo_loop_chunk and ?s = "vm_new [0] [] empty_store"
  let ?call = "call_closure_impl ?w (interpret_with_upvalues ?w n)"
  have at: "fetches ?c (v_ip ?s) OpLoadName [0, 0]"
    by (rule instr_at_fetches) (simp add: instr_at_def demo_loop_instrs vm_new_def)
  have ok: "local_ok ?c"
    using compile_sound [OF demo_loop_compiles demo_loop_small] by (rule sound_local)
  have "position_at ?c 0 = line_pos (lines ?c ! 0)"
    by (rule position_in_instruction [OF ok _ demo_loop_instrs]) (simp_all add: demo_loop_chunk_def)
  then have pos: "position_at ?c 0 = here_pos 1" by (simp add: demo_loop_chunk_def)
  let ?s1 = "?s\<lparr>v_count := 1\<rparr>" and ?u = "?s\<lparr>v_count := 1, v_last_ip := 0, v_ip := 1\<rparr>"
  have ip: "v_ip ?s = 0" "v_count ?s = 0" by (simp_all add: vm_new_def)
  have at1: "fetches ?c (v_ip ?s1) OpLoadName [0, 0]" "fetches ?c 0 OpLoadName [0, 0]"
    using at ip by simp_all
  have idx: "unat (word16_of [0, 0]) < length (constants ?c)"
    "constants ?c ! unat (word16_of [0, 0]) = OString ''x''"
    by (simp_all add: demo_loop_chunk_def word16_of_def word16_def)
  have undefined: "env_get (v_mem (?u\<lparr>v_ip := 3\<rparr>)) (v_env (?u\<lparr>v_ip := 3\<rparr>)) ''x'' = None"
    by (simp add: vm_new_def empty_store_def root_scope_def)
  have "step ?w ?call ?c ?s1 = exec_op ?w ?call ?c OpLoadName ?u"
    unfolding step_fetch [OF at1(1)] by (simp add: ip)
  also have "\<dots> = cont (load_name ''x'' (here_pos 1)) (?u\<lparr>v_ip := 3\<rparr>)"
    using exec_load_name [OF at1(2) idx, of ?u ?w ?call] by (simp add: pos)
  also have "\<dots> = (Inl (Raise (Thrown (not_defined (here_pos 1) ''x''))), ?u\<lparr>v_ip := 3\<rparr>)"
    using undefined by (simp add: cont_eq load_name_def andthen_def gets_def raise_def err_def)
  finally have st: "step ?w ?call ?c ?s1 = \<dots>" .
  have len: "0 < length (code ?c)" "protected_regions ?c = []" by (simp_all add: demo_loop_chunk_def)
  have "run ?w ?call ?c (Suc n) ?s = (Uncaught (not_defined (here_pos 1) ''x''), ?u\<lparr>v_ip := 3\<rparr>)"
    using len by (simp add: unlimited_budget [OF still_world_unlimited] ip st unwind_stack_to_handler_def)
  moreover have "w_register_globals ?w empty_store = empty_store" by (simp add: still_world_def)
  ultimately show ?thesis
    by (simp add: interpret_chunk_def Let_def vm_new_def del: run.simps)
qed

text \<open>\<^verbatim>\<open>LOOP 0\<close>.\<close>

definition spin_chunk :: chunk where
  "spin_chunk = Chunk [53, 0, 0, 0, 0] [] (\<lambda>_. None) [] [] [] [\<lparr>line_ip = 0, line_pos = here_pos 1\<rparr>] []"

end
