(* ===== verification/Vm_Properties.thy ===== *)
theory Vm_Properties
  imports Vm_Runs Vm_Fuel Examples
begin

unbundle bit_operations_syntax

text \<open>
  The properties of running bytecode and of the values it works on, each with an instance:
  safety of compiled code, the instruction limit, exception handlers, closures and scopes,
  tables, operators.
\<close>

section \<open>Running compiled programs\<close>

text \<open>
  C3. No frame of a compiled program, be it the program's own or one that runs the code of any of
  its functions, in any world, environment and store and with any captured variables, complains
  about its bytecode (unknown opcode, missing operand, bad table index, opcode not implemented). The
  program's own frame does not run off the end of its code either: it returns, ends with an
  uncaught error, is stopped by the budget, panics or does not return. The frame of a function
  runs off only if the function's code leads out of itself, with a jump or a handler at its end
  or a last instruction other than \<^verbatim>\<open>RETURN\<close>; \<open>conditional_return_falls_off\<close> is such a function,
  and the complaint of its frame reaches the caller as an error value.
\<close>

theorem compiled_program_stays_in_code:
  assumes "compile h n prog = Inr c" "small c" "part_of d c"
    and "interpret_with_upvalues w k d env upvals st = (r, st')"
  shows "r \<noteq> Malformed e \<and> (r = Ran_off e \<longrightarrow> d \<noteq> c \<and> leads_out d)"
proof -
  have "all_chunks local_ok d"
    using part_all_chunks [OF assms(3)] sound_verify [OF compile_sound [OF assms(1,2)]] by (simp add: verify_def)
  then have "local_ok d" by (simp add: all_chunks_iff)
  note stays = frame_stays [OF this assms(4), of e]
  have "r \<noteq> Ran_off e" if "d = c"
    using assms(4) that interpret_exit [of w k c env upvals st r st'] run_compiled(2) [OF assms(1,2)] by (metis exit.distinct)
  with stays show ?thesis by blast
qed

theorem compiled_program_stays_in_code_witness:
  "Uncaught (not_defined (here_pos 1) ''x'') \<noteq> Ran_off OUndefined"
  using compiled_program_stays_in_code [OF demo_loop_compiles demo_loop_small part_self
      demo_loop_runs [of 5, unfolded interpret_chunk_def]] by blast

text \<open>
  C4. No frame that runs a verified chunk, be it a program or a function body, whatever the
  captured variables and the caller's state, reports malformed bytecode.
\<close>

theorem verified_code_is_never_malformed:
  assumes "verify c" "interpret_with_upvalues w k c env upvals st = (r, st')"
  shows "r \<noteq> Malformed e"
proof (cases "r = Hung")
  case False
  have ok: "local_ok c" using assms(1) by (rule verify_local)
  from assms(2) False obtain j st1 t where
    exit: "run w (call_closure_impl w (interpret_with_upvalues w j)) c k (vm_new env upvals st1) = (r, t)"
    by (rule interpret_exit)
  have "v_ip (vm_new env upvals st1) \<in> bnds c"
    using zero_boundary [OF ok] by (simp add: vm_new_def)
  from run_closed [OF ok verified_closed [OF ok] this exit] show ?thesis by blast
qed simp

theorem verified_code_is_never_malformed_witness:
  "Uncaught (not_defined (here_pos 1) ''x'') \<noteq> Malformed OUndefined"
  by (rule verified_code_is_never_malformed [OF sound_verify [OF compile_sound [OF demo_loop_compiles demo_loop_small]]
        demo_loop_runs [of 5, unfolded interpret_chunk_def]])

section \<open>The instruction limit\<close>

text \<open>
  C7. With an instruction limit (below \<open>2 ^ 64 - 4096\<close>) the loop of a frame ends by the first
  multiple of 4096 above the limit, whatever the bytecode, calls included, provided that every
  instruction the loop comes to execute returns. Only the states that this run reaches count:
  the same code may hold a call that would not return elsewhere.
\<close>

theorem instruction_limit_ends_frame:
  assumes "0 < w_instruction_limit w" "budget (w_instruction_limit w) < 2 ^ 64"
    and "\<And>t. executes w call c (vm_new env upvals st) t \<Longrightarrow> fst (step w call c t) \<noteq> Inl (Raise Diverges)"
    and "budget (w_instruction_limit w) \<le> n"
  shows "fst (run w call c n (vm_new env upvals st)) \<noteq> Hung"
  by (rule run_in_budget [where k = 0]) (use assms in \<open>simp_all add: vm_new_def budget_def\<close>)

text \<open>\<^verbatim>\<open>CONST 0; CALL 0; POP; LOOP 0\<close>, where the constant is a builtin function.\<close>

definition calling_chunk :: chunk where
  "calling_chunk = Chunk
     (op_byte OpConst # [0, 0] @ op_byte OpCall # [0, 0] @ op_byte OpPop # op_byte OpLoop # [0, 0, 0, 0])
     [OBuiltin 0] (\<lambda>_. None) [] [] [] [\<lparr>line_ip = 0, line_pos = here_pos 1\<rparr>] []"

abbreviation stuck_caller :: "unit caller" where
  "stuck_caller \<equiv> (\<lambda>_ _ _ _ _. err Diverges)"

definition calling_inv :: "unit vm \<Rightarrow> bool" where
  "calling_inv s \<longleftrightarrow> (v_ip s = 0 \<and> v_stack s = []) \<or> (v_ip s = 3 \<and> v_stack s = [OBuiltin 0])
     \<or> (v_ip s = 6 \<and> v_stack s = [OUndefined]) \<or> (v_ip s = 7 \<and> v_stack s = [])"

lemma calling_code: "code calling_chunk = op_byte OpConst # [0, 0] @ op_byte OpCall # [0, 0] @ op_byte OpPop # op_byte OpLoop # [0, 0, 0, 0]"
  "constants calling_chunk = [OBuiltin 0]"
  by (simp_all add: calling_chunk_def)

lemma calling_step:
  assumes "calling_inv s" "step (still_world l) stuck_caller calling_chunk s = (r, t)"
  shows "r = Inr Continue \<and> calling_inv t"
proof -
  have zero: "word16 0 0 = 0" "word32 0 0 0 0 = 0" by (simp_all add: word16_def word32_def)
  note sim = zero step_def Let_def calling_code from_byte_op_byte exec_op_def binary_op_text_def unary_op_text_def
      cont_eq andthen_def read_u16_operand_def missing_operand_def push_def modify_def err_def ret_def gets_def
  from assms(1) consider "v_ip s = 0" "v_stack s = []" | "v_ip s = 3" "v_stack s = [OBuiltin 0]"
    | "v_ip s = 6" "v_stack s = [OUndefined]" | "v_ip s = 7" "v_stack s = []"
    by (auto simp: calling_inv_def)
  then show ?thesis
  proof cases
    case 1
    with assms(2) show ?thesis
      by (auto simp: sim push_const_from_operand_def read_const_operand_def calling_inv_def simp del: op_byte.simps)
  next
    case 2
    with assms(2) show ?thesis
      by (auto simp: sim call_from_operand_def call_stack_def read_u16_operand_with_pos_def call_value_def
          call_builtin_def run_builtin_def or_else_def on_mem_def host_op_def still_world_def finished_def pop_def split_off_def update_def
          checked_def calling_inv_def simp del: op_byte.simps)
  next
    case 3
    with assms(2) show ?thesis
      by (auto simp: sim pop_value_def calling_inv_def simp del: op_byte.simps)
  next
    case 4
    with assms(2) show ?thesis
      by (auto simp: sim jump_to_operand_def read_u32_operand_def calling_inv_def simp del: op_byte.simps)
  qed
qed

lemma calling_executes:
  "executes (still_world l) stuck_caller calling_chunk s t \<Longrightarrow> calling_inv s \<Longrightarrow> calling_inv t"
proof (induction rule: executes.induct)
  case (executes_now s s1)
  then show ?case using budget_frame [OF executes_now(2)] by (simp add: calling_inv_def)
next
  case (executes_next s s1 s2 t)
  then have "calling_inv s1" using budget_frame [OF executes_next(2)] by (simp add: calling_inv_def)
  with executes_next calling_step show ?case by blast
next
  case (executes_handler s s1 x s2 e ip stk t)
  then have "calling_inv s1" using budget_frame [OF executes_handler(2)] by (simp add: calling_inv_def)
  with executes_handler calling_step show ?case by blast
qed

theorem instruction_limit_ends_frame_witness:
  "fst (run (still_world 5) stuck_caller calling_chunk 4096 (vm_new [0] [] empty_store)) \<noteq> Hung"
proof -
  have w: "w_instruction_limit (still_world 5) = 5" "budget 5 = 4096"
    by (simp_all add: still_world_def budget_def)
  have "fst (step (still_world 5) stuck_caller calling_chunk t) \<noteq> Inl (Raise Diverges)"
    if "executes (still_world 5) stuck_caller calling_chunk (vm_new [0] [] empty_store) t" for t
  proof -
    have "calling_inv t"
      by (rule calling_executes [OF that]) (simp add: calling_inv_def vm_new_def)
    then show ?thesis
      using calling_step [of t] by (cases "step (still_world 5) stuck_caller calling_chunk t") auto
  qed
  then show ?thesis
    by (intro instruction_limit_ends_frame) (simp_all only: w, simp_all)
qed

text \<open>
  C11. The limit is consulted only at every 4096th instruction of a frame, and every call runs in
  a frame with a count of its own: a frame of fewer than 4096 instructions is never stopped, so
  recursion through short functions escapes any instruction limit (and any deadline).
\<close>

theorem short_frames_escape_limit:
  assumes "n < 4096"
  shows "fst (run w call c n (vm_new env upvals st)) \<noteq> Stopped e"
  by (rule run_unsampled [where k = 0]) (use assms in \<open>simp_all add: vm_new_def\<close>)

theorem short_frames_escape_limit_witness:
  "fst (run (still_world 1) (\<lambda>_ _ _ _ _. err Panic) spin_chunk 4000 (vm_new [0] [] empty_store))
     \<noteq> Stopped OUndefined"
  by (rule short_frames_escape_limit) simp

section \<open>Exceptions\<close>

text \<open>
  C8. An error is handled by the last of the regions that protect the instruction among those with
  the greatest start: control goes to that region's handler with the caught value on top of the
  stack as it was, and the error leaves the frame exactly if no region protects the instruction.
\<close>

theorem latest_region_handles:
  "case unwind_stack_to_handler c last_ip stack e of
     None \<Rightarrow> \<forall>r\<in>set (protected_regions c). \<not> protects (of_nat last_ip) r
   | Some (ip, stack') \<Rightarrow> stack' = stack @ [catch_value e] \<and>
       (\<exists>pre r post. protected_regions c = pre @ r # post \<and> protects (of_nat last_ip) r \<and> ip = unat (handler_ip r) \<and>
          (\<forall>q\<in>set pre. protects (of_nat last_ip) q \<longrightarrow> try_start q \<le> try_start r) \<and>
          (\<forall>q\<in>set post. protects (of_nat last_ip) q \<longrightarrow> try_start q < try_start r))"
  using max_by_key_last [of try_start "protects (of_nat last_ip)" "protected_regions c"]
  by (fastforce simp: unwind_stack_to_handler_def max_by_key_None filter_empty_conv split: option.splits)

text \<open>The regions of two \<^verbatim>\<open>try\<close> statements, the inner one first in the body of the outer one.\<close>

definition nested_regions :: chunk where
  "nested_regions = Chunk [] [] (\<lambda>_. None) [] [] [] []
     [\<lparr>try_start = 0, try_end = 4, handler_ip = 9, finally_ip = None, catch_binding_slot = None\<rparr>,
      \<lparr>try_start = 0, try_end = 12, handler_ip = 17, finally_ip = None, catch_binding_slot = None\<rparr>]"

theorem latest_region_handles_witness:
  "unwind_stack_to_handler nested_regions 3 [] ONull = Some (17, [ONull])"
proof -
  have on: "protects 3 q" if "q \<in> set (protected_regions nested_regions)" for q
    using that by (auto simp: nested_regions_def protects_def)
  have "\<exists>p. unwind_stack_to_handler nested_regions 3 [] ONull = Some p"
    by (simp add: unwind_stack_to_handler_def nested_regions_def protects_def)
  then obtain ip stack' where u: "unwind_stack_to_handler nested_regions 3 [] ONull = Some (ip, stack')" by auto
  with latest_region_handles [of nested_regions 3 "[]" ONull] obtain pre r post where
    r: "stack' = [ONull]" "protected_regions nested_regions = pre @ r # post" "ip = unat (handler_ip r)"
    "\<forall>q\<in>set post. protects 3 q \<longrightarrow> try_start q < try_start r" by auto
  have "pre @ r # post = protected_regions nested_regions" using r(2) by simp
  then consider "pre = []" "post \<noteq> []" "try_start r = 0" | "length pre = 1" "post = []"
    by (cases pre; cases "tl pre") (auto simp: nested_regions_def)
  then have "ip = 17"
  proof cases
    case 1
    with r(2) have "hd post = protected_regions nested_regions ! 1" by (cases post) (auto simp: nested_regions_def)
    with 1 r(4) on [of "hd post"] hd_in_set [of post] show ?thesis by (force simp: nested_regions_def)
  next
    case 2
    with r(2,3) show ?thesis by (cases pre) (auto simp: nested_regions_def)
  qed
  with r(1) u show ?thesis by simp
qed

end
