(* ===== verification/Value_Properties.thy ===== *)
theory Value_Properties
  imports Upvalues Operators Examples
begin

unbundle bit_operations_syntax

text \<open>
  The properties of the values a script works on, each with an instance: objects, \<^verbatim>\<open>Map\<close>s and
  \<^verbatim>\<open>Set\<close>s as finite maps in insertion order, constants, captured variables, the text of values,
  and the operators on numbers.
\<close>

section \<open>Objects, maps and sets\<close>

text \<open>
  C13. An object under any sequence of \<^verbatim>\<open>HashData::set\<close> and \<^verbatim>\<open>HashData::remove\<close> behaves as a finite
  map from strings to values, and never holds a key twice.
\<close>

theorem object_refines_finite_map:
  assumes "distinct (hash_keys h)"
  shows "(\<lambda>k. hash_get k (fold (apply_op (\<lambda>(k, v). hash_set k v) (\<lambda>k h. snd (hash_remove k h))) ops h)) =
      fold (spec_op fst snd (\<lambda>k. k)) ops (\<lambda>k. hash_get k h)
    \<and> distinct (hash_keys (fold (apply_op (\<lambda>(k, v). hash_set k v) (\<lambda>k h. snd (hash_remove k h))) ops h))"
  using htab.refines_map [OF assms] htab.distinct_run [OF assms] by simp

theorem object_refines_finite_map_witness:
  "hash_get ''a'' (snd (hash_remove ''b'' (hash_set ''a'' ONull (hash_set ''b'' OUndefined empty_hash)))) = Some ONull"
  using object_refines_finite_map [of empty_hash "[Put (''b'', OUndefined), Put (''a'', ONull), Del ''b'']"]
  by (simp add: fun_eq_iff empty_hash_def)

text \<open>
  C29. A \<^verbatim>\<open>Map\<close> under any sequence of \<^verbatim>\<open>set\<close> and \<^verbatim>\<open>delete\<close> behaves as a finite map whose keys are
  the texts that \<^verbatim>\<open>inspect\<close> gives: two keys that print alike are one key.
\<close>

theorem map_refines_finite_map:
  "map_get insp key
     (fold (apply_op (\<lambda>(k, v). map_set insp k v) (\<lambda>k m. snd (map_delete insp k m))) ops (map_clear m)) =
   fold (spec_op (\<lambda>(k, v). insp k) snd insp) ops Map.empty (insp key)"
  using fun_cong [OF mtab.refines_map [of "map_clear m" insp ops], of "insp key"]
  by (simp add: map_get_map_of map_clear_def)

text \<open>
  C30. A \<^verbatim>\<open>Set\<close> to which values are added holds, in the order in which the keys first occurred, one
  entry for each key: the first of the added values that print as the key.
\<close>

theorem set_lists_first_added:
  "fold (set_add insp) vs (set_clear s) = map (\<lambda>k. (k, the (find (\<lambda>v. insp v = k) vs))) (first_occ (map insp vs))"
proof (induction vs rule: rev_induct)
  case Nil
  show ?case by (simp add: set_clear_def)
next
  case (snoc v vs)
  have old: "find (\<lambda>w. insp w = k) (vs @ [v]) = find (\<lambda>w. insp w = k) vs" if "k \<in> insp ` set vs" for k
    using find_image [OF that] by (auto simp: find_snoc)
  have new: "find (\<lambda>w. insp w = insp v) (vs @ [v]) = Some v" if "insp v \<notin> insp ` set vs"
  proof -
    have "find (\<lambda>w. insp w = insp v) vs = None" using that by (fastforce simp: find_None_iff image_iff)
    then show ?thesis by (simp add: find_snoc)
  qed
  let ?t = "map (\<lambda>k. (k, the (find (\<lambda>v. insp v = k) vs))) (first_occ (map insp vs))"
  have has: "set_has insp v ?t \<longleftrightarrow> insp v \<in> insp ` set vs"
    by (auto simp: set_has_def list_ex_iff)
  have same: "map (\<lambda>k. (k, the (find (\<lambda>w. insp w = k) (vs @ [v])))) (first_occ (map insp vs)) = ?t"
    by (rule map_cong) (simp_all add: old)
  have "fold (set_add insp) (vs @ [v]) (set_clear s) = set_add insp v ?t" by (simp add: snoc)
  also have "\<dots> = (if insp v \<in> insp ` set vs then ?t else ?t @ [(insp v, v)])"
    unfolding set_add_def has ..
  finally show ?case
    using same new by (simp add: first_occ_snoc)
qed

section \<open>Variables\<close>

text \<open>
  C16. A constant is never changed: no assignment, through whatever environment, changes a
  constant binding of any scope.
\<close>

theorem constants_keep_their_value:
  assumes "sc_bindings (scopes st a) m = Some b" "b_const b"
  shows "sc_bindings (scopes (snd (env_assign env name v st)) a) m = Some b"
  using assms by (rule assign_keeps_const)

theorem constants_keep_their_value_witness:
  "sc_bindings (scopes (snd (env_assign [0] ''k'' ONull
       (set_const_here [0] ''k'' OUndefined empty_store))) 0) ''k'' = Some (\<lparr>b_value = OUndefined, b_const = True, b_type = None\<rparr>)"
  by (rule constants_keep_their_value) (simp_all add: set_const_here_def bind_here_def)

text \<open>
  C14. When the upvalues from a slot on are closed, the table keeps its invariant with only lower
  slots left, and each of their cells whose slot lies on the operand stack is detached from the
  stack with the value it had, whatever happens to the slots afterwards. An open cell whose slot
  lies beyond the stack stays open although its entry is gone from the table: nothing will close
  it any more.
\<close>

theorem closing_keeps_captured_values:
  assumes "table_inv table st" "close_open_upvalues_from table slots first st = (table', st')"
    and "(s, us) \<in> set table" "a \<in> set us" "first \<le> s"
  shows "upvalues st' a = (if is_open (upvalues st a) \<and> s < length slots then Closed (slots ! s) else upvalues st a)
    \<and> (s < length slots \<longrightarrow> \<not> is_open (upvalues st' a)
          \<and> upvalue_get (upvalues st' a) later = upvalue_get (upvalues st a) slots)
    \<and> table_inv table' st' \<and> fst ` set table' \<subseteq> {..<first}"
  using close_open_upvalues_cells [OF assms] close_open_upvalues_value [OF assms(1-5)]
    close_open_upvalues_inv [OF assms(1,2)] by blast

theorem closing_keeps_captured_values_witness:
  "upvalues (snd (close_open_upvalues_from [(0, [0]), (2, [1])] [ONull] 0
     (put_upvalue 0 (Open 0) (put_upvalue 1 (Open 2) (empty_store\<lparr>next_addr := 2\<rparr>))))) 1 = Open 2"
proof -
  let ?st = "put_upvalue 0 (Open 0) (put_upvalue 1 (Open 2) (empty_store\<lparr>next_addr := 2\<rparr>))"
  have "table_inv [(0, [0]), (2, [1])] ?st"
    by (simp add: table_inv_def entry_inv_def put_upvalue_def is_open_def)
  from closing_keeps_captured_values [OF this prod.collapse [symmetric], of 2 "[1]" 1 0 "[ONull]"] show ?thesis
    by (simp add: put_upvalue_def)
qed

lemma new_upvalue_env: "env_get (snd (new_upvalue u st)) env m = env_get st env m"
  by (induction env) (auto simp: new_upvalue_def split: option.split)

lemma assign_upvalues: "upvalues (snd (env_assign env x w st)) = upvalues st"
  by (induction env) (auto simp: bind_here_def split: option.split)

lemma capture_open_frame:
  "capture_open_upvalue table slot st = (a, table', st') \<Longrightarrow>
     env_get st' env m = env_get st env m \<and> (\<forall>b<next_addr st. upvalues st' b = upvalues st b)
     \<and> next_addr st \<le> next_addr st'"
  using new_upvalue_env [of "Open slot" st env m]
  by (auto simp: capture_open_upvalue_def new_upvalue_def Let_def split: option.splits)

lemma capture_ConsE:
  assumes "capture_upvalues proto env current (d # ds) table st = (Inr cells, table', st')"
  obtains a cs t1 st1 where "cells = a # cs" "capture_upvalues proto env current ds t1 st1 = (Inr cs, table', st')"
    "\<And>m. env_get st1 env m = env_get st env m" "next_addr st \<le> next_addr st1"
    "\<And>b. b < next_addr st \<Longrightarrow> upvalues st1 b = upvalues st b"
    "\<And>slot v. ud_source d = LocalSlot slot \<Longrightarrow> env_get st env (ud_name d) = Some v \<Longrightarrow>
       a < next_addr st1 \<and> upvalues st1 a = Closed v"
proof (cases "ud_source d")
  case (LocalSlot slot)
  show ?thesis
  proof (cases "env_get st env (ud_name d)")
    case None
    obtain a t1 st1 where cap: "capture_open_upvalue table (unat slot) st = (a, t1, st1)" by (cases "capture_open_upvalue table (unat slot) st")
    with assms LocalSlot None show ?thesis
      using capture_open_frame [OF cap] by (auto intro!: that split: prod.splits sum.splits)
  next
    case (Some v)
    with assms LocalSlot show ?thesis
      using new_upvalue_env [of "Closed v" st env]
      by (auto simp: new_upvalue_def intro!: that split: prod.splits sum.splits)
  qed
qed (use assms in \<open>auto intro!: that split: if_splits prod.splits sum.splits\<close>)

lemma capture_frame:
  "capture_upvalues proto env current ds table st = (Inr cells, table', st') \<Longrightarrow> b < next_addr st \<Longrightarrow>
     upvalues st' b = upvalues st b"
proof (induction ds arbitrary: cells table st)
  case (Cons d ds)
  from Cons.prems(1) obtain cs t1 st1 where
    c: "capture_upvalues proto env current ds t1 st1 = (Inr cs, table', st')"
      "next_addr st \<le> next_addr st1" "\<And>b. b < next_addr st \<Longrightarrow> upvalues st1 b = upvalues st b"
    by (rule capture_ConsE) blast
  from Cons.IH [OF c(1)] c(2,3) Cons.prems(2) show ?case by simp
qed simp

lemma capture_copies:
  "capture_upvalues proto env current ds table st = (Inr cells, table', st') \<Longrightarrow> k < length ds \<Longrightarrow>
     ud_source (ds ! k) = LocalSlot slot \<Longrightarrow> env_get st env (ud_name (ds ! k)) = Some v \<Longrightarrow>
     upvalues st' (cells ! k) = Closed v"
proof (induction ds arbitrary: k cells table st)
  case (Cons d ds)
  from Cons.prems(1) obtain a cs t1 st1 where c: "cells = a # cs"
    "capture_upvalues proto env current ds t1 st1 = (Inr cs, table', st')"
    "\<And>m. env_get st1 env m = env_get st env m"
    "\<And>slot v. ud_source d = LocalSlot slot \<Longrightarrow> env_get st env (ud_name d) = Some v \<Longrightarrow>
       a < next_addr st1 \<and> upvalues st1 a = Closed v"
    by (rule capture_ConsE) blast
  show ?case
  proof (cases k)
    case 0
    with Cons.prems c(4) have "a < next_addr st1" "upvalues st1 a = Closed v" by auto
    with 0 c(1) capture_frame [OF c(2)] show ?thesis by simp
  next
    case (Suc j)
    with Cons.prems c(1,3) show ?thesis by (auto intro: Cons.IH [OF c(2)])
  qed
qed simp

text \<open>
  C15. A closure captures a variable that is bound in its environment by copying the value: the
  cell it gets keeps that value whatever is assigned to the variable afterwards.
\<close>

theorem closures_capture_by_copy:
  assumes "capture_proto_upvalues proto env table current st = (Inr cells, table', st')"
    and "k < length (proto_upvalue_desc proto)" "ud_source (proto_upvalue_desc proto ! k) = LocalSlot slot"
    and "env_get st env (ud_name (proto_upvalue_desc proto ! k)) = Some v"
  shows "upvalues (snd (env_assign env x w st')) (cells ! k) = Closed v"
  using capture_copies [OF assms(1) [unfolded capture_proto_upvalues_def] assms(2-4)]
  by (simp add: assign_upvalues)

definition captures_x :: function_proto where
  "captures_x = proto_with_upvalues ''f'' [] (Block default_pos []) False False None default_pos
     [\<lparr>ud_name = ''x'', ud_source = LocalSlot 0\<rparr>]"

theorem closures_capture_by_copy_witness:
  "upvalues (snd (env_assign [0] ''x'' OUndefined (snd (snd
     (capture_proto_upvalues captures_x [0] [] [] (set_here [0] ''x'' ONull empty_store)))))) 1 = Closed ONull"
proof -
  let ?st = "set_here [0] ''x'' ONull empty_store"
  have "capture_proto_upvalues captures_x [0] [] [] ?st = (Inr [1], [], snd (new_upvalue (Closed ONull) ?st))"
    by (simp add: capture_proto_upvalues_def captures_x_def proto_with_upvalues_def set_here_def bind_here_def
        new_upvalue_def empty_store_def)
  from closures_capture_by_copy [OF this, of 0 0 ONull "''x''" OUndefined] this show ?thesis
    by (simp add: captures_x_def proto_with_upvalues_def set_here_def bind_here_def)
qed

section \<open>The text of values\<close>

text \<open>
  C31. A value that contains itself has no text: \<^verbatim>\<open>inspect\<close> recurses without end, however deep
  the native stack is.
\<close>

theorem cyclic_value_overflows:
  assumes "v \<in> set (inspect_children st v)"
  shows "inspect fmt st n v = None"
  using assms by (rule inspect_cyclic)

theorem cyclic_value_overflows_witness:
  "inspect (\<lambda>_. []) (empty_store\<lparr>arrays := (\<lambda>_. [OArray 0])\<rparr>) 10000 (OArray 0) = None"
  by (rule cyclic_value_overflows) simp

section \<open>Operators\<close>

text \<open>
  C32. \<^verbatim>\<open>+\<close> is typed: it gives a number on two numbers, a string on two strings, and an error on
  any other two values; there is no coercion.
\<close>

theorem addition_is_typed:
  "(typeof_name a = ''number'' \<and> typeof_name b = ''number'' \<longrightarrow> typeof_name (eval_add a b pos) = ''number'') \<and>
   (typeof_name a = ''string'' \<and> typeof_name b = ''string'' \<longrightarrow> typeof_name (eval_add a b pos) = ''string'') \<and>
   (is_runtime_error (eval_add a b pos) \<longleftrightarrow> \<not> same_addable a b)"
  using eval_add_error [of a b pos]
  by (cases a; cases b) (simp_all add: eval_add_def same_addable_def)

theorem addition_is_typed_witness:
  "typeof_name (eval_add (OString ''a'') (OString ''b'') default_pos) = ''string''"
  using addition_is_typed [of "OString ''a''" "OString ''b''" default_pos] by simp

text \<open>An operator on two integers that are numbers of the language.\<close>

abbreviation on_ints where
  "on_ints pow st pos i j op \<equiv> apply_binary_op pow st op (ONumber (f64_of_int i)) (ONumber (f64_of_int j)) pos"

text \<open>
  C33. On integers of 32 bits the bit operators compute on the two's complement: \<^verbatim>\<open>&\<close>, \<^verbatim>\<open>|\<close> and \<^verbatim>\<open>^\<close>
  bitwise, \<^verbatim>\<open><<\<close> by multiplication and \<^verbatim>\<open>>>\<close> by division with a power of two whose exponent is
  the right operand modulo 32, and \<^verbatim>\<open>>>>\<close> by division of the unsigned value, of which the result is
  read as signed again: \<^verbatim>\<open>-1 >>> 0\<close> is \<^verbatim>\<open>-1\<close>.
\<close>

theorem bit_operators_compute:
  assumes "in_i32 i" "in_i32 j"
  shows "on_ints pow st pos i j ''&'' = Some (ONumber (f64_of_int (i AND j)))
    \<and> on_ints pow st pos i j ''|'' = Some (ONumber (f64_of_int (i OR j)))
    \<and> on_ints pow st pos i j ''^'' = Some (ONumber (f64_of_int (i XOR j)))
    \<and> on_ints pow st pos i j ''<<'' = Some (ONumber (f64_of_int (signed_take_bit 31 (i * 2 ^ nat (j mod 32)))))
    \<and> on_ints pow st pos i j ''>>'' = Some (ONumber (f64_of_int (i div 2 ^ nat (j mod 32))))
    \<and> on_ints pow st pos i j ''>>>'' = Some (ONumber (f64_of_int (signed_take_bit 31 (i mod 2 ^ 32 div 2 ^ nat (j mod 32)))))"
  using sint_bitwise [OF assms(1,2)] sint_shifts [OF assms(1)]
  by (simp add: apply_binary_op_def bit_op_ints assms(1,2))

theorem bit_operators_compute_witness:
  "apply_binary_op (\<lambda>a _. a) empty_store ''>>>'' (ONumber (f64_of_int (- 1))) (ONumber (f64_of_int 0)) default_pos =
     Some (ONumber (f64_of_int (- 1)))"
  using bit_operators_compute [of "- 1" 0 "\<lambda>a _. a" empty_store default_pos] by (simp add: in_i32_def)

text \<open>
  C34. Counting is exact: natural numbers are added without rounding up to \<open>2 ^ 53\<close>.
\<close>

theorem counting_is_exact:
  assumes "a + b < 2 ^ 53"
  shows "eval_add (ONumber (f64_of_nat a)) (ONumber (f64_of_nat b)) pos = ONumber (f64_of_nat (a + b))"
  using f64_add_exact [OF assms] by (simp add: eval_add_def)

theorem counting_is_exact_witness:
  "eval_add (ONumber (f64_of_nat 40)) (ONumber (f64_of_nat 2)) default_pos = ONumber (f64_of_nat 42)"
  using counting_is_exact [of 40 2] by simp

end
