(* ===== verification/Methods.thy ===== *)
theory Methods
  imports Vm
begin

text \<open>
  Property access, classes, superclass calls and async functions
  (\<^verbatim>\<open>crates/night24-gts/src/evaluator/methods.rs\<close>), the native error classes of
  \<^verbatim>\<open>evaluator/expressions.rs\<close>, and the settling of promises (\<^verbatim>\<open>object/promise.rs\<close>). The VM calls these
  operations through the fields of its \<open>world\<close>; the tree walker calls them directly.

  An operation returns an object, and an error is an error object with its runtime flag set, as
  in the code; the exits of \<open>mem_op\<close> are panics and computations that do not return, besides
  the \<^verbatim>\<open>Err\<close> of the helpers that return a \<^verbatim>\<open>Result\<close>. The tables of builtin methods are arguments
  of the model: the record \<open>natives\<close> says which names a table has and by which number the host
  knows the Rust function.
\<close>

section \<open>Native functions\<close>

record 'x natives =
  n_method :: "string \<Rightarrow> string \<Rightarrow> nat option"
  n_values_iterator :: nat
  n_has_own_property :: nat
  n_date_now :: nat
  n_boolean_to_string :: "bool \<Rightarrow> nat"
  n_continuation :: "nat \<Rightarrow> promise_state \<Rightarrow> obj \<Rightarrow> ('x, unit) host_fun"

definition iterator_key :: string where
  "iterator_key = ''@@iterator''"

definition new_builtin :: "builtin_data \<Rightarrow> 'x store \<Rightarrow> obj \<times> 'x store" where
  "new_builtin b st =
     (OBuiltin (next_addr st),
      st\<lparr>builtins := (builtins st)(next_addr st := b), next_addr := next_addr st + 1\<rparr>)"

definition new_function :: "function_data \<Rightarrow> 'x store \<Rightarrow> obj \<times> 'x store" where
  "new_function f st =
     (OFunction (next_addr st),
      st\<lparr>function_cells := (function_cells st)(next_addr st := f), next_addr := next_addr st + 1\<rparr>)"

definition new_instance :: "instance_data \<Rightarrow> 'x store \<Rightarrow> addr \<times> 'x store" where
  "new_instance i st =
     (next_addr st,
      st\<lparr>instances := (instances st)(next_addr st := i), next_addr := next_addr st + 1\<rparr>)"

definition native_builtin :: "string \<Rightarrow> nat \<Rightarrow> obj option \<Rightarrow> ('x, obj) mem_op" where
  "native_builtin name func extra = update (new_builtin \<lparr>bi_name = name, bi_func = func, bi_extra = extra\<rparr>)"

definition default_iterator_method :: "'x natives \<Rightarrow> obj \<Rightarrow> string \<Rightarrow> ('x, obj) mem_op" where
  "default_iterator_method nt receiver name = native_builtin name (n_values_iterator nt) (Some receiver)"

text \<open>A method of a builtin type: the table's function bound to the value, or what the type says otherwise.\<close>

definition table_method ::
  "'x natives \<Rightarrow> string \<Rightarrow> string \<Rightarrow> obj \<Rightarrow> obj \<Rightarrow> ('x, obj) mem_op" where
  "table_method nt table name receiver otherwise =
     (case n_method nt table name of
        Some f \<Rightarrow> native_builtin (table @ ''.'' @ name) f (Some receiver)
      | None \<Rightarrow> ret otherwise)"

section \<open>The class chain\<close>

text \<open>The method or the static value of a name on a class or its superclasses; outer \<open>None\<close> if the walk does not end.\<close>

partial_function (option) find_member :: "'x store \<Rightarrow> addr \<Rightarrow> string \<Rightarrow> (obj + obj) option option" where
  "find_member st c name =
     (case c_methods (class_cells st c) name of
        Some m \<Rightarrow> Some (Some (Inl m))
      | None \<Rightarrow>
          (case c_statics (class_cells st c) name of
             Some s \<Rightarrow> Some (Some (Inr s))
           | None \<Rightarrow>
               (case c_super (class_cells st c) of
                  None \<Rightarrow> Some None
                | Some parent \<Rightarrow> find_member st parent name)))"

declare find_member.simps [code]

text \<open>The class and its superclasses, nearest first.\<close>

partial_function (option) class_chain :: "'x store \<Rightarrow> addr \<Rightarrow> addr list option" where
  "class_chain st c =
     (case c_super (class_cells st c) of
        None \<Rightarrow> Some [c]
      | Some parent \<Rightarrow> Option.bind (class_chain st parent) (\<lambda>cs. Some (c # cs)))"

declare class_chain.simps [code]

section \<open>Binding methods\<close>

text \<open>\<^verbatim>\<open>bind_method\<close> copies the function, but the receiver is set on the scope both share.\<close>

definition bind_method :: "addr \<Rightarrow> obj \<Rightarrow> ('x, obj) mem_op" where
  "bind_method f this =
     andthen (gets (\<lambda>st. function_cells st f)) (\<lambda>data.
     andthen (update (new_function data)) (\<lambda>bound.
     andthen (modify (set_this (f_env data) (Some this))) (\<lambda>_. ret bound)))"

definition bind_method_value :: "obj \<Rightarrow> obj \<Rightarrow> ('x, obj) mem_op" where
  "bind_method_value meth this =
     (case meth of
        OFunction f \<Rightarrow> bind_method f this
      | OClosure c \<Rightarrow>
          andthen (gets (\<lambda>st. cl_home_env (closures st c))) (\<lambda>home.
          andthen (modify (set_this home (Some this))) (\<lambda>_. ret meth))
      | _ \<Rightarrow> ret meth)"

definition set_ctor_class :: "env \<Rightarrow> addr \<Rightarrow> 'x store \<Rightarrow> 'x store" where
  "set_ctor_class scope cls st =
     st\<lparr>scopes := (scopes st)(hd scope := (scopes st (hd scope))\<lparr>sc_ctor_class := Some cls\<rparr>)\<rparr>"

definition bind_constructor_value :: "obj \<Rightarrow> addr \<Rightarrow> obj \<Rightarrow> ('x, obj) mem_op" where
  "bind_constructor_value meth cls this =
     (case meth of
        OFunction f \<Rightarrow>
          andthen (bind_method f this) (\<lambda>bound.
          andthen (gets (\<lambda>st. f_env (function_cells st f))) (\<lambda>home.
          andthen (modify (set_ctor_class home cls)) (\<lambda>_. ret bound)))
      | OClosure c \<Rightarrow>
          andthen (gets (\<lambda>st. cl_home_env (closures st c))) (\<lambda>home.
          andthen (modify (set_this home (Some this))) (\<lambda>_.
          andthen (modify (set_ctor_class home cls)) (\<lambda>_. ret meth)))
      | _ \<Rightarrow> ret meth)"

section \<open>Properties\<close>

text \<open>\<^verbatim>\<open>get_property\<close> recurses along prototypes; its first numeral is the depth of native stack.\<close>

fun get_property :: "'x natives \<Rightarrow> nat \<Rightarrow> obj \<Rightarrow> string \<Rightarrow> position \<Rightarrow> ('x, obj) mem_op" where
  "get_property nt 0 v name pos = err Panic"
| "get_property nt (Suc n) v name pos =
     (case v of
        OHash a \<Rightarrow>
          andthen (gets (\<lambda>st. hashes st a)) (\<lambda>h.
          case hash_get name h of
            Some x \<Rightarrow> ret x
          | None \<Rightarrow>
              (case h_proto h of
                 Some proto \<Rightarrow> get_property nt n proto name pos
               | None \<Rightarrow>
                   if name = iterator_key then default_iterator_method nt v ''Object.Symbol.iterator''
                   else if name = ''hasOwnProperty''
                     then native_builtin ''Object.hasOwnProperty'' (n_has_own_property nt) (Some v)
                   else ret OUndefined))
      | OInstance i \<Rightarrow>
          andthen (gets (\<lambda>st. instances st i)) (\<lambda>inst.
          case i_props inst name of
            Some x \<Rightarrow> ret x
          | None \<Rightarrow>
              andthen (\<lambda>st. returns (find_member st (i_class inst) name) st) (\<lambda>found.
              case found of
                Some (Inl m) \<Rightarrow> bind_method_value m v
              | Some (Inr s) \<Rightarrow> ret s
              | None \<Rightarrow> gets (\<lambda>st. new_error pos
                  (''TypeError: '' @ quote @ name @ quote @ '' is not a property of '' @
                   c_name (class_cells st (i_class inst))))))
      | OClass c \<Rightarrow>
          gets (\<lambda>st. let cls = class_cells st c in
            case c_statics cls name of
              Some x \<Rightarrow> x
            | None \<Rightarrow>
                (case c_methods cls name of
                   Some m \<Rightarrow> m
                 | None \<Rightarrow> new_error pos
                     (''TypeError: '' @ quote @ name @ quote @ '' is not a static member of '' @
                      c_name cls)))
      | OBuiltin b \<Rightarrow>
          andthen (gets (\<lambda>st. bi_name (builtins st b))) (\<lambda>bname.
          if bname = ''Date'' \<and> name = ''now'' then native_builtin ''Date.now'' (n_date_now nt) None
          else ret OUndefined)
      | OString s \<Rightarrow>
          if name = ''length'' then ret (ONumber (f64_of_nat (length (chars_of s))))
          else if name = iterator_key then default_iterator_method nt v ''String.Symbol.iterator''
          else table_method nt ''String'' name v
            (new_error pos (''TypeError: cannot read property '' @ quote @ name @ quote @ '' of string''))
      | ONumber _ \<Rightarrow> table_method nt ''Number'' name v OUndefined
      | OArray a \<Rightarrow>
          if name = ''length'' then gets (\<lambda>st. ONumber (f64_of_nat (length (arrays st a))))
          else if name = iterator_key then default_iterator_method nt v ''Array.Symbol.iterator''
          else table_method nt ''Array'' name v
            (new_error pos (''TypeError: '' @ quote @ name @ quote @ '' is not a function of array''))
      | OError message ename stack _ _ _ \<Rightarrow>
          ret (if name = ''name'' then OString (if ename = [] then ''Error'' else ename)
               else if name = ''message'' then OString message
               else if name = ''stack'' then OString stack
               else OUndefined)
      | OBoolean b \<Rightarrow>
          if name = ''toString'' then native_builtin ''Boolean.toString'' (n_boolean_to_string nt b) None
          else ret OUndefined
      | ONull \<Rightarrow> ret OUndefined
      | OUndefined \<Rightarrow> ret OUndefined
      | OPromise _ \<Rightarrow> table_method nt ''Promise'' name v OUndefined
      | ODate _ \<Rightarrow> table_method nt ''Date'' name v OUndefined
      | ORegexp src flags \<Rightarrow>
          if name = ''source'' then ret (OString src)
          else if name = ''flags'' then ret (OString flags)
          else table_method nt ''RegExp'' name v OUndefined
      | OMap a \<Rightarrow>
          if name = ''size'' then gets (\<lambda>st. ONumber (f64_of_nat (map_size (maps st a))))
          else if name = iterator_key then default_iterator_method nt v ''Map.Symbol.iterator''
          else table_method nt ''Map'' name v OUndefined
      | OSet a \<Rightarrow>
          if name = ''size'' then gets (\<lambda>st. ONumber (f64_of_nat (set_size (set_cells st a))))
          else if name = iterator_key then default_iterator_method nt v ''Set.Symbol.iterator''
          else table_method nt ''Set'' name v OUndefined
      | _ \<Rightarrow> ret (new_error pos
          (''TypeError: cannot read property '' @ quote @ name @ quote @ '' of '' @ type_tag v)))"

text \<open>\<^verbatim>\<open>get_iterator_index\<close>: indexing an iterable by the iterator key.\<close>

definition get_iterator_index ::
  "'x natives \<Rightarrow> (f64 \<Rightarrow> string) \<Rightarrow> nat \<Rightarrow> obj \<Rightarrow> obj \<Rightarrow> position \<Rightarrow> ('x, obj option) mem_op" where
  "get_iterator_index nt fmt depth v key pos =
     andthen (inspect_op fmt depth key) (\<lambda>shown.
     if shown = iterator_key then
       (let look = andthen (get_property nt depth v iterator_key pos) (\<lambda>r. ret (Some r))
        in case v of
             OArray _ \<Rightarrow> look | OHash _ \<Rightarrow> look | OString _ \<Rightarrow> look | OMap _ \<Rightarrow> look | OSet _ \<Rightarrow> look
           | _ \<Rightarrow> ret None)
     else ret None)"

fun get_index ::
  "'x natives \<Rightarrow> (f64 \<Rightarrow> string) \<Rightarrow> nat \<Rightarrow> nat \<Rightarrow> obj \<Rightarrow> obj \<Rightarrow> position \<Rightarrow> ('x, obj) mem_op" where
  "get_index nt fmt depth 0 v key pos = err Panic"
| "get_index nt fmt depth (Suc n) v key pos =
     andthen (get_iterator_index nt fmt depth v key pos) (\<lambda>iterator.
     case iterator of
       Some it \<Rightarrow> ret it
     | None \<Rightarrow>
         (case v of
            OArray a \<Rightarrow>
              gets (\<lambda>st. case key of
                 ONumber x \<Rightarrow>
                   (let i = f64_as_isize x
                    in if 0 \<le> i \<and> i < int (length (arrays st a)) then arrays st a ! nat i else OUndefined)
               | _ \<Rightarrow> OUndefined)
          | OHash a \<Rightarrow>
              andthen (inspect_op fmt depth key) (\<lambda>k.
              andthen (gets (\<lambda>st. hashes st a)) (\<lambda>h.
              case hash_get k h of
                Some x \<Rightarrow> ret x
              | None \<Rightarrow>
                  (case h_proto h of
                     Some proto \<Rightarrow> get_index nt fmt depth n proto key pos
                   | None \<Rightarrow> ret OUndefined)))
          | OString s \<Rightarrow>
              ret (case key of
                 ONumber x \<Rightarrow>
                   (let i = f64_as_usize x
                    in if i < length (chars_of s) then OString (chars_of s ! i) else OUndefined)
               | _ \<Rightarrow> OUndefined)
          | OInstance i \<Rightarrow>
              gets (\<lambda>st. case key of
                 OString k \<Rightarrow> (case i_props (instances st i) k of Some x \<Rightarrow> x | None \<Rightarrow> OUndefined)
               | _ \<Rightarrow> OUndefined)
          | _ \<Rightarrow> ret (new_error pos (''TypeError: cannot index '' @ type_tag v))))"

end
