(* ===== verification/Construct.thy ===== *)
theory Construct
  imports Methods
begin

text \<open>
  Instances of classes, superclass calls, async functions and promises: the second half of
  \<^verbatim>\<open>crates/night24-gts/src/evaluator/methods.rs\<close>, the native constructor of the error classes
  (\<^verbatim>\<open>native_error_class\<close> of \<^verbatim>\<open>evaluator/expressions.rs\<close>) and \<^verbatim>\<open>object/promise.rs\<close>.
\<close>

section \<open>Promises\<close>

definition put_promise :: "addr \<Rightarrow> promise_data \<Rightarrow> 'x store \<Rightarrow> 'x store" where
  "put_promise a p st = st\<lparr>promises := (promises st)(a := p)\<rparr>"

definition pending_promise :: promise_data where
  "pending_promise = \<lparr>p_state = Pending, p_value = None, p_continuations = []\<rparr>"

text \<open>The continuations are taken out before they run, each with the state and the value.\<close>

definition settle :: "'x natives \<Rightarrow> addr \<Rightarrow> promise_state \<Rightarrow> obj \<Rightarrow> ('x, unit) mem_op" where
  "settle nt a state v =
     andthen (gets (\<lambda>st. promises st a)) (\<lambda>p.
     if p_state p \<noteq> Pending then ret ()
     else andthen (modify (put_promise a \<lparr>p_state = state, p_value = Some v, p_continuations = []\<rparr>)) (\<lambda>_.
          for_each (\<lambda>k. host_op (n_continuation nt k state v)) (p_continuations p)))"

definition add_continuation :: "'x natives \<Rightarrow> addr \<Rightarrow> nat \<Rightarrow> ('x, unit) mem_op" where
  "add_continuation nt a k =
     andthen (gets (\<lambda>st. promises st a)) (\<lambda>p.
     if p_state p = Pending
     then modify (put_promise a (p\<lparr>p_continuations := p_continuations p @ [k]\<rparr>))
     else host_op (n_continuation nt k (p_state p) (case p_value p of Some v \<Rightarrow> v | None \<Rightarrow> OUndefined)))"

section \<open>Does a constructor call \<open>super\<close>?\<close>

fun node_calls_super_expr :: "expr \<Rightarrow> bool" where
  "node_calls_super_expr (ECall _ callee _) =
     ((case callee of ESuper _ _ \<Rightarrow> True | _ \<Rightarrow> False) \<or> node_calls_super_expr callee)"
| "node_calls_super_expr _ = False"

function (sequential) node_calls_super_stmt :: "stmt \<Rightarrow> bool" where
  "node_calls_super_stmt (SExpr _ e) = node_calls_super_expr e"
| "node_calls_super_stmt (SBlock b) = list_ex node_calls_super_stmt (block_statements b)"
| "node_calls_super_stmt (SIf _ _ b alt) =
     (list_ex node_calls_super_stmt (block_statements b) \<or>
      (case alt of Some s \<Rightarrow> node_calls_super_stmt s | None \<Rightarrow> False))"
| "node_calls_super_stmt _ = False"
  by pat_completeness auto

termination
  by (relation "measure size") (auto dest: size_block_statement)

definition block_calls_super :: "gblock \<Rightarrow> bool" where
  "block_calls_super b = list_ex node_calls_super_stmt (block_statements b)"

section \<open>Constructors\<close>

definition put_props :: "addr \<Rightarrow> (string \<rightharpoonup> obj) \<Rightarrow> 'x store \<Rightarrow> 'x store" where
  "put_props i props st = st\<lparr>instances := (instances st)(i := (instances st i)\<lparr>i_props := props\<rparr>)\<rparr>"

text \<open>The native constructor of the error class \<open>cls\<close>.\<close>

definition native_error_ctor :: "'x world \<Rightarrow> addr \<Rightarrow> addr \<Rightarrow> obj list \<Rightarrow> ('x, obj) mem_op" where
  "native_error_ctor w cls i args =
     andthen (case args of a # _ \<Rightarrow> inspect_op (w_fmt w) (w_depth w) a | [] \<Rightarrow> ret []) (\<lambda>message.
     andthen (gets (\<lambda>st. c_name (class_cells st cls))) (\<lambda>name.
     andthen (modify (\<lambda>st. case new_named_error default_pos name message of
         OError emsg ename estack _ _ _ \<Rightarrow>
           put_props i ((i_props (instances st i))(''name'' \<mapsto> OString ename, ''message'' \<mapsto> OString emsg,
             ''stack'' \<mapsto> OString estack)) st
       | _ \<Rightarrow> st)) (\<lambda>_. ret OUndefined)))"

definition call_constructor_value ::
  "'x world \<Rightarrow> 'x caller \<Rightarrow> obj \<Rightarrow> addr \<Rightarrow> addr \<Rightarrow> env \<Rightarrow> obj list \<Rightarrow> position \<Rightarrow> ('x, obj) mem_op" where
  "call_constructor_value w call ctor cls i env args pos =
     (case ctor of
        OFunction f \<Rightarrow>
          andthen (gets (\<lambda>st. function_cells st f)) (\<lambda>con.
          andthen (update (env_child (f_env con))) (\<lambda>scope.
          andthen (modify (set_this scope (Some (OInstance i)))) (\<lambda>_.
          andthen (modify (set_ctor_class scope cls)) (\<lambda>_.
          as_value
            (andthen (bind_params w scope (f_params con) args) (\<lambda>_.
             andthen (host_op (w_eval_block w (f_body con) scope)) (\<lambda>r.
             ret (case r of OReturn x \<Rightarrow> x | _ \<Rightarrow> r))))))))
      | OClosure c \<Rightarrow>
          andthen (gets (\<lambda>st. cl_home_env (closures st c))) (\<lambda>home.
          andthen (modify (set_this home (Some (OInstance i)))) (\<lambda>_.
          andthen (modify (set_ctor_class home cls)) (\<lambda>_.
          as_value (call c args env (Some (OInstance i)) pos))))
      | _ \<Rightarrow> ret OUndefined)"

definition call_constructor ::
  "'x world \<Rightarrow> 'x caller \<Rightarrow> addr \<Rightarrow> addr \<Rightarrow> env \<Rightarrow> obj list \<Rightarrow> position \<Rightarrow> ('x, obj) mem_op" where
  "call_constructor w call cls i env args pos =
     andthen (gets (\<lambda>st. class_cells st cls)) (\<lambda>c.
     if c_native_ctor c \<noteq> None then native_error_ctor w cls i args
     else case c_methods c ''constructor'' of
            None \<Rightarrow> ret OUndefined
          | Some ctor \<Rightarrow> call_constructor_value w call ctor cls i env args pos)"

text \<open>The fields of the chain are inserted from the class upwards, a later insertion replacing an earlier.\<close>

definition initial_props :: "'x store \<Rightarrow> addr list \<Rightarrow> string \<rightharpoonup> obj" where
  "initial_props st chain = foldl (\<lambda>props c. props ++ c_fields (class_cells st c)) Map.empty chain"

definition needs_implicit_super :: "'x store \<Rightarrow> addr \<Rightarrow> bool" where
  "needs_implicit_super st cls \<longleftrightarrow>
     c_super (class_cells st cls) \<noteq> None \<and>
     (case c_methods (class_cells st cls) ''constructor'' of
        Some (OFunction f) \<Rightarrow> \<not> block_calls_super (f_body (function_cells st f))
      | Some (OClosure c) \<Rightarrow> \<not> block_calls_super (proto_body (cl_proto (closures st c)))
      | None \<Rightarrow> True
      | _ \<Rightarrow> False)"

text \<open>\<^verbatim>\<open>if r.is_runtime_error() { return r; }\<close>\<close>

definition unless_error :: "obj \<Rightarrow> ('x, obj) mem_op \<Rightarrow> ('x, obj) mem_op" where
  "unless_error r m = (if is_runtime_error r then ret r else m)"

definition construct_class ::
  "'x world \<Rightarrow> 'x caller \<Rightarrow> addr \<Rightarrow> env \<Rightarrow> obj list \<Rightarrow> position \<Rightarrow> ('x, obj) mem_op" where
  "construct_class w call cls env args pos =
     andthen (\<lambda>st. returns (class_chain st cls) st) (\<lambda>chain.
     andthen (gets (\<lambda>st. initial_props st chain)) (\<lambda>props.
     andthen (update (new_instance \<lparr>i_class = cls, i_props = props, i_pos = pos\<rparr>)) (\<lambda>i.
     andthen (gets (\<lambda>st. class_cells st cls)) (\<lambda>c.
     if c_native_ctor c \<noteq> None then andthen (native_error_ctor w cls i args) (\<lambda>_. ret (OInstance i))
     else
       andthen (gets (\<lambda>st. needs_implicit_super st cls)) (\<lambda>implicit.
       andthen (case c_super c of
                  Some sc \<Rightarrow> if implicit then call_constructor w call sc i env args pos else ret OUndefined
                | None \<Rightarrow> ret OUndefined) (\<lambda>r.
       unless_error r
         (andthen (case c_methods c ''constructor'' of
                     Some con \<Rightarrow> call_constructor_value w call con cls i env args pos
                   | None \<Rightarrow> ret OUndefined) (\<lambda>r.
          unless_error r (ret (OInstance i))))))))))"

section \<open>Superclass\<close>

text \<open>The instance that \<^verbatim>\<open>this\<close> is in a scope.\<close>

definition this_instance :: "'x store \<Rightarrow> env \<Rightarrow> addr option" where
  "this_instance st env = (case sc_this (scopes st (hd env)) of Some (OInstance i) \<Rightarrow> Some i | _ \<Rightarrow> None)"

definition super_unavailable :: "position \<Rightarrow> obj" where
  "super_unavailable pos = new_error pos ''ReferenceError: super is not available''"

definition constructing_class :: "'x store \<Rightarrow> env \<Rightarrow> addr \<Rightarrow> addr" where
  "constructing_class st env i =
     (case sc_ctor_class (scopes st (hd env)) of Some c \<Rightarrow> c | None \<Rightarrow> i_class (instances st i))"

definition call_super_constructor ::
  "'x world \<Rightarrow> 'x caller \<Rightarrow> env \<Rightarrow> obj list \<Rightarrow> position \<Rightarrow> ('x, obj) mem_op" where
  "call_super_constructor w call env args pos =
     andthen (gets (\<lambda>st. this_instance st env)) (\<lambda>inst.
     case inst of
       None \<Rightarrow> ret (super_unavailable pos)
     | Some i \<Rightarrow>
         andthen (gets (\<lambda>st. c_super (class_cells st (constructing_class st env i)))) (\<lambda>sup.
         case sup of
           None \<Rightarrow> ret (super_unavailable pos)
         | Some s \<Rightarrow> call_constructor w call s i env args pos))"

definition get_super_constructor :: "env \<Rightarrow> position \<Rightarrow> ('x, obj) mem_op" where
  "get_super_constructor env pos =
     andthen (gets (\<lambda>st. this_instance st env)) (\<lambda>inst.
     case inst of
       None \<Rightarrow> ret (super_unavailable pos)
     | Some i \<Rightarrow>
         andthen (gets (\<lambda>st. c_super (class_cells st (constructing_class st env i)))) (\<lambda>sup.
         case sup of
           None \<Rightarrow> ret (super_unavailable pos)
         | Some s \<Rightarrow>
             andthen (gets (\<lambda>st. c_methods (class_cells st s) ''constructor'')) (\<lambda>ctor.
             case ctor of
               Some con \<Rightarrow> bind_constructor_value con s (OInstance i)
             | None \<Rightarrow> ret OUndefined)))"

text \<open>The superclass here is that of the instance's own class, not of the class of the method that runs.\<close>

definition get_super_method :: "env \<Rightarrow> string \<Rightarrow> position \<Rightarrow> ('x, obj) mem_op" where
  "get_super_method env name pos =
     andthen (gets (\<lambda>st. this_instance st env)) (\<lambda>inst.
     case inst of
       None \<Rightarrow> ret (super_unavailable pos)
     | Some i \<Rightarrow>
         andthen (gets (\<lambda>st. c_super (class_cells st (i_class (instances st i))))) (\<lambda>sup.
         case sup of
           None \<Rightarrow> ret (super_unavailable pos)
         | Some s \<Rightarrow>
             andthen (gets (\<lambda>st. c_methods (class_cells st s) name)) (\<lambda>meth.
             case meth of
               Some m \<Rightarrow> bind_method_value m (OInstance i)
             | None \<Rightarrow> ret (new_error pos (''TypeError: super.'' @ name @ '' is not a method'')))))"

section \<open>Builtin constructors and async functions\<close>

definition construct_builtin ::
  "'x world \<Rightarrow> addr \<Rightarrow> env \<Rightarrow> obj list \<Rightarrow> position \<Rightarrow> ('x, obj) mem_op" where
  "construct_builtin w b env args pos = run_builtin w b env pos None args"

text \<open>The body runs at once; the promise is settled with its result.\<close>

definition run_async_function ::
  "'x natives \<Rightarrow> 'x world \<Rightarrow> addr \<Rightarrow> env \<Rightarrow> obj list \<Rightarrow> ('x, obj) mem_op" where
  "run_async_function nt w f scope args =
     andthen (gets (\<lambda>st. function_cells st f)) (\<lambda>data.
     andthen (update (new_promise pending_promise)) (\<lambda>promise.
     case promise of
       OPromise p \<Rightarrow>
         (\<lambda>st. case bind_params w scope (f_params data) args st of
            (Inl (Thrown e), st1) \<Rightarrow> andthen (settle nt p Rejected e) (\<lambda>_. ret promise) st1
          | (Inl e, st1) \<Rightarrow> (Inl e, st1)
          | (Inr _, st1) \<Rightarrow>
              andthen (host_op (w_eval_block w (f_body data) scope)) (\<lambda>result.
              andthen (case result of
                         OReturn r \<Rightarrow> settle nt p Fulfilled r
                       | OError _ _ _ _ _ _ \<Rightarrow> settle nt p Rejected result
                       | _ \<Rightarrow> settle nt p Fulfilled result) (\<lambda>_. ret promise)) st1)
     | _ \<Rightarrow> ret promise))"

end
