(* ===== verification/Eval_Expr.thy ===== *)
theory Eval_Expr
  imports Construct
begin

text \<open>
  The tree-walking evaluator on expressions (\<^verbatim>\<open>crates/night24-gts/src/evaluator/expressions.rs\<close>,
  \<^verbatim>\<open>match_eval.rs\<close> and the templates of \<^verbatim>\<open>string_lit.rs\<close>). One definition per function of the code;
  the recursive calls, to \<^verbatim>\<open>eval_expr\<close> and \<^verbatim>\<open>eval_block\<close>, go through the fields of the world, and
  \<open>Evaluator\<close> ties the knot. Errors are runtime-error objects that every caller has to look for;
  the places where the code does not look are modelled as they are.
\<close>

section \<open>Conventions\<close>

definition ev :: "'x world \<Rightarrow> expr \<Rightarrow> env \<Rightarrow> ('x, obj) mem_op" where
  "ev w e env = host_op (w_eval_expr w e env)"

text \<open>\<^verbatim>\<open>let v = ..; if v.is_runtime_error() { return v; }\<close>\<close>

definition on_value :: "('x, obj) mem_op \<Rightarrow> (obj \<Rightarrow> ('x, obj) mem_op) \<Rightarrow> ('x, obj) mem_op" where
  "on_value m f = andthen m (\<lambda>v. unless_error v (f v))"

definition check_timeout :: "'x world \<Rightarrow> position \<Rightarrow> ('x, obj option) mem_op" where
  "check_timeout w pos = (\<lambda>st. case w_deadline_exceeded w (host_state st) of (late, x) \<Rightarrow>
     (Inr (if late then Some (new_error pos ''TimeoutError: script execution timed out'') else None),
      st\<lparr>host_state := x\<rparr>))"

text \<open>\<^verbatim>\<open>if let Some(timeout) = check_timeout(pos) { return timeout; }\<close>\<close>

definition in_time :: "'x world \<Rightarrow> position \<Rightarrow> ('x, obj) mem_op \<Rightarrow> ('x, obj) mem_op" where
  "in_time w pos m =
     andthen (check_timeout w pos) (\<lambda>late. case late of Some timeout \<Rightarrow> ret timeout | None \<Rightarrow> m)"

definition property_key :: "(f64 \<Rightarrow> string) \<Rightarrow> expr \<Rightarrow> string" where
  "property_key fmt e =
     (case e of
        EIdent _ name \<Rightarrow> name
      | EString _ literal \<Rightarrow> strip_quotes literal
      | ENumber _ _ n _ \<Rightarrow> format_number fmt n
      | _ \<Rightarrow> [])"

section \<open>Names and literals\<close>

definition eval_ident :: "position \<Rightarrow> string \<Rightarrow> env \<Rightarrow> ('x, obj) mem_op" where
  "eval_ident pos name env =
     gets (\<lambda>st. case env_get st env name of Some v \<Rightarrow> v | None \<Rightarrow> not_defined pos name)"

text \<open>Elements of an array literal and arguments of a call: the first error ends the list, except one that is spread.\<close>

fun eval_elements :: "'x world \<Rightarrow> expr list \<Rightarrow> env \<Rightarrow> ('x, obj + obj list) mem_op" where
  "eval_elements w [] env = ret (Inr [])"
| "eval_elements w (e # es) env =
     andthen (case e of
                ESpread _ x \<Rightarrow>
                  andthen (ev w x env) (\<lambda>v.
                  case v of OArray a \<Rightarrow> gets (\<lambda>st. Inr (arrays st a)) | _ \<Rightarrow> ret (Inr [v]))
              | _ \<Rightarrow>
                  andthen (ev w e env) (\<lambda>v. ret (if is_runtime_error v then Inl v else Inr [v]))) (\<lambda>r.
     case r of
       Inl v \<Rightarrow> ret (Inl v)
     | Inr vs \<Rightarrow>
         andthen (eval_elements w es env) (\<lambda>rest.
         ret (case rest of Inl v \<Rightarrow> Inl v | Inr ws \<Rightarrow> Inr (vs @ ws))))"

definition eval_array :: "'x world \<Rightarrow> expr list \<Rightarrow> env \<Rightarrow> ('x, obj) mem_op" where
  "eval_array w es env =
     andthen (eval_elements w es env) (\<lambda>r.
     case r of Inl v \<Rightarrow> ret v | Inr vs \<Rightarrow> update (new_array vs))"

definition set_entry :: "addr \<Rightarrow> string \<Rightarrow> obj \<Rightarrow> 'x store \<Rightarrow> 'x store" where
  "set_entry a key v st = put_hash a (hash_set key v (hashes st a)) st"

definition copy_entries :: "addr \<Rightarrow> addr \<Rightarrow> 'x store \<Rightarrow> 'x store" where
  "copy_entries dst src st =
     put_hash dst (fold (\<lambda>(k, v). hash_set k v) (h_entries (hashes st src)) (hashes st dst)) st"

fun eval_properties :: "'x world \<Rightarrow> addr \<Rightarrow> expr property list \<Rightarrow> env \<Rightarrow> ('x, obj) mem_op" where
  "eval_properties w a [] env = ret (OHash a)"
| "eval_properties w a (p # ps) env =
     (if prop_spread p then
        andthen (ev w (prop_value p) env) (\<lambda>v.
        andthen (case v of OHash h \<Rightarrow> modify (copy_entries a h) | _ \<Rightarrow> ret ()) (\<lambda>_.
        eval_properties w a ps env))
      else
        andthen (if prop_computed p then
                   andthen (ev w (prop_key p) env) (\<lambda>k.
                   if is_runtime_error k then ret (Inl k)
                   else andthen (inspect_op (w_fmt w) (w_depth w) k) (\<lambda>s. ret (Inr s)))
                 else ret (Inr (property_key (w_fmt w) (prop_key p)))) (\<lambda>key.
        case key of
          Inl e \<Rightarrow> ret e
        | Inr name \<Rightarrow>
            on_value (ev w (prop_value p) env) (\<lambda>v.
            andthen (modify (set_entry a name v)) (\<lambda>_. eval_properties w a ps env))))"

definition eval_object_lit :: "'x world \<Rightarrow> expr property list \<Rightarrow> env \<Rightarrow> ('x, obj) mem_op" where
  "eval_object_lit w ps env =
     andthen (update (new_hash empty_hash)) (\<lambda>h.
     case h of OHash a \<Rightarrow> eval_properties w a ps env | _ \<Rightarrow> ret h)"

section \<open>Templates\<close>

definition eval_template_expression ::
  "'x world \<Rightarrow> (program \<Rightarrow> env \<Rightarrow> ('x, obj) mem_op) \<Rightarrow> string \<Rightarrow> env \<Rightarrow> position \<Rightarrow> ('x, obj) mem_op" where
  "eval_template_expression w run_program src env pos =
     (let (prog, errors) =
            h_parse (w_compiler w) (''let __gts_template_expr = '' @ src @ '';'') (pos_file pos)
      in if errors \<noteq> [] \<or> prog_errors prog \<noteq> []
         then ret (new_error pos ''SyntaxError: template expression parse error'')
         else
           andthen (update (env_child env)) (\<lambda>scope.
           on_value (run_program prog scope) (\<lambda>_.
           gets (\<lambda>st. case env_get st scope ''__gts_template_expr'' of Some v \<Rightarrow> v | None \<Rightarrow> OUndefined))))"

text \<open>The loop of \<^verbatim>\<open>eval_template\<close> on the text from index \<^verbatim>\<open>i\<close> on; \<open>out\<close> is what is written so far.\<close>

function (sequential) eval_segments ::
  "'x world \<Rightarrow> (string \<Rightarrow> ('x, obj) mem_op) \<Rightarrow> position \<Rightarrow> string \<Rightarrow> string \<Rightarrow> ('x, obj) mem_op" where
  "eval_segments w value pos out [] = ret (OString out)"
| "eval_segments w value pos out (b # bs) =
     (if starts_with (b # bs) [CHR 0x24, CHR 0x7B] then
        (case find_template_expr_end (drop 1 bs) of
           None \<Rightarrow> ret (new_error pos ''SyntaxError: unterminated template expression'')
         | Some k \<Rightarrow>
             (let src = trim (take k (drop 1 bs)); rest = drop (k + 2) bs
              in if src \<noteq> [] then
                   on_value (value src) (\<lambda>v.
                   andthen (inspect_op (w_fmt w) (w_depth w) v) (\<lambda>s.
                   eval_segments w value pos (out @ s) rest))
                 else eval_segments w value pos out rest))
      else
        (let (run, rest) = template_text (b # bs)
         in andthen (in_depth (unescape_string run)) (\<lambda>s. eval_segments w value pos (out @ s) rest)))"
  by pat_completeness auto

termination
  by (relation "measure (\<lambda>(w, value, pos, out, s). length s)")
    (auto simp: template_text_consumes less_Suc_eq_le split del: if_split simp del: template_text.simps
      dest!: sym [of _ "template_text _"])

definition eval_template ::
  "'x world \<Rightarrow> (program \<Rightarrow> env \<Rightarrow> ('x, obj) mem_op) \<Rightarrow> position \<Rightarrow> string \<Rightarrow> env \<Rightarrow> ('x, obj) mem_op" where
  "eval_template w run_program pos lit env =
     (if length lit < 2 \<or> \<not> starts_with lit [CHR 0x60] then ret (OString lit)
      else eval_segments w (\<lambda>src. eval_template_expression w run_program src env pos) pos [] (template_inner lit))"

section \<open>Assignment\<close>

definition assign_to_constant :: "position \<Rightarrow> string \<Rightarrow> obj" where
  "assign_to_constant pos name = new_error pos (''TypeError: assignment to constant '' @ quote @ name @ quote)"

text \<open>\<^verbatim>\<open>env.assign\<close> and the two errors that follow it; \<open>v\<close> is the value of the assignment.\<close>

definition assign_ident :: "position \<Rightarrow> string \<Rightarrow> obj \<Rightarrow> env \<Rightarrow> ('x, obj) mem_op" where
  "assign_ident pos name v env =
     andthen (update (env_assign env name v)) (\<lambda>(found, is_const).
     ret (if \<not> found then not_defined pos name
          else if is_const then assign_to_constant pos name
          else v))"

definition assign_member :: "obj \<Rightarrow> string \<Rightarrow> obj \<Rightarrow> position \<Rightarrow> ('x, obj) mem_op" where
  "assign_member target name v pos =
     (case target of
        OHash a \<Rightarrow>
          andthen (gets (\<lambda>st. hashes st a)) (\<lambda>h.
          if h_frozen h then ret (new_error pos ''TypeError: cannot assign to frozen object'')
          else if h_sealed h \<and> \<not> hash_contains name h
            then ret (new_error pos ''TypeError: cannot add property to sealed object'')
          else andthen (modify (set_entry a name v)) (\<lambda>_. ret v))
      | OInstance a \<Rightarrow>
          andthen (modify (\<lambda>st. put_props a ((i_props (instances st a))(name \<mapsto> v)) st)) (\<lambda>_. ret v)
      | OClass a \<Rightarrow>
          andthen (modify (\<lambda>st. st\<lparr>class_cells := (class_cells st)(a :=
            (class_cells st a)\<lparr>c_statics := (c_statics (class_cells st a))(name \<mapsto> v)\<rparr>)\<rparr>)) (\<lambda>_. ret v)
      | _ \<Rightarrow> ret (new_error pos (''TypeError: cannot assign to property of '' @ type_tag target)))"

text \<open>\<^verbatim>\<open>assign_index\<close> of \<^verbatim>\<open>expressions.rs\<close>; the VM has one of its own.\<close>

definition assign_element :: "'x world \<Rightarrow> obj \<Rightarrow> obj \<Rightarrow> obj \<Rightarrow> position \<Rightarrow> ('x, obj) mem_op" where
  "assign_element w target key v pos =
     (case target of
        OArray a \<Rightarrow>
          (case key of
             ONumber n \<Rightarrow>
               andthen (gets (\<lambda>st. arrays st a)) (\<lambda>xs.
               let i = f64_as_isize n
               in if i < 0 \<or> i \<ge> int (length xs)
                  then ret (new_error pos ''RangeError: array index out of bounds'')
                  else andthen (modify (\<lambda>st. st\<lparr>arrays := (arrays st)(a := xs[nat i := v])\<rparr>)) (\<lambda>_. ret v))
           | _ \<Rightarrow> ret v)
      | OHash a \<Rightarrow>
          andthen (inspect_op (w_fmt w) (w_depth w) key) (\<lambda>k.
          andthen (gets (\<lambda>st. h_frozen (hashes st a))) (\<lambda>frozen.
          if frozen then ret (new_error pos ''TypeError: cannot assign to frozen object'')
          else andthen (modify (set_entry a k v)) (\<lambda>_. ret v)))
      | _ \<Rightarrow> ret (new_error pos (''TypeError: cannot index '' @ type_tag target)))"

definition compound :: "obj \<Rightarrow> obj \<Rightarrow> string \<Rightarrow> position \<Rightarrow> obj" where
  "compound left right op pos =
     (case (left, right) of
        (ONumber a, ONumber b) \<Rightarrow>
          if op = ''+='' then ONumber (f64_add a b)
          else if op = ''-='' then ONumber (f64_sub a b)
          else if op = ''*='' then ONumber (f64_mul a b)
          else if op = ''/='' then ONumber (f64_div a b)
          else if op = ''%='' then ONumber (f64_rem_euclid a b)
          else new_error pos (''unknown compound op '' @ op)
      | (OString a, OString b) \<Rightarrow>
          if op = ''+='' then OString (a @ b)
          else new_error pos ''TypeError: compound assignment requires matching types''
      | _ \<Rightarrow> new_error pos ''TypeError: compound assignment requires matching types'')"

text \<open>\<^verbatim>\<open>Object::is_error\<close>.\<close>

fun is_error :: "obj \<Rightarrow> bool" where
  "is_error (OError _ _ _ _ _ _) = True"
| "is_error _ = False"

definition unless_any_error :: "obj \<Rightarrow> ('x, obj) mem_op \<Rightarrow> ('x, obj) mem_op" where
  "unless_any_error r m = (if is_error r then ret r else m)"

definition eval_assign_to :: "'x world \<Rightarrow> position \<Rightarrow> string \<Rightarrow> expr \<Rightarrow> obj \<Rightarrow> env \<Rightarrow> ('x, obj) mem_op" where
  "eval_assign_to w pos op target right env =
     (case target of
        EIdent ipos name \<Rightarrow>
          if op = ''='' then assign_ident ipos name right env
          else
            andthen (gets (\<lambda>st. env_get st env name)) (\<lambda>existing.
            case existing of
              None \<Rightarrow> ret (not_defined ipos name)
            | Some cur \<Rightarrow>
                (let combined = compound cur right op pos
                 in unless_any_error combined (assign_ident ipos name combined env)))
      | EMember mpos obj property _ \<Rightarrow>
          on_value (ev w obj env) (\<lambda>v. assign_member v (property_key (w_fmt w) property) right mpos)
      | EIndex xpos left index \<Rightarrow>
          on_value (ev w left env) (\<lambda>v.
          on_value (ev w index env) (\<lambda>key. assign_element w v key right xpos))
      | _ \<Rightarrow> ret (new_error pos ''SyntaxError: invalid assignment target''))"

text \<open>The right side comes first; a compound target that is not a name is evaluated twice.\<close>

definition eval_assign :: "'x world \<Rightarrow> position \<Rightarrow> string \<Rightarrow> expr \<Rightarrow> expr \<Rightarrow> env \<Rightarrow> ('x, obj) mem_op" where
  "eval_assign w pos op left right env =
     on_value (ev w right env) (\<lambda>r.
     if op \<noteq> ''='' \<and> (case left of EIdent _ _ \<Rightarrow> False | _ \<Rightarrow> True) then
       on_value (ev w left env) (\<lambda>current.
       let combined = compound current r op pos
       in unless_any_error combined (eval_assign_to w pos op left combined env))
     else eval_assign_to w pos op left r env)"

text \<open>
  \<^verbatim>\<open>++\<close> and \<^verbatim>\<open>--\<close>: the object and the key of the target are evaluated once to read and once more
  to write, and the errors of the write are dropped except for a name.
\<close>

definition eval_update ::
  "'x natives \<Rightarrow> 'x world \<Rightarrow> expr \<Rightarrow> string \<Rightarrow> bool \<Rightarrow> position \<Rightarrow> env \<Rightarrow> ('x, obj) mem_op" where
  "eval_update nt w target op postfix pos env =
     (let read =
        (case target of
           EIdent ipos name \<Rightarrow>
             Some (gets (\<lambda>st. case env_get st env name of Some v \<Rightarrow> Inr v | None \<Rightarrow> Inl (not_defined ipos name)))
         | EMember mpos obj property _ \<Rightarrow>
             Some (andthen (ev w obj env) (\<lambda>v.
               andthen (get_property nt (w_depth w) v (property_key (w_fmt w) property) mpos) (\<lambda>r. ret (Inr r))))
         | EIndex xpos left index \<Rightarrow>
             Some (andthen (ev w left env) (\<lambda>v.
               andthen (ev w index env) (\<lambda>key.
               andthen (get_index nt (w_fmt w) (w_depth w) (w_depth w) v key xpos) (\<lambda>r. ret (Inr r)))))
         | _ \<Rightarrow> None)
      in case read of
           None \<Rightarrow> ret (new_error pos ''SyntaxError: invalid update target'')
         | Some m \<Rightarrow>
             andthen m (\<lambda>current.
             case current of
               Inl e \<Rightarrow> ret e
             | Inr cur \<Rightarrow>
                 (case cur of
                    ONumber n \<Rightarrow>
                      (let next = ONumber (f64_add n (if op = ''--'' then f64_opp (f64_of_nat 1) else f64_of_nat 1));
                           result = (if postfix then cur else next)
                       in case target of
                            EIdent ipos name \<Rightarrow>
                              andthen (update (env_assign env name next)) (\<lambda>(found, is_const).
                              ret (if \<not> found then not_defined ipos name
                                   else if is_const then assign_to_constant ipos name
                                   else result))
                          | EMember mpos obj property _ \<Rightarrow>
                              andthen (ev w obj env) (\<lambda>v.
                              andthen (assign_member v (property_key (w_fmt w) property) next mpos) (\<lambda>_. ret result))
                          | EIndex xpos left index \<Rightarrow>
                              andthen (ev w left env) (\<lambda>v.
                              andthen (ev w index env) (\<lambda>key.
                              andthen (assign_element w v key next xpos) (\<lambda>_. ret result)))
                          | _ \<Rightarrow> ret result)
                  | _ \<Rightarrow> ret (new_error pos
                      (''TypeError: update operator requires number, got '' @ type_tag cur)))))"

section \<open>Operators\<close>

definition eval_prefix ::
  "'x natives \<Rightarrow> 'x world \<Rightarrow> position \<Rightarrow> string \<Rightarrow> expr \<Rightarrow> env \<Rightarrow> ('x, obj) mem_op" where
  "eval_prefix nt w pos op right env =
     (if op = ''++'' \<or> op = ''--'' then eval_update nt w right op False pos env
      else on_value (ev w right env) (\<lambda>v.
           ret (if op = ''delete'' then OBoolean True else apply_unary_op op v pos)))"

definition eval_infix ::
  "'x natives \<Rightarrow> 'x world \<Rightarrow> position \<Rightarrow> string \<Rightarrow> expr \<Rightarrow> expr option \<Rightarrow> env \<Rightarrow> ('x, obj) mem_op" where
  "eval_infix nt w pos op left right env =
     (case right of
        None \<Rightarrow>
          if op = ''++'' \<or> op = ''--'' then eval_update nt w left op True pos env
          else ret (new_error pos
            (''SyntaxError: '' @ quote @ op @ quote @ '' is missing its right-hand operand''))
      | Some r \<Rightarrow>
          on_value (ev w left env) (\<lambda>l.
          if op = ''&&'' then (if \<not> is_truthy l then ret l else ev w r env)
          else if op = ''||'' then (if is_truthy l then ret l else ev w r env)
          else if op = ''??'' then (if l \<noteq> ONull \<and> l \<noteq> OUndefined then ret l else ev w r env)
          else on_value (ev w r env) (\<lambda>v st. returns (apply_binary_op (w_pow w) st op l v pos) st)))"

definition eval_ternary :: "'x world \<Rightarrow> expr \<Rightarrow> expr \<Rightarrow> expr \<Rightarrow> env \<Rightarrow> ('x, obj) mem_op" where
  "eval_ternary w cond consequent alternate env =
     on_value (ev w cond env) (\<lambda>c. if is_truthy c then ev w consequent env else ev w alternate env)"

end
