(* ===== verification/Eval_Calls.thy ===== *)
theory Eval_Calls
  imports Eval_Expr
begin

text \<open>
  The tree-walking evaluator, continued: calls, members, functions, classes and \<^verbatim>\<open>await\<close>
  (\<^verbatim>\<open>evaluator/expressions.rs\<close>), \<^verbatim>\<open>match\<close> (\<^verbatim>\<open>match_eval.rs\<close>), and the dispatch \<^verbatim>\<open>eval_expr\<close>.
\<close>

section \<open>Calls and members\<close>

text \<open>Arguments that are not looked at for errors, as in \<^verbatim>\<open>super(..)\<close>, \<^verbatim>\<open>new\<close> and \<^verbatim>\<open>f?.(..)\<close>.\<close>

fun eval_all :: "'x world \<Rightarrow> expr list \<Rightarrow> env \<Rightarrow> ('x, obj list) mem_op" where
  "eval_all w [] env = ret []"
| "eval_all w (e # es) env =
     andthen (ev w e env) (\<lambda>v. andthen (eval_all w es env) (\<lambda>vs. ret (v # vs)))"

text \<open>The callee of a call with its receiver, or an error that ends the call.\<close>

definition eval_callee ::
  "'x natives \<Rightarrow> 'x world \<Rightarrow> position \<Rightarrow> expr \<Rightarrow> env \<Rightarrow> ('x, obj + obj \<times> obj option) mem_op" where
  "eval_callee nt w pos callee env =
     (case callee of
        EMember _ (ESuper spos _) property _ \<Rightarrow>
          andthen (gets (\<lambda>st. sc_this (scopes st (hd env)))) (\<lambda>this.
          andthen (get_super_method env (property_key (w_fmt w) property) spos) (\<lambda>f. ret (Inr (f, this))))
      | EMember _ object property _ \<Rightarrow>
          andthen (ev w object env) (\<lambda>v.
          if is_runtime_error v then ret (Inl v)
          else andthen (get_property nt (w_depth w) v (property_key (w_fmt w) property) pos) (\<lambda>f.
               ret (Inr (f, Some v))))
      | EIndex _ left index \<Rightarrow>
          andthen (ev w left env) (\<lambda>v.
          if is_runtime_error v then ret (Inl v)
          else
            andthen (ev w index env) (\<lambda>key.
            if is_runtime_error key then ret (Inl key)
            else andthen (get_index nt (w_fmt w) (w_depth w) (w_depth w) v key pos) (\<lambda>f.
                 ret (Inr (f, Some v)))))
      | _ \<Rightarrow> andthen (ev w callee env) (\<lambda>f. ret (Inr (f, None))))"

definition eval_call ::
  "'x natives \<Rightarrow> 'x world \<Rightarrow> 'x caller \<Rightarrow> position \<Rightarrow> expr \<Rightarrow> expr list \<Rightarrow> env \<Rightarrow> ('x, obj) mem_op" where
  "eval_call nt w call pos callee args env =
     (case callee of
        ESuper _ _ \<Rightarrow>
          andthen (eval_all w args env) (\<lambda>vs. call_super_constructor w call env vs pos)
      | _ \<Rightarrow>
          andthen (eval_callee nt w pos callee env) (\<lambda>r.
          case r of
            Inl e \<Rightarrow> ret e
          | Inr (f, this) \<Rightarrow>
              unless_error f
                (andthen (eval_elements w args env) (\<lambda>vs.
                 case vs of
                   Inl e \<Rightarrow> ret e
                 | Inr vs \<Rightarrow> apply_function w call f env vs this pos))))"

definition eval_member ::
  "'x natives \<Rightarrow> 'x world \<Rightarrow> position \<Rightarrow> expr \<Rightarrow> expr \<Rightarrow> env \<Rightarrow> ('x, obj) mem_op" where
  "eval_member nt w pos object property env =
     (case (object, property) of
        (ESuper spos _, EIdent _ name) \<Rightarrow> get_super_method env name spos
      | _ \<Rightarrow>
          on_value (ev w object env) (\<lambda>v.
          get_property nt (w_depth w) v (property_key (w_fmt w) property) pos))"

definition eval_index ::
  "'x natives \<Rightarrow> 'x world \<Rightarrow> position \<Rightarrow> expr \<Rightarrow> expr \<Rightarrow> env \<Rightarrow> ('x, obj) mem_op" where
  "eval_index nt w pos left index env =
     on_value (ev w left env) (\<lambda>v.
     on_value (ev w index env) (\<lambda>key.
     get_index nt (w_fmt w) (w_depth w) (w_depth w) v key pos))"

text \<open>The object and the key are not looked at for errors.\<close>

definition eval_optional ::
  "'x natives \<Rightarrow> 'x world \<Rightarrow> 'x caller \<Rightarrow> position \<Rightarrow> expr \<Rightarrow> expr \<Rightarrow> bool \<Rightarrow> expr list \<Rightarrow> env \<Rightarrow> ('x, obj) mem_op" where
  "eval_optional nt w call pos object property is_call args env =
     andthen (ev w object env) (\<lambda>v.
     if v = ONull \<or> v = OUndefined then ret OUndefined
     else if is_call then
       andthen (eval_all w args env) (\<lambda>vs. apply_function w call v env vs None pos)
     else case property of
            EIdent _ name \<Rightarrow> get_property nt (w_depth w) v name pos
          | _ \<Rightarrow>
              andthen (ev w property env) (\<lambda>key.
              get_index nt (w_fmt w) (w_depth w) (w_depth w) v key pos))"

definition eval_super :: "position \<Rightarrow> string \<Rightarrow> env \<Rightarrow> ('x, obj) mem_op" where
  "eval_super pos meth env = (if meth \<noteq> [] then get_super_method env meth pos else ret OUndefined)"

definition eval_new ::
  "'x world \<Rightarrow> 'x caller \<Rightarrow> position \<Rightarrow> expr \<Rightarrow> expr list \<Rightarrow> env \<Rightarrow> ('x, obj) mem_op" where
  "eval_new w call pos callee args env =
     on_value (ev w callee env) (\<lambda>f.
     andthen (eval_all w args env) (\<lambda>vs.
     case f of
       OClass c \<Rightarrow> construct_class w call c env vs pos
     | OBuiltin b \<Rightarrow> construct_builtin w b env vs pos
     | OFunction _ \<Rightarrow> apply_function w call f env vs None pos
     | OHash _ \<Rightarrow> apply_function w call f env vs None pos
     | _ \<Rightarrow> ret (new_error pos (''TypeError: '' @ type_tag f @ '' is not a constructor''))))"

text \<open>\<^verbatim>\<open>await\<close>: the VM's \<open>await_value\<close> with the rejection as the value.\<close>

definition eval_await :: "'x world \<Rightarrow> position \<Rightarrow> expr \<Rightarrow> env \<Rightarrow> ('x, obj) mem_op" where
  "eval_await w pos e env = andthen (ev w e env) (\<lambda>v. as_value (await_value w v pos))"

definition eval_dynamic_import ::
  "'x world \<Rightarrow> (program \<Rightarrow> env \<Rightarrow> ('x, obj) mem_op) \<Rightarrow> expr \<Rightarrow> env \<Rightarrow> ('x, obj) mem_op" where
  "eval_dynamic_import w run_program source env =
     andthen (case source of
                EString _ lit \<Rightarrow> in_depth (eval_string_lit lit)
              | ETemplate pos lit \<Rightarrow> eval_template w run_program pos lit env
              | _ \<Rightarrow> ret OUndefined) (\<lambda>src.
     let specifier = (case src of OString s \<Rightarrow> s | _ \<Rightarrow> [])
     in andthen (case w_importer w of
                   Some importer \<Rightarrow> host_op (importer env specifier)
                 | None \<Rightarrow> ret (Inr OUndefined)) (\<lambda>r.
        case r of
          Inl e \<Rightarrow> ret e
        | Inr module \<Rightarrow>
            update (new_promise \<lparr>p_state = Fulfilled, p_value = Some module, p_continuations = []\<rparr>)))"

section \<open>Functions and classes\<close>

definition eval_func_expr ::
  "position \<Rightarrow> string \<Rightarrow> gparam list \<Rightarrow> type_annotation option \<Rightarrow> gblock \<Rightarrow> bool \<Rightarrow> env \<Rightarrow> ('x, obj) mem_op" where
  "eval_func_expr pos name params return_t body is_async env =
     update (new_function \<lparr>f_name = name, f_params = params, f_body = body, f_env = env,
       f_is_async = is_async, f_return_t = return_t, f_pos = pos, f_lexical_this = False\<rparr>)"

definition eval_arrow ::
  "position \<Rightarrow> gparam list \<Rightarrow> type_annotation option \<Rightarrow> (expr, stmt) arrow_body \<Rightarrow> bool \<Rightarrow> env \<Rightarrow> ('x, obj) mem_op" where
  "eval_arrow pos params return_t body is_async env =
     andthen (gets (\<lambda>st. sc_this (scopes st (hd env)))) (\<lambda>captured.
     let block = (case body of AbExpr e \<Rightarrow> Block pos [SReturn pos (Some e)] | AbBlock b \<Rightarrow> b)
     in andthen (update (new_function \<lparr>f_name = [], f_params = params, f_body = block, f_env = env,
          f_is_async = is_async, f_return_t = return_t, f_pos = pos, f_lexical_this = True\<rparr>)) (\<lambda>f.
        andthen (case captured of Some t \<Rightarrow> modify (set_this env (Some t)) | None \<Rightarrow> ret ()) (\<lambda>_. ret f)))"

text \<open>The tree walker's classes have functions for methods; fields are evaluated when the class is built.\<close>

definition eval_member_decl ::
  "'x world \<Rightarrow> env \<Rightarrow> (expr, stmt) class_member \<Rightarrow> class_data \<Rightarrow> ('x, class_data) mem_op" where
  "eval_member_decl w env m cls =
     (case cm_kind m of
        CmField \<Rightarrow>
          andthen (case cm_default_val m of
                     Some e \<Rightarrow> andthen (ev w e env) checked
                   | None \<Rightarrow> ret OUndefined) (\<lambda>v.
          ret (if cm_is_static m
               then cls\<lparr>c_statics := (c_statics cls)(cm_name m \<mapsto> v),
                        c_static_types := (case cm_type m of Some t \<Rightarrow> (c_static_types cls)(cm_name m \<mapsto> t)
                                                          | None \<Rightarrow> c_static_types cls)\<rparr>
               else cls\<lparr>c_fields := (c_fields cls)(cm_name m \<mapsto> v),
                        c_field_types := (case cm_type m of Some t \<Rightarrow> (c_field_types cls)(cm_name m \<mapsto> t)
                                                         | None \<Rightarrow> c_field_types cls)\<rparr>))
      | _ \<Rightarrow>
          (case cm_body m of
             None \<Rightarrow> ret cls
           | Some body \<Rightarrow>
               andthen (eval_func_expr (cm_pos m) (cm_name m) (cm_params m) (cm_type m) body (cm_is_async m) env) (\<lambda>f.
               ret (if cm_is_static m then cls\<lparr>c_statics := (c_statics cls)(cm_name m \<mapsto> f)\<rparr>
                    else cls\<lparr>c_methods := (c_methods cls)(cm_name m \<mapsto> f)\<rparr>))))"

fun eval_member_decls ::
  "'x world \<Rightarrow> env \<Rightarrow> (expr, stmt) class_member list \<Rightarrow> class_data \<Rightarrow> ('x, class_data) mem_op" where
  "eval_member_decls w env [] cls = ret cls"
| "eval_member_decls w env (m # ms) cls = andthen (eval_member_decl w env m cls) (eval_member_decls w env ms)"

text \<open>The superclass part is the same code as the VM's, so \<open>build_super\<close> is used again.\<close>

definition eval_class :: "'x world \<Rightarrow> gclass \<Rightarrow> env \<Rightarrow> ('x, obj) mem_op" where
  "eval_class w decl env =
     andthen (build_super w decl env (blank_class (cd_name decl) (cd_pos decl))) (\<lambda>cls.
     andthen (eval_member_decls w env (cd_members decl) cls) (\<lambda>cls.
     andthen (update (new_class cls)) (\<lambda>a. ret (OClass a))))"

section \<open>Match\<close>

text \<open>Literals and bounds of ranges are evaluated in a scope of their own without a parent.\<close>

fun match_pattern :: "'x world \<Rightarrow> expr pattern \<Rightarrow> obj \<Rightarrow> env \<Rightarrow> ('x, bool) mem_op" where
  "match_pattern w (PLiteral _ e) v scope =
     andthen (update new_root) (\<lambda>empty. andthen (ev w e empty) (\<lambda>x. ret (strict_equal x v)))"
| "match_pattern w (PIdent _ name) v scope = andthen (modify (set_here scope name v)) (\<lambda>_. ret True)"
| "match_pattern w (PWildcard _) v scope = ret True"
| "match_pattern w (POr _ []) v scope = ret False"
| "match_pattern w (POr pos (p # ps)) v scope =
     andthen (match_pattern w p v scope) (\<lambda>hit. if hit then ret True else match_pattern w (POr pos ps) v scope)"
| "match_pattern w (PRange _ low high inclusive) v scope =
     andthen (update new_root) (\<lambda>empty.
     andthen (ev w low empty) (\<lambda>a.
     andthen (ev w high empty) (\<lambda>b.
     ret (case (v, a, b) of
            (ONumber x, ONumber s, ONumber e) \<Rightarrow>
              (f64_lt s x \<or> f64_eq s x) \<and> (f64_lt x e \<or> inclusive \<and> f64_eq x e)
          | _ \<Rightarrow> False))))"

fun eval_arms ::
  "'x world \<Rightarrow> position \<Rightarrow> obj \<Rightarrow> (expr, stmt) match_arm list \<Rightarrow> env \<Rightarrow> ('x, obj) mem_op" where
  "eval_arms w pos subject [] env =
     andthen (inspect_op (w_fmt w) (w_depth w) subject) (\<lambda>s.
     ret (new_error pos (''MatchError: no arm matched for '' @ s)))"
| "eval_arms w pos subject (arm # arms) env =
     andthen (update (env_child env)) (\<lambda>scope.
     andthen (match_pattern w (arm_pattern arm) subject scope) (\<lambda>hit.
     if \<not> hit then eval_arms w pos subject arms env
     else
       andthen (modify (if arm_binding_name arm = [] then (\<lambda>st. st)
                        else set_here scope (arm_binding_name arm) subject)) (\<lambda>_.
       andthen (case arm_guard arm of
                  Some g \<Rightarrow> andthen (ev w g scope) (\<lambda>v. ret (is_truthy v))
                | None \<Rightarrow> ret True) (\<lambda>pass.
       if \<not> pass then eval_arms w pos subject arms env
       else case arm_body arm of
              MbExpr e \<Rightarrow> ev w e scope
            | MbBlock b \<Rightarrow> host_op (w_eval_block w b scope)))))"

definition eval_match ::
  "'x world \<Rightarrow> position \<Rightarrow> expr \<Rightarrow> (expr, stmt) match_arm list \<Rightarrow> env \<Rightarrow> ('x, obj) mem_op" where
  "eval_match w pos e arms env = on_value (ev w e env) (\<lambda>subject. eval_arms w pos subject arms env)"

section \<open>Dispatch\<close>

definition eval_expr_step ::
  "'x natives \<Rightarrow> 'x world \<Rightarrow> 'x caller \<Rightarrow> (program \<Rightarrow> env \<Rightarrow> ('x, obj) mem_op) \<Rightarrow> expr \<Rightarrow> env \<Rightarrow> ('x, obj) mem_op" where
  "eval_expr_step nt w call run_program e env =
     in_time w (expr_pos e)
       (case e of
          EIdent pos name \<Rightarrow> eval_ident pos name env
        | EDynamicImport _ source \<Rightarrow> eval_dynamic_import w run_program source env
        | ENumber _ _ n _ \<Rightarrow> ret (ONumber n)
        | EString _ lit \<Rightarrow> in_depth (eval_string_lit lit)
        | ETemplate pos lit \<Rightarrow> eval_template w run_program pos lit env
        | ERegexp pos lit \<Rightarrow> ret (eval_regexp_lit (h_regex_ok (w_compiler w)) pos lit)
        | EBool _ b \<Rightarrow> ret (OBoolean b)
        | ENull _ \<Rightarrow> ret ONull
        | EUndefined _ \<Rightarrow> ret OUndefined
        | EThis _ \<Rightarrow> gets (\<lambda>st. case sc_this (scopes st (hd env)) of Some v \<Rightarrow> v | None \<Rightarrow> OUndefined)
        | ESuper pos meth \<Rightarrow> eval_super pos meth env
        | EArray _ es \<Rightarrow> eval_array w es env
        | EObject _ ps \<Rightarrow> eval_object_lit w ps env
        | EPrefix pos op right \<Rightarrow> eval_prefix nt w pos op right env
        | EInfix pos op left right \<Rightarrow> eval_infix nt w pos op left right env
        | ETernary _ c a b \<Rightarrow> eval_ternary w c a b env
        | EAssign pos op left right \<Rightarrow> eval_assign w pos op left right env
        | ECall pos callee args \<Rightarrow> eval_call nt w call pos callee args env
        | EMember pos object property _ \<Rightarrow> eval_member nt w pos object property env
        | EIndex pos left index \<Rightarrow> eval_index nt w pos left index env
        | EOptional pos object property _ is_call args \<Rightarrow>
            eval_optional nt w call pos object property is_call args env
        | EFunc pos name params return_t body is_async \<Rightarrow>
            eval_func_expr pos name params return_t body is_async env
        | EArrow pos params return_t body is_async \<Rightarrow> eval_arrow pos params return_t body is_async env
        | ENew pos callee args \<Rightarrow> eval_new w call pos callee args env
        | EAwait pos x \<Rightarrow> eval_await w pos x env
        | ESpread _ x \<Rightarrow> ev w x env
        | EMatch pos x arms \<Rightarrow> eval_match w pos x arms env
        | EClass decl \<Rightarrow> as_value (eval_class w decl env))"

end
