(* ===== verification/Eval_Stmt.thy ===== *)
theory Eval_Stmt
  imports Eval_Calls
begin

text \<open>
  The tree-walking evaluator on statements and programs
  (\<^verbatim>\<open>crates/night24-gts/src/evaluator/eval_core.rs\<close>). A statement returns an object: a \<^verbatim>\<open>Return\<close>
  object leaves the function, and \<^verbatim>\<open>break\<close> and \<^verbatim>\<open>continue\<close> are \<^verbatim>\<open>Return\<close> objects around an error
  whose message is a signal. \<open>es\<close> is the recursive \<^verbatim>\<open>eval_stmt\<close>; a loop has a number of turns,
  at the end of which it counts as not returning.
\<close>

type_synonym 'x executor = "stmt \<Rightarrow> env \<Rightarrow> ('x, obj) mem_op"

section \<open>Signals and blocks\<close>

definition break_signal :: string where
  "break_signal = ''__break__''"

definition continue_signal :: string where
  "continue_signal = ''__continue__''"

definition control_signal :: "obj \<Rightarrow> string option" where
  "control_signal v =
     (case (case v of OReturn r \<Rightarrow> r | _ \<Rightarrow> v) of
        OError message _ _ _ _ _ \<Rightarrow>
          if message = break_signal then Some break_signal
          else if message = continue_signal then Some continue_signal
          else None
      | _ \<Rightarrow> None)"

fun stmt_pos :: "stmt \<Rightarrow> position" where
  "stmt_pos (SLet p _ _ _ _) = p"
| "stmt_pos (SConst p _ _ _ _) = p"
| "stmt_pos (SVar p _ _ _ _) = p"
| "stmt_pos (SFuncDecl p _ _ _ _ _) = p"
| "stmt_pos (SClassDecl d) = cd_pos d"
| "stmt_pos (SBlock b) = block_pos b"
| "stmt_pos (SIf p _ _ _) = p"
| "stmt_pos (SWhile p _ _) = p"
| "stmt_pos (SFor p _ _ _ _) = p"
| "stmt_pos (SForIn p _ _ _) = p"
| "stmt_pos (SForOf p _ _ _) = p"
| "stmt_pos (SReturn p _) = p"
| "stmt_pos (SBreak p _) = p"
| "stmt_pos (SContinue p _) = p"
| "stmt_pos (SThrow p _) = p"
| "stmt_pos (STry p _ _ _) = p"
| "stmt_pos (SExpr p _) = p"
| "stmt_pos (SLabeled p _ _) = p"
| "stmt_pos (SImport p _ _ _ _ _) = p"
| "stmt_pos (SExport p _ _ _ _ _) = p"

fun eval_statements :: "'x world \<Rightarrow> 'x executor \<Rightarrow> obj \<Rightarrow> stmt list \<Rightarrow> env \<Rightarrow> ('x, obj) mem_op" where
  "eval_statements w es result [] env = ret result"
| "eval_statements w es result (s # ss) env =
     in_time w (stmt_pos s)
       (andthen (es s env) (\<lambda>r.
        case r of
          OReturn _ \<Rightarrow> ret r
        | _ \<Rightarrow> if is_runtime_error r \<and> control_signal r = None then ret r
               else eval_statements w es r ss env))"

definition eval_block :: "'x world \<Rightarrow> 'x executor \<Rightarrow> gblock \<Rightarrow> env \<Rightarrow> ('x, obj) mem_op" where
  "eval_block w es b env = eval_statements w es OUndefined (block_statements b) env"

definition eval_scoped_block :: "'x world \<Rightarrow> 'x executor \<Rightarrow> gblock \<Rightarrow> env \<Rightarrow> ('x, obj) mem_op" where
  "eval_scoped_block w es b env = andthen (update (env_child env)) (eval_block w es b)"

section \<open>Declarations\<close>

definition bind_declared ::
  "bool \<Rightarrow> env \<Rightarrow> string \<Rightarrow> obj \<Rightarrow> type_annotation option \<Rightarrow> 'x store \<Rightarrow> 'x store" where
  "bind_declared is_const env name v anno =
     (if is_const then set_typed_const env name v anno else set_typed env name v anno)"

text \<open>A default applies where the source has \<^verbatim>\<open>undefined\<close>; its errors are bound like values.\<close>

definition with_default :: "'x world \<Rightarrow> env \<Rightarrow> expr option \<Rightarrow> obj \<Rightarrow> ('x, obj) mem_op" where
  "with_default w env def v =
     (if v = OUndefined then (case def of Some e \<Rightarrow> ev w e env | None \<Rightarrow> ret v) else ret v)"

fun destructure_array ::
  "'x natives \<Rightarrow> 'x world \<Rightarrow> (string \<Rightarrow> obj \<Rightarrow> 'x store \<Rightarrow> 'x store) \<Rightarrow> env \<Rightarrow> obj \<Rightarrow> nat
   \<Rightarrow> expr array_binding_elem list \<Rightarrow> ('x, unit) mem_op" where
  "destructure_array nt w bind env src i [] = ret ()"
| "destructure_array nt w bind env src i (e # es) =
     (if abe_is_rest e then
        andthen (gets (\<lambda>st. case src of OArray a \<Rightarrow> drop i (arrays st a) | _ \<Rightarrow> [])) (\<lambda>tail.
        andthen (update (new_array tail)) (\<lambda>v. modify (bind (abe_name e) v)))
      else if abe_name e = [] then destructure_array nt w bind env src (i + 1) es
      else
        andthen (get_index nt (w_fmt w) (w_depth w) (w_depth w) src (ONumber (f64_of_nat i)) default_pos) (\<lambda>v.
        andthen (with_default w env (abe_default e) v) (\<lambda>v.
        andthen (modify (bind (abe_name e) v)) (\<lambda>_.
        destructure_array nt w bind env src (i + 1) es))))"

fun destructure_object ::
  "'x natives \<Rightarrow> 'x world \<Rightarrow> (string \<Rightarrow> obj \<Rightarrow> 'x store \<Rightarrow> 'x store) \<Rightarrow> env \<Rightarrow> obj
   \<Rightarrow> expr object_binding_elem list \<Rightarrow> ('x, unit) mem_op" where
  "destructure_object nt w bind env src [] = ret ()"
| "destructure_object nt w bind env src (e # es) =
     andthen (get_property nt (w_depth w) src (obe_key e) default_pos) (\<lambda>v.
     andthen (with_default w env (obe_default e) v) (\<lambda>v.
     andthen (modify (bind (obe_target e) v)) (\<lambda>_.
     destructure_object nt w bind env src es)))"

definition eval_destructure ::
  "'x natives \<Rightarrow> 'x world \<Rightarrow> expr binding_pattern \<Rightarrow> expr option \<Rightarrow> type_annotation option \<Rightarrow> bool \<Rightarrow> env
   \<Rightarrow> ('x, obj) mem_op" where
  "eval_destructure nt w pattern value anno is_const env =
     on_value (case value of Some e \<Rightarrow> ev w e env | None \<Rightarrow> ret OUndefined) (\<lambda>src.
     let bind = (\<lambda>name v. bind_declared is_const env name v anno)
     in andthen (case pattern of
                   BpArray es \<Rightarrow> destructure_array nt w bind env src 0 es
                 | BpObject es \<Rightarrow> destructure_object nt w bind env src es) (\<lambda>_. ret OUndefined))"

text \<open>\<^verbatim>\<open>eval_let\<close>, \<^verbatim>\<open>eval_var\<close> and, with \<open>is_const\<close>, \<^verbatim>\<open>eval_const\<close>.\<close>

definition eval_decl ::
  "'x natives \<Rightarrow> 'x world \<Rightarrow> bool \<Rightarrow> string \<Rightarrow> expr binding_pattern option \<Rightarrow> type_annotation option
   \<Rightarrow> expr option \<Rightarrow> env \<Rightarrow> ('x, obj) mem_op" where
  "eval_decl nt w is_const name pattern anno value env =
     (case pattern of
        Some p \<Rightarrow> eval_destructure nt w p value anno is_const env
      | None \<Rightarrow>
          on_value (case value of Some e \<Rightarrow> ev w e env | None \<Rightarrow> ret OUndefined) (\<lambda>v.
          andthen (modify (bind_declared is_const env name v anno)) (\<lambda>_. ret OUndefined)))"

definition eval_func_decl ::
  "position \<Rightarrow> string \<Rightarrow> gparam list \<Rightarrow> type_annotation option \<Rightarrow> gblock \<Rightarrow> bool \<Rightarrow> env \<Rightarrow> ('x, obj) mem_op" where
  "eval_func_decl pos name params return_t body is_async env =
     andthen (eval_func_expr pos name params return_t body is_async env) (\<lambda>f.
     andthen (modify (set_here env name f)) (\<lambda>_. ret f))"

definition eval_class_decl :: "'x world \<Rightarrow> gclass \<Rightarrow> env \<Rightarrow> ('x, obj) mem_op" where
  "eval_class_decl w decl env =
     as_value (andthen (eval_class w decl env) (\<lambda>c.
       andthen (modify (if cd_name decl = [] then (\<lambda>st. st) else set_here env (cd_name decl) c)) (\<lambda>_. ret c)))"

section \<open>Control flow\<close>

definition eval_if ::
  "'x world \<Rightarrow> 'x executor \<Rightarrow> expr \<Rightarrow> gblock \<Rightarrow> stmt option \<Rightarrow> env \<Rightarrow> ('x, obj) mem_op" where
  "eval_if w es cond consequence alternative env =
     on_value (ev w cond env) (\<lambda>c.
     if is_truthy c then eval_scoped_block w es consequence env
     else case alternative of
            Some alt \<Rightarrow> andthen (update (env_child env)) (es alt)
          | None \<Rightarrow> ret OUndefined)"

text \<open>What a loop does with the result of its body: leave it, go on, or return the result.\<close>

datatype turn = Leave | Next | Give obj

definition loop_turn :: "obj \<Rightarrow> turn" where
  "loop_turn r =
     (case r of
        OReturn x \<Rightarrow>
          (case control_signal x of
             Some signal \<Rightarrow> if signal = break_signal then Leave else Next
           | None \<Rightarrow> Give r)
      | _ \<Rightarrow> if is_runtime_error r then Give r else Next)"

fun eval_while :: "'x world \<Rightarrow> 'x executor \<Rightarrow> nat \<Rightarrow> position \<Rightarrow> expr \<Rightarrow> gblock \<Rightarrow> env \<Rightarrow> ('x, obj) mem_op" where
  "eval_while w es 0 pos cond body env = err Diverges"
| "eval_while w es (Suc n) pos cond body env =
     in_time w pos
       (on_value (ev w cond env) (\<lambda>c.
        if \<not> is_truthy c then ret OUndefined
        else
          andthen (eval_scoped_block w es body env) (\<lambda>r.
          case loop_turn r of
            Leave \<Rightarrow> ret OUndefined
          | Next \<Rightarrow> eval_while w es n pos cond body env
          | Give v \<Rightarrow> ret v)))"

text \<open>The loop of \<^verbatim>\<open>eval_for\<close>; the value of the step expression is dropped, errors included.\<close>

fun eval_for_loop ::
  "'x world \<Rightarrow> 'x executor \<Rightarrow> nat \<Rightarrow> position \<Rightarrow> expr option \<Rightarrow> expr option \<Rightarrow> gblock \<Rightarrow> env \<Rightarrow> ('x, obj) mem_op" where
  "eval_for_loop w es 0 pos cond post body scope = err Diverges"
| "eval_for_loop w es (Suc n) pos cond post body scope =
     in_time w pos
       (on_value (case cond of Some c \<Rightarrow> ev w c scope | None \<Rightarrow> ret (OBoolean True)) (\<lambda>c.
        if \<not> is_truthy c then ret OUndefined
        else
          andthen (eval_scoped_block w es body scope) (\<lambda>r.
          case loop_turn r of
            Leave \<Rightarrow> ret OUndefined
          | Next \<Rightarrow>
              andthen (case post of Some p \<Rightarrow> andthen (ev w p scope) (\<lambda>_. ret ()) | None \<Rightarrow> ret ()) (\<lambda>_.
              eval_for_loop w es n pos cond post body scope)
          | Give v \<Rightarrow> ret v)))"

definition eval_for ::
  "'x world \<Rightarrow> 'x executor \<Rightarrow> nat \<Rightarrow> position \<Rightarrow> stmt option \<Rightarrow> expr option \<Rightarrow> expr option \<Rightarrow> gblock \<Rightarrow> env
   \<Rightarrow> ('x, obj) mem_op" where
  "eval_for w es n pos init cond post body env =
     andthen (update (env_child env)) (\<lambda>scope.
     on_value (case init of Some i \<Rightarrow> es i scope | None \<Rightarrow> ret OUndefined) (\<lambda>_.
     eval_for_loop w es n pos cond post body scope))"

text \<open>The turns of \<^verbatim>\<open>eval_for_in\<close> over the keys, which are read before the first turn.\<close>

fun eval_keys ::
  "'x world \<Rightarrow> 'x executor \<Rightarrow> position \<Rightarrow> string \<Rightarrow> gblock \<Rightarrow> string list \<Rightarrow> env \<Rightarrow> ('x, obj) mem_op" where
  "eval_keys w es pos name body [] scope = ret OUndefined"
| "eval_keys w es pos name body (k # ks) scope =
     in_time w pos
       (andthen (modify (set_here scope name (OString k))) (\<lambda>_.
        andthen (eval_scoped_block w es body scope) (\<lambda>r.
        case loop_turn r of
          Leave \<Rightarrow> ret OUndefined
        | Next \<Rightarrow> eval_keys w es pos name body ks scope
        | Give v \<Rightarrow> ret v)))"

definition eval_for_in ::
  "'x world \<Rightarrow> 'x executor \<Rightarrow> position \<Rightarrow> string \<Rightarrow> expr \<Rightarrow> gblock \<Rightarrow> env \<Rightarrow> ('x, obj) mem_op" where
  "eval_for_in w es pos name iterable body env =
     on_value (ev w iterable env) (\<lambda>v.
     andthen (\<lambda>st. in_depth (iterable_keys (w_fmt w) (w_depth w) st v) st) (\<lambda>keys.
     andthen (update (env_child env)) (\<lambda>scope.
     eval_keys w es pos name body keys scope)))"

fun eval_for_of_loop ::
  "'x natives \<Rightarrow> 'x world \<Rightarrow> 'x caller \<Rightarrow> 'x executor \<Rightarrow> nat \<Rightarrow> position \<Rightarrow> string \<Rightarrow> obj \<Rightarrow> gblock
   \<Rightarrow> env \<Rightarrow> env \<Rightarrow> ('x, obj) mem_op" where
  "eval_for_of_loop nt w call es 0 pos name iterator body env scope = err Diverges"
| "eval_for_of_loop nt w call es (Suc n) pos name iterator body env scope =
     in_time w pos
       (on_value (iterator_next w call iterator env pos) (\<lambda>record.
        on_value (get_property nt (w_depth w) record ''done'' pos) (\<lambda>finished.
        if is_truthy finished then ret OUndefined
        else
          on_value (get_property nt (w_depth w) record ''value'' pos) (\<lambda>v.
          andthen (modify (set_here scope name v)) (\<lambda>_.
          andthen (eval_scoped_block w es body scope) (\<lambda>r.
          case loop_turn r of
            Leave \<Rightarrow> ret OUndefined
          | Next \<Rightarrow> eval_for_of_loop nt w call es n pos name iterator body env scope
          | Give x \<Rightarrow> ret x))))))"

definition eval_for_of ::
  "'x natives \<Rightarrow> 'x world \<Rightarrow> 'x caller \<Rightarrow> 'x executor \<Rightarrow> nat \<Rightarrow> position \<Rightarrow> string \<Rightarrow> expr \<Rightarrow> gblock \<Rightarrow> env
   \<Rightarrow> ('x, obj) mem_op" where
  "eval_for_of nt w call es n pos name iterable body env =
     on_value (ev w iterable env) (\<lambda>v.
     on_value (get_iterator w call v env pos) (\<lambda>iterator.
     andthen (update (env_child env)) (\<lambda>scope.
     eval_for_of_loop nt w call es n pos name iterator body env scope)))"

definition eval_return :: "'x world \<Rightarrow> expr option \<Rightarrow> env \<Rightarrow> ('x, obj) mem_op" where
  "eval_return w value env =
     (case value of
        None \<Rightarrow> ret (OReturn OUndefined)
      | Some e \<Rightarrow> on_value (ev w e env) (\<lambda>v. ret (OReturn v)))"

text \<open>\<^verbatim>\<open>break\<close> and \<^verbatim>\<open>continue\<close> carry no label.\<close>

definition signal_value :: "position \<Rightarrow> string \<Rightarrow> obj" where
  "signal_value pos signal = OReturn (new_error pos (''SyntaxError: '' @ signal))"

section \<open>Exceptions\<close>

fun is_return :: "obj \<Rightarrow> bool" where
  "is_return (OReturn _) = True"
| "is_return _ = False"

definition eval_throw :: "'x world \<Rightarrow> position \<Rightarrow> expr \<Rightarrow> env \<Rightarrow> ('x, obj) mem_op" where
  "eval_throw w pos e env =
     on_value (ev w e env) (\<lambda>v.
     case v of
       OError message name stack _ epos thrown \<Rightarrow>
         ret (OError message name
           (if stack = [] then error_stack pos name message else stack) True
           (if pos_is_zero epos then pos else epos) thrown)
     | _ \<Rightarrow>
         andthen (inspect_op (w_fmt w) (w_depth w) v) (\<lambda>s.
         ret (case new_named_error pos ''Error'' s of
                OError message name stack runtime epos _ \<Rightarrow> OError message name stack runtime epos (Some v)
              | other \<Rightarrow> other)))"

definition eval_try ::
  "'x world \<Rightarrow> 'x executor \<Rightarrow> gblock \<Rightarrow> stmt catch_clause option \<Rightarrow> gblock option \<Rightarrow> env \<Rightarrow> ('x, obj) mem_op" where
  "eval_try w es body handler finalizer env =
     andthen (eval_scoped_block w es body env) (\<lambda>r.
     andthen (case handler of
                None \<Rightarrow> ret r
              | Some c \<Rightarrow>
                  if \<not> is_runtime_error r then ret r
                  else
                    andthen (update (env_child env)) (\<lambda>scope.
                    andthen (modify (if catch_name c = [] then (\<lambda>st. st)
                             else set_here scope (catch_name c)
                               (case r of OError message name stack _ epos thrown \<Rightarrow>
                                  OError message name stack False epos thrown | _ \<Rightarrow> r))) (\<lambda>_.
                    eval_block w es (catch_body c) scope))) (\<lambda>result.
     case finalizer of
       None \<Rightarrow> ret result
     | Some f \<Rightarrow>
         andthen (eval_scoped_block w es f env) (\<lambda>fr.
         ret (if is_return fr \<or> is_runtime_error fr then fr else result))))"

end
