(* ===== verification/Evaluator.thy ===== *)
theory Evaluator
  imports Eval_Stmt
begin

text \<open>
  Modules, programs and the dispatch of statements of the tree-walking evaluator
  (\<^verbatim>\<open>crates/night24-gts/src/evaluator/eval_core.rs\<close>), and the knot: \<open>world_at\<close> is the world whose
  evaluator, property lookup, constructors and async functions are those of the model instead
  of arguments. Each entry into \<^verbatim>\<open>eval_expr\<close> or \<^verbatim>\<open>eval_stmt\<close> costs one unit of depth; without any
  left the computation counts as not returning.

  Scripts run on the VM; it enters the tree walker for the defaults of parameters and of class
  fields and for superclass expressions, and everything those expressions call.
\<close>

section \<open>Modules\<close>

definition get_member :: "obj \<Rightarrow> string \<Rightarrow> position \<Rightarrow> 'x store \<Rightarrow> obj" where
  "get_member v name pos st =
     (case v of
        OHash a \<Rightarrow> (case hash_get name (hashes st a) of Some x \<Rightarrow> x | None \<Rightarrow> OUndefined)
      | _ \<Rightarrow> new_error pos (''TypeError: cannot read property '' @ quote @ name @ quote @ '' of '' @ type_tag v))"

definition set_member :: "obj \<Rightarrow> string \<Rightarrow> obj \<Rightarrow> 'x store \<Rightarrow> 'x store" where
  "set_member target name v st = (case target of OHash a \<Rightarrow> set_entry a name v st | _ \<Rightarrow> st)"

definition load_module :: "'x world \<Rightarrow> position \<Rightarrow> string \<Rightarrow> env \<Rightarrow> ('x, obj + obj) mem_op" where
  "load_module w pos source env =
     (case w_importer w of
        Some importer \<Rightarrow> host_op (importer env (strip_quotes source))
      | None \<Rightarrow> ret (Inl (new_error pos ''ImportError: module loading is not configured'')))"

definition bind_imported :: "obj \<Rightarrow> position \<Rightarrow> env \<Rightarrow> string \<times> string \<Rightarrow> 'x store \<Rightarrow> 'x store" where
  "bind_imported module pos env = (\<lambda>(name, alias) st. set_here env alias (get_member module name pos st) st)"

definition eval_import ::
  "'x world \<Rightarrow> position \<Rightarrow> string \<Rightarrow> string \<Rightarrow> string list \<Rightarrow> (string \<times> string) list \<Rightarrow> string \<Rightarrow> env \<Rightarrow> ('x, obj) mem_op" where
  "eval_import w pos deflt namespace names aliases source env =
     andthen (load_module w pos source env) (\<lambda>r.
     case r of
       Inl e \<Rightarrow> ret e
     | Inr module \<Rightarrow>
         andthen (modify (if deflt = [] then (\<lambda>st. st) else bind_imported module pos env (''default'', deflt))) (\<lambda>_.
         andthen (modify (if namespace = [] then (\<lambda>st. st) else set_here env namespace module)) (\<lambda>_.
         andthen (modify (fold (\<lambda>name. bind_imported module pos env (name, name)) names)) (\<lambda>_.
         andthen (modify (fold (bind_imported module pos env) aliases)) (\<lambda>_. ret OUndefined)))))"

text \<open>An exported default expression is evaluated as a statement and once more for its value.\<close>

definition export_declared ::
  "'x world \<Rightarrow> obj \<Rightarrow> bool \<Rightarrow> stmt \<Rightarrow> env \<Rightarrow> ('x, unit) mem_op" where
  "export_declared w exports is_default decl env =
     (case exported_decl_name decl of
        Some name \<Rightarrow>
          modify (\<lambda>st. set_member exports name (case env_get st env name of Some v \<Rightarrow> v | None \<Rightarrow> OUndefined) st)
      | None \<Rightarrow>
          (case decl of
             SExpr _ e \<Rightarrow>
               if is_default then andthen (ev w e env) (\<lambda>v. modify (set_member exports ''default'' v))
               else ret ()
           | _ \<Rightarrow> ret ()))"

definition export_spec_value :: "obj \<Rightarrow> env \<Rightarrow> export_spec \<Rightarrow> 'x store \<Rightarrow> 'x store" where
  "export_spec_value exports env spec st =
     set_member exports (es_alias spec)
       (case env_get st env (es_name spec) of Some v \<Rightarrow> v | None \<Rightarrow> OUndefined) st"

definition eval_export ::
  "'x world \<Rightarrow> 'x executor \<Rightarrow> position \<Rightarrow> bool \<Rightarrow> stmt option \<Rightarrow> export_spec list \<Rightarrow> string \<Rightarrow> env \<Rightarrow> ('x, obj) mem_op" where
  "eval_export w es pos is_default decl specs source env =
     andthen (gets (\<lambda>st. case env_get st env ''exports'' of Some v \<Rightarrow> v | None \<Rightarrow> OUndefined)) (\<lambda>exports.
     if source \<noteq> [] then
       andthen (load_module w pos source env) (\<lambda>r.
       case r of
         Inl e \<Rightarrow> ret e
       | Inr module \<Rightarrow>
           andthen (modify (fold (\<lambda>spec st.
             set_member exports (es_alias spec) (get_member module (es_name spec) pos st) st) specs)) (\<lambda>_.
           ret OUndefined))
     else
       on_value (case decl of
                   None \<Rightarrow> ret OUndefined
                 | Some d \<Rightarrow>
                     on_value (es d env) (\<lambda>_.
                     andthen (export_declared w exports is_default d env) (\<lambda>_. ret OUndefined))) (\<lambda>_.
       andthen (modify (fold (export_spec_value exports env) specs)) (\<lambda>_. ret OUndefined)))"

section \<open>Programs\<close>

text \<open>A signal that reaches the top of the program becomes an error.\<close>

definition program_result :: "obj \<Rightarrow> obj" where
  "program_result r =
     (case r of
        OError message _ _ _ pos _ \<Rightarrow>
          if message = break_signal then new_error pos ''SyntaxError: break outside loop''
          else if message = continue_signal then new_error pos ''SyntaxError: continue outside loop''
          else r
      | _ \<Rightarrow> r)"

fun eval_body :: "'x world \<Rightarrow> 'x executor \<Rightarrow> obj \<Rightarrow> stmt list \<Rightarrow> env \<Rightarrow> ('x, obj) mem_op" where
  "eval_body w es result [] env = ret result"
| "eval_body w es result (s # ss) env =
     in_time w (stmt_pos s)
       (andthen (es s env) (\<lambda>r.
        case r of
          OReturn x \<Rightarrow> ret (program_result x)
        | _ \<Rightarrow> unless_error r (eval_body w es r ss env)))"

definition eval_program :: "'x world \<Rightarrow> 'x executor \<Rightarrow> program \<Rightarrow> env \<Rightarrow> ('x, obj) mem_op" where
  "eval_program w es prog env = eval_body w es OUndefined (prog_body prog) env"

section \<open>Dispatch\<close>

definition eval_stmt_step ::
  "'x natives \<Rightarrow> 'x world \<Rightarrow> 'x caller \<Rightarrow> 'x executor \<Rightarrow> nat \<Rightarrow> stmt \<Rightarrow> env \<Rightarrow> ('x, obj) mem_op" where
  "eval_stmt_step nt w call es n s env =
     in_time w (stmt_pos s)
       (case s of
          SLet _ name pattern anno value \<Rightarrow> eval_decl nt w False name pattern anno value env
        | SConst _ name pattern anno value \<Rightarrow> eval_decl nt w True name pattern anno value env
        | SVar _ name pattern anno value \<Rightarrow> eval_decl nt w False name pattern anno value env
        | SBlock b \<Rightarrow> eval_scoped_block w es b env
        | SIf _ cond consequence alternative \<Rightarrow> eval_if w es cond consequence alternative env
        | SWhile pos cond body \<Rightarrow> eval_while w es n pos cond body env
        | SFor pos init cond post body \<Rightarrow> eval_for w es n pos init cond post body env
        | SForIn pos name iterable body \<Rightarrow> eval_for_in w es pos name iterable body env
        | SForOf pos name iterable body \<Rightarrow> eval_for_of nt w call es n pos name iterable body env
        | SReturn _ value \<Rightarrow> eval_return w value env
        | SBreak pos _ \<Rightarrow> ret (signal_value pos break_signal)
        | SContinue pos _ \<Rightarrow> ret (signal_value pos continue_signal)
        | SThrow pos e \<Rightarrow> eval_throw w pos e env
        | STry _ body handler finalizer \<Rightarrow> eval_try w es body handler finalizer env
        | SExpr _ e \<Rightarrow> ev w e env
        | SLabeled _ _ inner \<Rightarrow> es inner env
        | SFuncDecl pos name params return_t body is_async \<Rightarrow>
            eval_func_decl pos name params return_t body is_async env
        | SClassDecl decl \<Rightarrow> eval_class_decl w decl env
        | SImport pos deflt namespace names aliases source \<Rightarrow>
            eval_import w pos deflt namespace names aliases source env
        | SExport pos is_default _ decl specs source \<Rightarrow>
            eval_export w es pos is_default decl specs source env)"

section \<open>The knot\<close>

text \<open>An operation of the model as an operation of the world; an \<^verbatim>\<open>Err\<close> is the error object.\<close>

definition host_of :: "('x, obj) mem_op \<Rightarrow> ('x, obj) host_fun" where
  "host_of m = (\<lambda>st. case m st of
     (Inr v, t) \<Rightarrow> (Done v, t)
   | (Inl (Thrown e), t) \<Rightarrow> (Done e, t)
   | (Inl Panic, t) \<Rightarrow> (HostPanic, t)
   | (Inl Diverges, t) \<Rightarrow> (HostDiverges, t))"

lemma host_op_of: "host_op (host_of m) = as_value m"
  by (rule ext) (auto simp: host_op_def host_of_def as_value_def split: prod.splits sum.splits run_err.splits)

text \<open>The closures of the VM, called from the tree walker.\<close>

definition vm_caller :: "'x world \<Rightarrow> nat \<Rightarrow> 'x caller" where
  "vm_caller w n = call_closure_impl w (interpret_with_upvalues w n)"

definition with_evaluator :: "'x natives \<Rightarrow> 'x world \<Rightarrow> 'x executor \<Rightarrow> nat \<Rightarrow> 'x world \<Rightarrow> 'x world" where
  "with_evaluator nt v es n w =
     w\<lparr>w_eval_expr := (\<lambda>e env. host_of (eval_expr_step nt v (vm_caller v n) (eval_program v es) e env)),
       w_eval_block := (\<lambda>b env. host_of (eval_block v es b env)),
       w_run_async := (\<lambda>f scope _ args _. host_of (run_async_function nt v f scope args)),
       w_get_property := (\<lambda>x name pos. host_of (get_property nt (w_depth v) x name pos)),
       w_get_index := (\<lambda>x key pos. host_of (get_index nt (w_fmt v) (w_depth v) (w_depth v) x key pos)),
       w_get_super_constructor := (\<lambda>env pos. host_of (get_super_constructor env pos)),
       w_get_super_method := (\<lambda>env name pos. host_of (get_super_method env name pos)),
       w_construct_class := (\<lambda>c env args pos. host_of (construct_class v (vm_caller v n) c env args pos)),
       w_construct_builtin := (\<lambda>b env args pos. host_of (construct_builtin v b env args pos))\<rparr>"

text \<open>A world whose evaluator never returns.\<close>

definition stuck :: "'x world \<Rightarrow> 'x world" where
  "stuck w =
     w\<lparr>w_eval_expr := (\<lambda>_ _ st. (HostDiverges, st)), w_eval_block := (\<lambda>_ _ st. (HostDiverges, st)),
       w_run_async := (\<lambda>_ _ _ _ _ st. (HostDiverges, st)), w_get_property := (\<lambda>_ _ _ st. (HostDiverges, st)),
       w_get_index := (\<lambda>_ _ _ st. (HostDiverges, st)), w_get_super_constructor := (\<lambda>_ _ st. (HostDiverges, st)),
       w_get_super_method := (\<lambda>_ _ _ st. (HostDiverges, st)),
       w_construct_class := (\<lambda>_ _ _ _ st. (HostDiverges, st)),
       w_construct_builtin := (\<lambda>_ _ _ _ st. (HostDiverges, st))\<rparr>"

fun world_at :: "'x natives \<Rightarrow> 'x world \<Rightarrow> nat \<Rightarrow> 'x world"
  and eval_stmt :: "'x natives \<Rightarrow> 'x world \<Rightarrow> nat \<Rightarrow> 'x executor" where
  "world_at nt w 0 = stuck w"
| "world_at nt w (Suc n) = with_evaluator nt (world_at nt w n) (eval_stmt nt w n) n w"
| "eval_stmt nt w 0 s env = err Diverges"
| "eval_stmt nt w (Suc n) s env =
     eval_stmt_step nt (world_at nt w n) (vm_caller (world_at nt w n) n) (eval_stmt nt w n) n s env"

definition eval_expr :: "'x natives \<Rightarrow> 'x world \<Rightarrow> nat \<Rightarrow> expr \<Rightarrow> env \<Rightarrow> ('x, obj) mem_op" where
  "eval_expr nt w n e env = host_op (w_eval_expr (world_at nt w n) e env)"

end
