(* ===== verification/Placed.thy ===== *)
theory Placed
  imports Vm_Steps Compiled
begin

unbundle bit_operations_syntax

text \<open>
  Where the code of an expression lies in a chunk. \<open>pure\<close> singles out expressions without calls,
  assignments, objects, templates, functions and classes; \<open>placed cf a e b\<close> says that the bytes of
  the chunk \<open>cf\<close> from \<open>a\<close> up to \<open>b\<close> are code for the pure expression \<open>e\<close>. What the compiler emits
  for a pure expression is placed in every chunk that the final chunk of the compilation can be.
\<close>

section \<open>Pure expressions\<close>

text \<open>A constant that the pool can only hold as itself: not the negative zero, which is merged with zero.\<close>

fun plain_constant :: "obj \<Rightarrow> bool" where
  "plain_constant (ONumber n) \<longleftrightarrow> n \<noteq> 0x8000000000000000"
| "plain_constant (OString _) \<longleftrightarrow> True"
| "plain_constant (OBoolean _) \<longleftrightarrow> True"
| "plain_constant ONull \<longleftrightarrow> True"
| "plain_constant OUndefined \<longleftrightarrow> True"
| "plain_constant _ \<longleftrightarrow> False"

fun literal_of :: "expr \<Rightarrow> obj option" where
  "literal_of (ENumber _ _ n _) = Some (ONumber n)"
| "literal_of (EString _ lit) = eval_string_lit lit"
| "literal_of (EBool _ b) = Some (OBoolean b)"
| "literal_of (ENull _) = Some ONull"
| "literal_of (EUndefined _) = Some OUndefined"
| "literal_of _ = None"


text \<open>A property name that is compiled as such.\<close>

fun is_name_key :: "expr \<Rightarrow> bool" where
  "is_name_key (EIdent _ _) = True"
| "is_name_key _ = False"

function (sequential) pure :: "expr \<Rightarrow> bool" where
  "pure (ENumber _ _ n _) \<longleftrightarrow> n \<noteq> 0x8000000000000000"
| "pure (EString _ _) \<longleftrightarrow> True"
| "pure (EBool _ _) \<longleftrightarrow> True"
| "pure (ENull _) \<longleftrightarrow> True"
| "pure (EUndefined _) \<longleftrightarrow> True"
| "pure (EIdent _ _) \<longleftrightarrow> True"
| "pure (EThis _) \<longleftrightarrow> True"
| "pure (EArray _ es) \<longleftrightarrow> length es < 2 ^ 16 \<and> (\<forall>e\<in>set es. pure e)"
| "pure (EPrefix _ op e) \<longleftrightarrow> op \<noteq> ''++'' \<and> op \<noteq> ''--'' \<and> pure e"
| "pure (EInfix _ op l (Some r)) \<longleftrightarrow> pure l \<and> pure r"
| "pure (ETernary _ c x y) \<longleftrightarrow> pure c \<and> pure x \<and> pure y"
| "pure (EMember _ ob key computed) \<longleftrightarrow> \<not> computed \<and> is_name_key key \<and> pure ob"
| "pure (EIndex _ l i) \<longleftrightarrow> pure l \<and> pure i"
| "pure _ \<longleftrightarrow> False"
  by pat_completeness auto

termination
  by (relation "measure size") (auto dest: size_list_member [where f = size])

section \<open>Placed code\<close>

definition at_op :: "chunk \<Rightarrow> nat \<Rightarrow> opcode \<Rightarrow> u8 list \<Rightarrow> position \<Rightarrow> bool" where
  "at_op cf a op ops pos \<longleftrightarrow> fetches cf a op ops \<and> position_at cf a = pos"

definition const_at :: "chunk \<Rightarrow> nat \<Rightarrow> obj \<Rightarrow> bool" where
  "const_at cf a v \<longleftrightarrow> (\<exists>ops pos. at_op cf a OpConst ops pos \<and>
     unat (word16_of ops) < length (constants cf) \<and> constants cf ! unat (word16_of ops) = v)"

definition name_at :: "chunk \<Rightarrow> nat \<Rightarrow> opcode \<Rightarrow> string \<Rightarrow> position \<Rightarrow> bool" where
  "name_at cf a op name pos \<longleftrightarrow> (\<exists>ops. at_op cf a op ops pos \<and>
     unat (word16_of ops) < length (constants cf) \<and> constants cf ! unat (word16_of ops) = OString name)"

definition jump_at :: "chunk \<Rightarrow> nat \<Rightarrow> opcode \<Rightarrow> nat \<Rightarrow> bool" where
  "jump_at cf a op target \<longleftrightarrow> (\<exists>ops pos. at_op cf a op ops pos \<and> unat (word32_of ops) = target)"

definition plain_at :: "chunk \<Rightarrow> nat \<Rightarrow> opcode \<Rightarrow> bool" where
  "plain_at cf a op \<longleftrightarrow> (\<exists>pos. at_op cf a op [] pos)"

text \<open>The test whether the value on top of the stack is \<^verbatim>\<open>null\<close> or \<^verbatim>\<open>undefined\<close>, 20 bytes.\<close>

definition nullish_test_at :: "chunk \<Rightarrow> nat \<Rightarrow> nat \<Rightarrow> bool" where
  "nullish_test_at cf a target \<longleftrightarrow>
     plain_at cf a OpDup \<and> const_at cf (a + 1) ONull \<and> plain_at cf (a + 4) OpEq
     \<and> jump_at cf (a + 5) OpJumpIfTrue target
     \<and> plain_at cf (a + 10) OpDup \<and> const_at cf (a + 11) OUndefined \<and> plain_at cf (a + 14) OpEq
     \<and> jump_at cf (a + 15) OpJumpIfTrue target"

inductive placed :: "chunk \<Rightarrow> nat \<Rightarrow> expr \<Rightarrow> nat \<Rightarrow> bool"
  and placed_all :: "chunk \<Rightarrow> nat \<Rightarrow> expr list \<Rightarrow> nat \<Rightarrow> bool"
  for cf :: chunk where
  placed_literal: "literal_of e = Some v \<Longrightarrow> const_at cf a v \<Longrightarrow> placed cf a e (a + 3)"
| placed_ident: "name_at cf a OpLoadName name pos \<Longrightarrow> placed cf a (EIdent pos name) (a + 3)"
| placed_this: "plain_at cf a OpLoadThis \<Longrightarrow> placed cf a (EThis pos) (a + 1)"
| placed_array: "placed_all cf a es b \<Longrightarrow> at_op cf b OpNewArray ops pos \<Longrightarrow>
    unat (word16_of ops) = length es \<Longrightarrow> placed cf a (EArray pos es) (b + 3)"
| placed_unary: "placed cf a e b \<Longrightarrow> map_of prefix_opcodes op = Some opc \<Longrightarrow> at_op cf b opc [] pos \<Longrightarrow>
    placed cf a (EPrefix pos op e) (b + 1)"
| placed_discard: "placed cf a e b \<Longrightarrow> plain_at cf b OpPop \<Longrightarrow>
    (op, v) \<in> {(''delete'', OBoolean True), (''void'', OUndefined)} \<Longrightarrow> const_at cf (b + 1) v \<Longrightarrow>
    placed cf a (EPrefix pos op e) (b + 4)"
| placed_binary: "placed cf a l m \<Longrightarrow> placed cf m r b \<Longrightarrow> binary_opcode op = Some opc \<Longrightarrow>
    at_op cf b opc [] pos \<Longrightarrow> placed cf a (EInfix pos op l (Some r)) (b + 1)"
| placed_and: "placed cf a l m \<Longrightarrow> plain_at cf m OpDup \<Longrightarrow> jump_at cf (m + 1) OpJumpIfFalse b \<Longrightarrow>
    plain_at cf (m + 6) OpPop \<Longrightarrow> placed cf (m + 7) r b \<Longrightarrow> placed cf a (EInfix pos ''&&'' l (Some r)) b"
| placed_or: "placed cf a l m \<Longrightarrow> plain_at cf m OpDup \<Longrightarrow> jump_at cf (m + 1) OpJumpIfFalse (m + 11) \<Longrightarrow>
    jump_at cf (m + 6) OpJump b \<Longrightarrow> plain_at cf (m + 11) OpPop \<Longrightarrow> placed cf (m + 12) r b \<Longrightarrow>
    placed cf a (EInfix pos ''||'' l (Some r)) b"
| placed_nullish: "placed cf a l m \<Longrightarrow> nullish_test_at cf m (m + 25) \<Longrightarrow> jump_at cf (m + 20) OpJump b \<Longrightarrow>
    plain_at cf (m + 25) OpPop \<Longrightarrow> placed cf (m + 26) r b \<Longrightarrow> placed cf a (EInfix pos ''??'' l (Some r)) b"
| placed_ternary: "placed cf a c m \<Longrightarrow> jump_at cf m OpJumpIfFalse (k + 5) \<Longrightarrow> placed cf (m + 5) x k \<Longrightarrow>
    jump_at cf k OpJump b \<Longrightarrow> placed cf (k + 5) y b \<Longrightarrow> placed cf a (ETernary pos c x y) b"
| placed_member: "placed cf a ob b \<Longrightarrow> name_at cf b OpGetProperty name pos \<Longrightarrow>
    placed cf a (EMember pos ob (EIdent kpos name) False) (b + 3)"
| placed_index: "placed cf a l m \<Longrightarrow> placed cf m i b \<Longrightarrow> at_op cf b OpGetIndex [] pos \<Longrightarrow>
    placed cf a (EIndex pos l i) (b + 1)"
| placed_none: "placed_all cf a [] a"
| placed_more: "placed cf a e m \<Longrightarrow> placed_all cf m es b \<Longrightarrow> placed_all cf a (e # es) b"

section \<open>Chunks that extend others\<close>

definition good :: "chunk \<Rightarrow> bool" where
  "good c \<longleftrightarrow> pool_inv c \<and> lines_inv c \<and> ONumber 0x8000000000000000 \<notin> set (constants c)"

definition fits :: "chunk \<Rightarrow> bool" where
  "fits c \<longleftrightarrow> length (code c) < 2 ^ 32 \<and> length (constants c) \<le> 2 ^ 15"

definition ext :: "chunk \<Rightarrow> chunk \<Rightarrow> bool" where
  "ext c c' \<longleftrightarrow> prefix (code c) (code c') \<and> prefix (constants c) (constants c') \<and> prefix (lines c) (lines c')
     \<and> protected_regions c' = protected_regions c"

text \<open>On the offsets \<open>S\<close> the code of \<open>cf\<close> is that of \<open>c\<close>, and \<open>cf\<close> extends the tables of \<open>c\<close>.\<close>

definition lies :: "chunk \<Rightarrow> nat set \<Rightarrow> chunk \<Rightarrow> bool" where
  "lies cf S c \<longleftrightarrow> length (code c) \<le> length (code cf) \<and> (\<forall>i\<in>S. code cf ! i = code c ! i)
     \<and> prefix (constants c) (constants cf) \<and> prefix (lines c) (lines cf)"

abbreviation region :: "chunk \<Rightarrow> chunk \<Rightarrow> nat set" where
  "region c c' \<equiv> {length (code c)..<length (code c')}"

text \<open>
  \<open>emitted c c' H P\<close>: the compiler went from \<open>c\<close> to \<open>c'\<close>, and whatever chunk has the new bytes,
  those at the offsets \<open>H\<close> excepted, satisfies \<open>P\<close>. The offsets \<open>H\<close> are the operands of jumps
  that are still to be patched.
\<close>

definition emitted :: "chunk \<Rightarrow> chunk \<Rightarrow> nat set \<Rightarrow> (chunk \<Rightarrow> bool) \<Rightarrow> bool" where
  "emitted c c' H P \<longleftrightarrow> (fits c' \<longrightarrow> fits c) \<and>
     (good c \<and> fits c' \<longrightarrow> ext c c' \<and> good c' \<and> H \<subseteq> region c c' \<and>
       (\<forall>cf. good cf \<and> fits cf \<and> lies cf (region c c' - H) c' \<longrightarrow> P cf))"

lemma ext_refl [simp]: "ext c c"
  by (simp add: ext_def)

lemma ext_trans: "ext a b \<Longrightarrow> ext b c \<Longrightarrow> ext a c"
  by (auto simp: ext_def prefix_def)

lemma ext_length: "ext c c' \<Longrightarrow> length (code c) \<le> length (code c')"
  by (simp add: ext_def prefix_length_le)

lemma ext_writes [simp]: "ext c (write_op op pos c)" "ext c (push_bytes bs c)"
  by (simp_all add: ext_def chunk_simps)

lemma ext_const: "add_constant v c = (i, c') \<Longrightarrow> ext c c'"
  using add_constant_extends [of v c i c'] by (auto simp: ext_def chunk_simps)

lemma ext_patch:
  assumes "ext c c'" "length (code c) \<le> unat p"
  shows "ext c (patch_jump_to p t c')"
proof -
  from assms(1) obtain xs where "code c' = code c @ xs" by (auto simp: ext_def prefix_def)
  moreover have "prefix ys ((ys @ zs)[n := v])" if "length ys \<le> n" for ys zs :: "u8 list" and n v
    using that by (simp add: list_update_append)
  ultimately have "prefix (code c) (code (patch_jump_to p t c'))"
    using assms(2) by (simp add: code_patch_jump_to list_update_append)
  with assms(1) show ?thesis by (simp add: ext_def)
qed

lemma less_4: "(\<forall>j<4. P j) \<longleftrightarrow> P 0 \<and> P 1 \<and> P 2 \<and> P (3::nat)"
  by (auto simp: less_Suc_eq numeral_eq_Suc)

lemma patch_elsewhere:
  "i \<notin> {unat p..<unat p + 4} \<Longrightarrow> code (patch_jump_to p t c) ! i = code c ! i"
  by (auto simp: code_patch_jump_to)

lemma lies_ext: "lies cf S c' \<Longrightarrow> ext c c' \<Longrightarrow> T \<subseteq> S \<Longrightarrow> T \<subseteq> {..<length (code c)} \<Longrightarrow> lies cf T c"
  unfolding lies_def ext_def by (force simp: prefix_def nth_append)

lemma emitted_step:
  assumes 1: "emitted c c1 H P" and 2: "emitted c1 c2 H' Q"
  shows "emitted c c2 (H \<union> H') (\<lambda>cf. P cf \<and> Q cf)"
proof -
  have fits: "fits c" "fits c1" if "fits c2" using assms that by (auto simp: emitted_def)
  have "ext c c2 \<and> good c2 \<and> H \<union> H' \<subseteq> region c c2 \<and>
      (\<forall>cf. good cf \<and> fits cf \<and> lies cf (region c c2 - (H \<union> H')) c2 \<longrightarrow> P cf \<and> Q cf)"
    if c: "good c" "fits c2"
  proof -
    from 1 c fits have a: "ext c c1" "good c1" "H \<subseteq> region c c1"
      "\<And>cf. good cf \<Longrightarrow> fits cf \<Longrightarrow> lies cf (region c c1 - H) c1 \<Longrightarrow> P cf" by (auto simp: emitted_def)
    from 2 c fits a(2) have b: "ext c1 c2" "good c2" "H' \<subseteq> region c1 c2"
      "\<And>cf. good cf \<Longrightarrow> fits cf \<Longrightarrow> lies cf (region c1 c2 - H') c2 \<Longrightarrow> Q cf" by (auto simp: emitted_def)
    note len = ext_length [OF a(1)] ext_length [OF b(1)]
    have "P cf \<and> Q cf" if cf: "good cf" "fits cf" "lies cf (region c c2 - (H \<union> H')) c2" for cf
    proof
      have "lies cf (region c c1 - H) c1" using len b(3) by (intro lies_ext [OF cf(3) b(1)]) auto
      with cf a(4) show "P cf" by blast
      have "lies cf (region c1 c2 - H') c2" using len a(3) by (intro lies_ext [OF cf(3)]) auto
      with cf b(4) show "Q cf" by blast
    qed
    moreover have "H \<union> H' \<subseteq> region c c2"
      using a(3) b(3) len by (meson Un_least ivl_subset le_trans order_refl subset_trans)
    ultimately show ?thesis using ext_trans [OF a(1) b(1)] b(2) by blast
  qed
  with fits show ?thesis unfolding emitted_def by blast
qed

lemma emitted_weaken:
  assumes "emitted c c' H P" "\<And>cf. fits c' \<Longrightarrow> fits cf \<Longrightarrow> P cf \<Longrightarrow> Q cf" "H' = H"
  shows "emitted c c' H' Q"
  using assms unfolding emitted_def by blast

lemma emitted_refl: "emitted c c {} (\<lambda>_. True)"
  by (simp add: emitted_def)

text \<open>A jump that is patched.\<close>

definition operand_at :: "chunk \<Rightarrow> nat \<Rightarrow> u32 \<Rightarrow> bool" where
  "operand_at cf a t \<longleftrightarrow> (\<forall>j<4. code cf ! (a + j) = be32 t ! j)"

lemma emitted_patch:
  assumes em: "emitted c c' H P" and hole: "length (code c') < 2 ^ 32 \<Longrightarrow> P c' \<Longrightarrow> {unat p..<unat p + 4} \<subseteq> H"
  shows "emitted c (patch_jump_to p t c') (H - {unat p..<unat p + 4}) (\<lambda>cf. P cf \<and> operand_at cf (unat p) t)"
proof -
  let ?d = "patch_jump_to p t c'" and ?H = "H - {unat p..<unat p + 4}"
  have fits: "fits ?d = fits c'" and good: "good ?d = good c'"
    by (auto simp: fits_def good_def pool_inv_def lines_inv_def)
  have "ext c ?d \<and> ?H \<subseteq> region c ?d \<and>
      (\<forall>cf. good cf \<and> fits cf \<and> lies cf (region c ?d - ?H) ?d \<longrightarrow> P cf \<and> operand_at cf (unat p) t)"
    if c: "good c" "fits c'"
  proof -
    from em c have a: "ext c c'" "H \<subseteq> region c c'" "good c'"
      "\<And>cf. good cf \<Longrightarrow> fits cf \<Longrightarrow> lies cf (region c c' - H) c' \<Longrightarrow> P cf" by (auto simp: emitted_def)
    have "P c'" using a(4) [OF a(3) c(2)] by (simp add: lies_def)
    with c(2) have hole: "{unat p..<unat p + 4} \<subseteq> H" by (intro hole) (simp add: fits_def)
    have p: "length (code c) \<le> unat p" "unat p + 4 \<le> length (code c')"
      using subset_trans [OF hole a(2)] by (auto simp: ivl_subset)
    have "P cf \<and> operand_at cf (unat p) t" if cf: "good cf" "fits cf" "lies cf (region c ?d - ?H) ?d" for cf
    proof
      have "lies cf (region c c' - H) c'"
        unfolding lies_def
      proof (intro conjI ballI)
        fix i assume i: "i \<in> region c c' - H"
        then have "code ?d ! i = code c' ! i" using hole by (intro patch_elsewhere) blast
        moreover have "i \<in> region c ?d - ?H" using i by simp
        ultimately show "code cf ! i = code c' ! i" using cf(3) by (simp add: lies_def)
      qed (use cf(3) in \<open>simp_all add: lies_def\<close>)
      with cf a(4) show "P cf" by blast
      have "code cf ! (unat p + j) = code ?d ! (unat p + j)" if "j < 4" for j
        using cf(3) that p by (simp add: lies_def)
      then show "operand_at cf (unat p) t"
        using p by (simp add: operand_at_def code_patch_jump_to less_4)
    qed
    moreover have "?H \<subseteq> region c ?d" using a(2) by auto
    ultimately show ?thesis using ext_patch [OF a(1) p(1)] by blast
  qed
  with em show ?thesis unfolding emitted_def fits good by blast
qed

section \<open>Instructions\<close>

lemma good_fields:
  "good c \<Longrightarrow> constants c' = constants c \<Longrightarrow> const_index c' = const_index c \<Longrightarrow> lines_inv c' \<Longrightarrow> good c'"
  by (simp add: good_def pool_inv_def)

lemma good_writes:
  assumes "good c"
  shows "length (code c) < 2 ^ 32 \<Longrightarrow> good (write_op op pos c)" and "good (push_bytes bs c)"
proof -
  have inv: "lines_inv c" using assms by (simp add: good_def)
  show "good (write_op op pos c)" if "length (code c) < 2 ^ 32"
    by (rule good_fields [OF assms]) (simp_all add: chunk_simps lines_inv_write_op [OF inv that])
  show "good (push_bytes bs c)"
    by (rule good_fields [OF assms]) (simp_all add: chunk_simps lines_inv_extend [OF inv])
qed

lemma push_no_bytes [simp]: "push_bytes [] c = c"
  by (cases c) (simp add: push_bytes_def)

lemma emitted_instr:
  assumes ops: "length ops = operand_width op"
  shows "emitted c (push_bytes ops (write_op op pos c)) {} (\<lambda>cf. at_op cf (length (code c)) op ops pos)"
proof -
  let ?n = "length (code c)" and ?c = "push_bytes ops (write_op op pos c)"
  have fits: "fits c" if "fits ?c" using that by (simp add: fits_def chunk_simps)
  have "at_op cf ?n op ops pos"
    if c: "good c" "fits ?c" and cf: "good cf" "fits cf" "lies cf (region c ?c) ?c" for cf
  proof -
    have code: "code cf ! (?n + j) = (op_byte op # ops) ! j" if "j \<le> operand_width op" for j
      using cf(3) that ops by (auto simp: lies_def chunk_simps nth_append)
    have len: "?n + 1 + operand_width op \<le> length (code cf)"
      using cf(3) ops by (auto simp: lies_def chunk_simps)
    have "fetches cf ?n op ops"
      unfolding fetches_def using code [of 0] code [of "Suc _"] ops len by simp
    moreover have "position_at cf ?n = pos"
    proof -
      let ?k = "length (lines c)" and ?e = "\<lparr>line_ip = here c, line_pos = pos\<rparr>"
      from cf(3) obtain es where es: "lines cf = lines c @ ?e # es"
        by (auto simp: lies_def chunk_simps prefix_def)
      have here: "unat (here c) = ?n" using fits [OF c(2)] by (simp add: fits_def here_def)
      have "position_at cf ?n = line_pos (lines cf ! ?k)"
      proof (rule position_at_owner)
        show "lines_inv cf" using cf(1) by (simp add: good_def)
        then show "Suc ?k < length (lines cf) \<Longrightarrow> ?n < unat (line_ip (lines cf ! Suc ?k))"
          unfolding lines_inv_def es using here
          by (auto simp: sorted_wrt_append nth_append word_less_nat_alt)
      qed (use es here fits [OF c(2)] in \<open>simp_all add: fits_def nth_append\<close>)
      then show ?thesis by (simp add: es nth_append)
    qed
    ultimately show ?thesis by (simp add: at_op_def)
  qed
  moreover have "good ?c" if "good c" "fits ?c"
    using that(1) fits [OF that(2)] by (simp add: good_writes fits_def)
  moreover have "ext c ?c" by (rule ext_trans [OF ext_writes(1) ext_writes(2)])
  ultimately show ?thesis using fits by (auto simp: emitted_def)
qed

lemma emitted_op: "operand_width op = 0 \<Longrightarrow> emitted c (write_op op pos c) {} (\<lambda>cf. at_op cf (length (code c)) op [] pos)"
  using emitted_instr [of "[]" op c pos] by simp

text \<open>A constant, and an instruction that names it.\<close>

lemma emitted_const:
  assumes v: "plain_constant v" and add: "add_constant v c = (i, c')"
  shows "emitted c c' {} (\<lambda>cf. unat i < length (constants cf) \<and> constants cf ! unat i = v)"
proof -
  note f = add_constant_fields [OF add] and e = ext_const [OF add]
  have pre: "prefix (constants c) (constants c')" using e by (simp add: ext_def)
  have new: "set (constants c') \<subseteq> insert v (set (constants c))"
    using add by (auto simp: add_constant_def push_constant_def Let_def split: option.splits)
  have "good c' \<and> unat i < length (constants c') \<and> constants c' ! unat i = v" if c: "good c" "fits c'"
  proof -
    have "length (constants c) < 2 ^ 16" using c(2) prefix_length_le [OF pre] by (simp add: fits_def)
    from add_constant_pool [OF _ this add] c(1)
    have pool: "pool_inv c'" "unat i < length (constants c')"
      "constants c' ! unat i = v \<or> obj_eq (constants c' ! unat i) v" by (auto simp: good_def)
    have nz: "ONumber 0x8000000000000000 \<notin> set (constants c')" using new c(1) v by (auto simp: good_def)
    moreover have "constants c' ! unat i \<in> set (constants c')" using pool(2) by simp
    ultimately have "constants c' ! unat i = v"
      using pool(3) v by (cases v) (auto simp: obj_eq_def f64_eq_iff f64_mag_0_iff split: obj.splits)
    moreover have "lines_inv c'" using c(1) f by (auto simp: good_def lines_inv_def)
    ultimately show ?thesis using pool nz by (simp add: good_def)
  qed
  moreover have "fits c" if "fits c'" using that f(1) prefix_length_le [OF pre] by (simp add: fits_def)
  ultimately show ?thesis using e f(1)
    by (auto simp: emitted_def lies_def prefix_def nth_append)
qed

end
