(* ===== verification/Placed_Code.thy ===== *)
theory Placed_Code
  imports Placed
begin

text \<open>
  What the compiler emits for a pure expression is placed (\<open>Placed\<close>) in every chunk that extends
  the chunk it leaves.
\<close>

section \<open>Rules for emitted code\<close>

lemma width_0 [simp]: "operand_width OpDup = 0" "operand_width OpPop = 0" "operand_width OpEq = 0"
    "operand_width OpLoadThis = 0" "operand_width OpGetIndex = 0"
  by (simp_all add: operand_width_def ops_u16_def ops_jump_def ops_u8_def)

lemma emitted_facts:
  assumes "emitted c c' H P"
  shows "emitted c c' H (\<lambda>cf. P cf \<and> ext c c' \<and> length (code c') < 2 ^ 32)"
  using assms by (simp add: emitted_def fits_def)

lemma emitted_less:
  assumes em: "emitted c c' H P" and Q: "\<And>cf. length (code c') < 2 ^ 32 \<Longrightarrow> P cf \<Longrightarrow> Q cf"
  shows "emitted c c' {} Q"
proof -
  have "lies cf (region c c' - H) c'" if "lies cf (region c c' - {}) c'" for cf
    using that by (simp add: lies_def)
  with em Q show ?thesis unfolding emitted_def fits_def by blast
qed

definition placeholder :: "chunk \<Rightarrow> nat \<Rightarrow> opcode \<Rightarrow> u32 \<Rightarrow> bool" where
  "placeholder cf a op ip \<longleftrightarrow> code cf ! a = op_byte op \<and> a + 5 \<le> length (code cf) \<and> unat ip = a + 1"

lemma emitted_placeholder:
  assumes "emit_jump_placeholder op pos c = (ip, c')"
  shows "emitted c c' {unat ip..<unat ip + 4} (\<lambda>cf. placeholder cf (length (code c)) op ip)"
proof -
  have c': "c' = push_bytes (be32 0) (write_op op pos c)" and ip: "ip = here (write_op op pos c)"
    using assms by (auto simp: emit_jump_placeholder_def Let_def write_u32_def)
  have fits: "fits c \<and> unat ip = length (code c) + 1" if "fits c'"
    using that emit_jump_placeholder_room [OF assms] by (simp add: fits_def c' chunk_simps)
  have "good c'" "{unat ip..<unat ip + 4} \<subseteq> region c c'" if "good c" "fits c'"
    using fits [OF that(2)] that(1) by (simp_all add: c' good_writes fits_def chunk_simps)
  moreover have "placeholder cf (length (code c)) op ip"
    if "good c" "fits c'" "lies cf (region c c' - {unat ip..<unat ip + 4}) c'" for cf
    using that(3) fits [OF that(2)]
    by (auto simp: placeholder_def lies_def c' chunk_simps nth_append)
  moreover have "ext c c'" unfolding c' by (rule ext_trans [OF ext_writes(1) ext_writes(2)])
  ultimately show ?thesis using fits by (auto simp: emitted_def)
qed

lemma jump_width: "op \<in> {OpJump, OpJumpIfFalse, OpJumpIfTrue} \<Longrightarrow> operand_width op = 4"
  by (auto simp: operand_width_def ops_u16_def ops_jump_def)

lemma jump_placed:
  "placeholder cf a op ip \<Longrightarrow> operand_at cf (unat ip) t \<Longrightarrow> op \<in> {OpJump, OpJumpIfFalse, OpJumpIfTrue} \<Longrightarrow>
     jump_at cf a op (unat t)"
  using jump_width [of op] unfolding jump_at_def at_op_def fetches_def placeholder_def operand_at_def
  by (intro exI [of _ "be32 t"] exI [of _ "position_at cf a"]) (simp add: word32_be32)

lemma emitted_value:
  "plain_constant v \<Longrightarrow> emitted c (emit_value_constant v pos c) {} (\<lambda>cf. const_at cf (length (code c)) v)"
proof -
  assume v: "plain_constant v"
  obtain i c1 where add: "add_constant v c = (i, c1)" by fastforce
  have "emitted c (push_bytes (be16 i) (write_op OpConst pos c1)) {} (\<lambda>cf. const_at cf (length (code c)) v)"
    by (rule emitted_less [OF emitted_step [OF emitted_const [OF v add] emitted_instr]])
      (auto simp: const_at_def word16_be16 add_constant_fields(1) [OF add] operand_width_def ops_u16_def)
  then show ?thesis by (simp add: emit_value_constant_def add emit_const_def write_u16_def)
qed

lemma emitted_name:
  "operand_width op = 2 \<Longrightarrow> emitted c (emit_string_operand op name pos c) {} (\<lambda>cf. name_at cf (length (code c)) op name pos)"
proof -
  assume op: "operand_width op = 2"
  obtain i c1 where add: "add_constant (OString name) c = (i, c1)" by fastforce
  have "emitted c (push_bytes (be16 i) (write_op op pos c1)) {} (\<lambda>cf. name_at cf (length (code c)) op name pos)"
    by (rule emitted_less [OF emitted_step [OF emitted_const [OF _ add] emitted_instr]])
      (auto simp: name_at_def word16_be16 add_constant_fields(1) [OF add] op)
  then show ?thesis by (simp add: emit_string_operand_def add write_u16_def)
qed

lemma emitted_plain: "operand_width op = 0 \<Longrightarrow> emitted c (write_op op pos c) {} (\<lambda>cf. plain_at cf (length (code c)) op)"
  by (rule emitted_less [OF emitted_op]) (auto simp: plain_at_def)

lemma value_length: "length (code (emit_value_constant v pos c)) = length (code c) + 3"
  "length (code (emit_string_operand op name pos c)) = length (code c) + 3"
  by (auto simp: emit_value_constant_def emit_const_def emit_string_operand_def chunk_simps
      add_constant_fields split: prod.split)

lemma here_length: "length (code c) < 2 ^ 32 \<Longrightarrow> unat (here c) = length (code c)"
  by (simp add: here_def)

section \<open>Constructs\<close>

definition places :: "ecompiler \<Rightarrow> expr \<Rightarrow> bool" where
  "places ce e \<longleftrightarrow> (\<forall>c c'. ce e c = Inr c' \<longrightarrow>
     emitted c c' {} (\<lambda>cf. placed cf (length (code c)) e (length (code c'))))"

lemma placesD: "places ce e \<Longrightarrow> ce e c = Inr c' \<Longrightarrow>
    emitted c c' {} (\<lambda>cf. placed cf (length (code c)) e (length (code c')))"
  by (simp add: places_def)

lemma placed_grows: "placed cf a e b \<Longrightarrow> a < b" "placed_all cf a es b \<Longrightarrow> a \<le> b"
  by (induction rule: placed_placed_all.inducts) auto

lemma places_all:
  "fold_res ce es c = Inr c' \<Longrightarrow> \<forall>e\<in>set es. places ce e \<Longrightarrow>
     emitted c c' {} (\<lambda>cf. placed_all cf (length (code c)) es (length (code c')))"
proof (induction es arbitrary: c)
  case Nil
  then show ?case by (auto intro!: emitted_less [OF emitted_refl] placed_none)
next
  case (Cons e es)
  then obtain c1 where "ce e c = Inr c1" "fold_res ce es c1 = Inr c'" by auto
  with Cons emitted_step [OF placesD, of ce e c c1 c' "{}"] show ?case
    by (fastforce intro: emitted_less placed_more)
qed

lemma places_ternary:
  assumes "places ce e" "places ce x" "places ce y" and c: "compile_ternary ce pos e x y c = Inr c'"
  shows "emitted c c' {} (\<lambda>cf. placed cf (length (code c)) (ETernary pos e x y) (length (code c')))"
proof -
  from c obtain c1 p c2 c3 q c4 c5 where
    steps: "ce e c = Inr c1" "emit_jump_placeholder OpJumpIfFalse pos c1 = (p, c2)"
      "ce x c2 = Inr c3" "emit_jump_placeholder OpJump pos c3 = (q, c4)"
      "ce y (patch_jump_to p (here c4) c4) = Inr c5"
    and c': "c' = patch_jump_to q (here c5) c5"
    by (auto simp: compile_ternary_def patch_jump_here_def split: prod.splits)
  have len: "length (code c2) = length (code c1) + 5" "length (code c4) = length (code c3) + 5"
    using steps(2,4) by (auto simp: emit_jump_placeholder_def Let_def chunk_simps)
  note s4 = emitted_step [OF emitted_step [OF emitted_step [OF placesD [OF assms(1) steps(1)]
    emitted_placeholder [OF steps(2)]] placesD [OF assms(2) steps(3)]] emitted_placeholder [OF steps(4)]]
  note s5 = emitted_step [OF emitted_patch [OF s4, of p "here c4"] placesD [OF assms(3) steps(5)]]
  note s6 = emitted_patch [OF s5, of q "here c5"]
  show ?thesis
    unfolding c'
  proof (rule emitted_less [OF s6], goal_cases)
    case (3 cf)
    then have at: "placed cf (length (code c)) e (length (code c1))" "placeholder cf (length (code c1)) OpJumpIfFalse p"
      "placed cf (length (code c1) + 5) x (length (code c3))" "placeholder cf (length (code c3)) OpJump q"
      "operand_at cf (unat p) (here c4)" "placed cf (length (code c3) + 5) y (length (code c5))"
      "operand_at cf (unat q) (here c5)" by (simp_all add: len)
    have bound: "length (code c5) < 2 ^ 32" using 3(1) by simp
    moreover have "length (code c4) < 2 ^ 32" using bound placed_grows(1) [OF at(6)] len by simp
    ultimately have "jump_at cf (length (code c1)) OpJumpIfFalse (length (code c3) + 5)"
      "jump_at cf (length (code c3)) OpJump (length (code c5))"
      using jump_placed [OF at(2,5)] jump_placed [OF at(4,7)] len
      by (simp_all add: here_length)
    with at show ?case by (auto intro: placed_ternary)
  next
    case 2
    then have "length (code c1) + 5 < length (code c3)" "unat p = length (code c1) + 1" "unat q = length (code c3) + 1"
      using placed_grows(1) len by (auto simp: placeholder_def)
    then show ?case by auto
  qed auto
qed

lemma places_and:
  assumes "places ce l" "places ce r" and l: "ce l c = Inr c1" and r: "compile_and ce pos r c1 = Inr c'"
  shows "emitted c c' {} (\<lambda>cf. placed cf (length (code c)) (EInfix pos ''&&'' l (Some r)) (length (code c')))"
proof -
  from r obtain p c2 c3 where
    steps: "emit_jump_placeholder OpJumpIfFalse pos (write_op OpDup pos c1) = (p, c2)"
      "ce r (write_op OpPop pos c2) = Inr c3" and c': "c' = patch_jump_to p (here c3) c3"
    by (auto simp: compile_and_def patch_jump_here_def split: prod.splits)
  have len: "length (code c2) = length (code c1) + 6"
    using steps(1) by (auto simp: emit_jump_placeholder_def Let_def chunk_simps)
  note s = emitted_patch [OF emitted_step [OF emitted_step [OF emitted_step [OF emitted_step [OF placesD [OF assms(1) l]
    emitted_plain [of OpDup]] emitted_placeholder [OF steps(1)]] emitted_plain [of OpPop]] placesD [OF assms(2) steps(2)]],
    of p "here c3"]
  show ?thesis
    unfolding c'
  proof (rule emitted_less [OF s], goal_cases)
    case (4 cf)
    then have at: "placed cf (length (code c)) l (length (code c1))" "plain_at cf (length (code c1)) OpDup"
      "placeholder cf (length (code c1) + 1) OpJumpIfFalse p" "plain_at cf (length (code c1) + 6) OpPop"
      "placed cf (length (code c1) + 7) r (length (code c3))" "operand_at cf (unat p) (here c3)"
      by (simp_all add: len chunk_simps ac_simps)
    with 4(1) jump_placed [OF at(3,6)] show ?case by (auto simp: here_length intro: placed_and)
  qed auto
qed

lemma places_or:
  assumes "places ce l" "places ce r" and l: "ce l c = Inr c1" and r: "compile_or ce pos r c1 = Inr c'"
  shows "emitted c c' {} (\<lambda>cf. placed cf (length (code c)) (EInfix pos ''||'' l (Some r)) (length (code c')))"
proof -
  from r obtain p c2 q c3 c4 where
    steps: "emit_jump_placeholder OpJumpIfFalse pos (write_op OpDup pos c1) = (p, c2)"
      "emit_jump_placeholder OpJump pos c2 = (q, c3)"
      "ce r (write_op OpPop pos (patch_jump_to p (here c3) c3)) = Inr c4" and c': "c' = patch_jump_to q (here c4) c4"
    by (auto simp: compile_or_def patch_jump_here_def split: prod.splits)
  have len: "length (code c2) = length (code c1) + 6" "length (code c3) = length (code c1) + 11"
    using steps(1,2) by (auto simp: emit_jump_placeholder_def Let_def chunk_simps)
  note s1 = emitted_patch [OF emitted_step [OF emitted_step [OF emitted_step [OF placesD [OF assms(1) l]
    emitted_plain [of OpDup]] emitted_placeholder [OF steps(1)]] emitted_placeholder [OF steps(2)]], of p "here c3"]
  note s2 = emitted_patch [OF emitted_step [OF emitted_step [OF s1 emitted_plain [of OpPop]] placesD [OF assms(2) steps(3)]],
    of q "here c4"]
  show ?thesis
    unfolding c'
  proof (rule emitted_less [OF s2], goal_cases)
    case (5 cf)
    then have at: "placed cf (length (code c)) l (length (code c1))" "plain_at cf (length (code c1)) OpDup"
      "placeholder cf (length (code c1) + 1) OpJumpIfFalse p" "placeholder cf (length (code c1) + 6) OpJump q"
      "plain_at cf (length (code c1) + 11) OpPop" "placed cf (length (code c1) + 12) r (length (code c4))"
      "operand_at cf (unat p) (here c3)" "operand_at cf (unat q) (here c4)"
      by (simp_all add: len chunk_simps ac_simps)
    have "length (code c4) < 2 ^ 32" "length (code c3) < 2 ^ 32"
      using 5(1) placed_grows(1) [OF at(6)] len by simp_all
    with at jump_placed [OF at(3,7)] jump_placed [OF at(4,8)] len
    show ?case by (auto simp: here_length intro: placed_or)
  qed (auto simp: placeholder_def len chunk_simps)
qed


text \<open>The test for \<^verbatim>\<open>null\<close> and \<^verbatim>\<open>undefined\<close>, whose two jumps are patched to the same place.\<close>

lemma emitted_nullish:
  assumes "emit_nullish_jump_checks pos c = (ps, c')"
  obtains p q where "ps = [p, q]" "length (code c') = length (code c) + 20"
    "emitted c c' ({unat p..<unat p + 4} \<union> {unat q..<unat q + 4}) (\<lambda>cf. plain_at cf (length (code c)) OpDup
       \<and> const_at cf (length (code c) + 1) ONull \<and> plain_at cf (length (code c) + 4) OpEq
       \<and> placeholder cf (length (code c) + 5) OpJumpIfTrue p \<and> plain_at cf (length (code c) + 10) OpDup
       \<and> const_at cf (length (code c) + 11) OUndefined \<and> plain_at cf (length (code c) + 14) OpEq
       \<and> placeholder cf (length (code c) + 15) OpJumpIfTrue q)"
proof -
  from assms obtain p q c1 where
    steps: "emit_jump_placeholder OpJumpIfTrue pos
        (write_op OpEq pos (emit_value_constant ONull pos (write_op OpDup pos c))) = (p, c1)"
      "emit_jump_placeholder OpJumpIfTrue pos
        (write_op OpEq pos (emit_value_constant OUndefined pos (write_op OpDup pos c1))) = (q, c')"
    and ps: "ps = [p, q]"
    by (auto simp: emit_nullish_jump_checks_def emit_value_constant_def split: prod.splits)
  have len: "length (code c1) = length (code c) + 10" "length (code c') = length (code c) + 20"
    using steps by (auto simp: emit_jump_placeholder_def Let_def chunk_simps value_length)
  note s1 = emitted_step [OF emitted_step [OF emitted_step [OF emitted_plain [of OpDup c pos]
    emitted_value [of ONull]] emitted_plain [of OpEq]] emitted_placeholder [OF steps(1)]]
  note s2 = emitted_step [OF emitted_step [OF emitted_step [OF emitted_step [OF s1 emitted_plain [of OpDup c1 pos]]
    emitted_value [of OUndefined]] emitted_plain [of OpEq]] emitted_placeholder [OF steps(2)]]
  show thesis
    by (rule that [OF ps len(2)], rule emitted_weaken [OF s2])
      (auto simp: len chunk_simps value_length ac_simps)
qed

lemma places_nullish:
  assumes "places ce l" "places ce r" and l: "ce l c = Inr c1"
    and r: "compile_nullish_coalescing ce pos r c1 = Inr c'"
  shows "emitted c c' {} (\<lambda>cf. placed cf (length (code c)) (EInfix pos ''??'' l (Some r)) (length (code c')))"
proof -
  obtain ps c2 where checks: "emit_nullish_jump_checks pos c1 = (ps, c2)" by fastforce
  from emitted_nullish [OF checks] obtain p q where ps: "ps = [p, q]"
    and len2: "length (code c2) = length (code c1) + 20"
    and em: "emitted c1 c2 ({unat p..<unat p + 4} \<union> {unat q..<unat q + 4}) (\<lambda>cf. plain_at cf (length (code c1)) OpDup
       \<and> const_at cf (length (code c1) + 1) ONull \<and> plain_at cf (length (code c1) + 4) OpEq
       \<and> placeholder cf (length (code c1) + 5) OpJumpIfTrue p \<and> plain_at cf (length (code c1) + 10) OpDup
       \<and> const_at cf (length (code c1) + 11) OUndefined \<and> plain_at cf (length (code c1) + 14) OpEq
       \<and> placeholder cf (length (code c1) + 15) OpJumpIfTrue q)" by blast
  from r checks ps obtain x c3 c4 where
    steps: "emit_jump_placeholder OpJump pos c2 = (x, c3)"
      "ce r (write_op OpPop pos (patch_jump_to q (here c3) (patch_jump_to p (here c3) c3))) = Inr c4"
    and c': "c' = patch_jump_to x (here c4) c4"
    by (auto simp: compile_nullish_coalescing_def patch_jump_here_def patch_all_def Let_def split: prod.splits)
  have len: "length (code c2) = length (code c1) + 20" "length (code c3) = length (code c1) + 25"
    using steps(1) len2 by (auto simp: emit_jump_placeholder_def Let_def chunk_simps)
  note s1 = emitted_patch [OF emitted_patch [OF emitted_step [OF emitted_step [OF placesD [OF assms(1) l] em]
    emitted_placeholder [OF steps(1)]], of p "here c3"], of q "here c3"]
  note s2 = emitted_patch [OF emitted_step [OF emitted_step [OF s1 emitted_plain [of OpPop]] placesD [OF assms(2) steps(2)]],
    of x "here c4"]
  show ?thesis
    unfolding c'
  proof (rule emitted_less [OF s2], goal_cases)
    case (5 cf)
    then have at: "placed cf (length (code c)) l (length (code c1))" "plain_at cf (length (code c1)) OpDup"
      "const_at cf (length (code c1) + 1) ONull" "plain_at cf (length (code c1) + 4) OpEq"
      "placeholder cf (length (code c1) + 5) OpJumpIfTrue p" "plain_at cf (length (code c1) + 10) OpDup"
      "const_at cf (length (code c1) + 11) OUndefined" "plain_at cf (length (code c1) + 14) OpEq"
      "placeholder cf (length (code c1) + 15) OpJumpIfTrue q" "placeholder cf (length (code c1) + 20) OpJump x"
      "plain_at cf (length (code c1) + 25) OpPop" "placed cf (length (code c1) + 26) r (length (code c4))"
      "operand_at cf (unat p) (here c3)" "operand_at cf (unat q) (here c3)" "operand_at cf (unat x) (here c4)"
      by (simp_all add: len chunk_simps ac_simps)
    have fits: "length (code c4) < 2 ^ 32" "length (code c3) < 2 ^ 32"
      using 5(1) placed_grows(1) [OF at(12)] len by simp_all
    with at jump_placed [OF at(5,13)] jump_placed [OF at(9,14)] len
    have "nullish_test_at cf (length (code c1)) (length (code c1) + 25)"
      by (simp add: nullish_test_at_def here_length)
    with at jump_placed [OF at(10,15)] len fits show ?case by (auto simp: here_length intro: placed_nullish)
  qed (auto simp: placeholder_def len chunk_simps)
qed


lemma places_array:
  assumes "\<forall>e\<in>set es. places ce e \<and> \<not> is_spread e" "length es < 2 ^ 16" "compile_array_lit ce pos es c = Inr c'"
  shows "emitted c c' {} (\<lambda>cf. placed cf (length (code c)) (EArray pos es) (length (code c')))"
proof -
  have "\<not> list_ex is_spread es" using assms(1) by (simp add: list_ex_iff)
  with assms(3) obtain c1 where c1: "fold_res ce es c = Inr c1"
    and c': "c' = push_bytes (be16 (of_nat (length es))) (write_op OpNewArray pos c1)"
    by (auto simp: compile_array_lit_def write_u16_def)
  have "unat (of_nat (length es) :: u16) = length es" using assms(2) by (simp add: unat_of_nat_small)
  with assms(1) show ?thesis
    unfolding c'
    by (intro emitted_less [OF emitted_step [OF places_all [OF c1] emitted_instr]])
      (auto simp: operand_width_def ops_u16_def chunk_simps word16_be16 intro: placed_array)
qed

lemma places_binary:
  assumes "places ce l" "places ce r" "ce l c = Inr c1" "ce r c1 = Inr c2" "binary_opcode op = Some opc"
  shows "emitted c (write_op opc pos c2) {}
    (\<lambda>cf. placed cf (length (code c)) (EInfix pos op l (Some r)) (length (code (write_op opc pos c2))))"
  using binary_opcode_width [OF assms(5)]
  by (intro emitted_less [OF emitted_step [OF emitted_step [OF placesD [OF assms(1,3)] placesD [OF assms(2,4)]] emitted_op]])
    (auto simp: chunk_simps plain_width assms(5) intro: placed_binary [simplified])

lemma places_infix:
  assumes "places ce l" "places ce r" "compile_infix_expr h ce pos op l (Some r) c = Inr c'"
  shows "emitted c c' {} (\<lambda>cf. placed cf (length (code c)) (EInfix pos op l (Some r)) (length (code c')))"
proof -
  note rules = places_and [OF assms(1,2), of c _ pos c'] places_or [OF assms(1,2), of c _ pos c']
    places_nullish [OF assms(1,2), of c _ pos c'] places_binary [OF assms(1,2), of c _ _ op _ pos]
  from assms(3) consider c1 where "op = ''&&''" "ce l c = Inr c1" "compile_and ce pos r c1 = Inr c'"
    | c1 where "op = ''||''" "ce l c = Inr c1" "compile_or ce pos r c1 = Inr c'"
    | c1 where "op = ''??''" "ce l c = Inr c1" "compile_nullish_coalescing ce pos r c1 = Inr c'"
    | c1 c2 opc where "ce l c = Inr c1" "ce r c1 = Inr c2" "binary_opcode op = Some opc" "c' = write_op opc pos c2"
    by (auto simp: compile_infix_expr_def split: if_splits option.splits)
  then show ?thesis by cases (auto intro: rules)
qed

lemma places_discard:
  assumes "places ce e" "ce e c = Inr c1" "plain_constant v"
  shows "emitted c (emit_value_constant v pos (write_op OpPop pos c1)) {}
    (\<lambda>cf. placed cf (length (code c)) e (length (code c1)) \<and> plain_at cf (length (code c1)) OpPop \<and>
      const_at cf (length (code c1) + 1) v)"
  by (rule emitted_less [OF emitted_step [OF emitted_step [OF placesD [OF assms(1,2)] emitted_plain] emitted_value]])
    (auto simp: chunk_simps assms(3))

lemma places_prefix:
  assumes "places ce e" "op \<noteq> ''++''" "op \<noteq> ''--''" "compile_prefix_expr h ce pos op e c = Inr c'"
  shows "emitted c c' {} (\<lambda>cf. placed cf (length (code c)) (EPrefix pos op e) (length (code c')))"
proof -
  from assms(2-4) consider c1 v where "(op, v) \<in> {(''delete'', OBoolean True), (''void'', OUndefined)}"
      "ce e c = Inr c1" "c' = emit_value_constant v pos (write_op OpPop pos c1)"
    | c1 opc where "map_of prefix_opcodes op = Some opc" "ce e c = Inr c1" "c' = write_op opc pos c1"
    unfolding compile_prefix_expr_def
    by (cases "op = ''delete''"; cases "map_of prefix_opcodes op"; simp split: if_splits; blast)
  then show ?thesis
  proof cases
    case 1
    then have v: "plain_constant v" by auto
    show ?thesis
      unfolding 1(3) by (rule emitted_less [OF places_discard [OF assms(1) 1(2) v]])
        (auto simp: value_length chunk_simps add.commute intro!: placed_discard [OF _ _ 1(1)])
  next
    case 2
    then have "operand_width opc = 0"
      by (auto simp: prefix_opcodes_def operand_width_def ops_u16_def ops_jump_def ops_u8_def split: if_splits)
    then show ?thesis
      unfolding 2(3) by (intro emitted_less [OF emitted_step [OF placesD [OF assms(1) 2(2)] emitted_op]])
        (auto simp: chunk_simps intro: placed_unary [OF _ 2(1), simplified])
  qed
qed

lemma places_member:
  assumes "places ce ob" "compile_member_read h ce pos ob (EIdent kpos name) False c = Inr c'"
  shows "emitted c c' {} (\<lambda>cf. placed cf (length (code c)) (EMember pos ob (EIdent kpos name) False) (length (code c')))"
proof -
  from assms(2) obtain c1 where c1: "ce ob c = Inr c1" and c': "c' = emit_string_operand OpGetProperty name pos c1"
    by (auto simp: compile_member_read_def Let_def split: if_splits)
  show ?thesis
    unfolding c' by (rule emitted_less [OF emitted_step [OF placesD [OF assms(1) c1] emitted_name]])
      (auto simp: value_length operand_width_def ops_u16_def intro: placed_member)
qed

lemma places_index:
  assumes "places ce l" "places ce i" "compile_index_read ce pos l i c = Inr c'"
  shows "emitted c c' {} (\<lambda>cf. placed cf (length (code c)) (EIndex pos l i) (length (code c')))"
proof -
  from assms(3) obtain c1 c2 where c: "ce l c = Inr c1" "ce i c1 = Inr c2" "c' = write_op OpGetIndex pos c2"
    by (auto simp: compile_index_read_def)
  show ?thesis
    unfolding c(3)
    by (rule emitted_less [OF emitted_step [OF emitted_step [OF placesD [OF assms(1) c(1)] placesD [OF assms(2) c(2)]] emitted_op]])
      (auto simp: chunk_simps intro: placed_index [simplified])
qed

lemma places_literal:
  assumes "pure e" "compile_literal_expr h ce e c = Some (Inr c')"
  shows "emitted c c' {} (\<lambda>cf. placed cf (length (code c)) e (length (code c')))"
proof -
  from assms obtain v pos where v: "literal_of e = Some v" "plain_constant v" and c': "c' = emit_value_constant v pos c"
    by (cases e) (auto simp: compile_string_literal_def emit_value_constant_def eval_string_lit_def
        split: option.splits if_splits prod.splits)
  show ?thesis
    unfolding c' by (rule emitted_less [OF emitted_value [OF v(2)]]) (auto simp: value_length intro: placed_literal v(1))
qed

lemma pure_no_spread: "pure e \<Longrightarrow> \<not> is_spread e"
  by (cases e) auto

theorem compile_places: "pure e \<Longrightarrow> places (compile_expr h res k) e"
proof (induction k arbitrary: e)
  case 0
  then show ?case by (simp add: places_def)
next
  case (Suc k)
  let ?ce = "compile_expr h res k"
  have "emitted c c' {} (\<lambda>cf. placed cf (length (code c)) e (length (code c')))"
    if c': "compile_expr h res (Suc k) e c = Inr c'" for c c'
  proof (cases "compile_literal_expr h ?ce e c")
    case (Some r)
    with c' show ?thesis using places_literal [OF Suc.prems] by (simp add: compile_expr_step_def)
  next
    case None
    then have nl: "compile_nonliteral h res ?ce (compile_stmt h res k) e c = Inr c'"
      using c' by (simp add: compile_expr_step_def)
    show ?thesis
      using Suc.prems None nl
    proof (cases e rule: pure.cases)
      case (6 pos name)
      with nl show ?thesis
        by (auto intro!: emitted_less [OF emitted_name] placed_ident simp: value_length operand_width_def ops_u16_def)
    next
      case (7 pos)
      with nl show ?thesis
        by (auto intro!: emitted_less [OF emitted_plain] placed_this [simplified] simp: compile_this_expr_def chunk_simps)
    next
      case (8 pos es)
      with Suc nl show ?thesis by (auto intro!: places_array [of es] dest: pure_no_spread)
    next
      case (9 pos op x)
      with Suc nl show ?thesis by (auto intro: places_prefix)
    next
      case (10 pos op l r)
      with Suc nl show ?thesis by (auto intro: places_infix)
    next
      case (11 pos x y z)
      with Suc nl show ?thesis by (auto intro: places_ternary)
    next
      case (12 pos ob key computed)
      with Suc nl show ?thesis by (cases key) (auto intro: places_member)
    next
      case (13 pos l i)
      with Suc nl show ?thesis by (auto intro: places_index)
    qed auto
  qed
  then show ?case by (simp add: places_def)
qed

end
