(* ===== verification/Agreement.thy ===== *)
theory Agreement
  imports Placed_Code Evaluator
begin

text \<open>
  The bytecode VM and the tree walker agree on pure expressions (\<open>Placed\<close>): where the tree walker
  returns a value, the code the compiler emits runs to its end with that value on the stack and
  the same store, and where it returns a runtime error, the code raises that error. The store has to
  be \<open>calm\<close>: no variable holds a runtime error. The world must set no limits of time or
  instructions, which the two engines count differently.
\<close>

section \<open>The world of the evaluator\<close>

lemma world_at_fields [simp]:
  "w_fmt (world_at nt w n) = w_fmt w" "w_pow (world_at nt w n) = w_pow w"
  "w_depth (world_at nt w n) = w_depth w" "w_instruction_limit (world_at nt w n) = w_instruction_limit w"
  "w_deadline_exceeded (world_at nt w n) = w_deadline_exceeded w"
  "w_register_globals (world_at nt w n) = w_register_globals w"
  by (cases n; simp add: stuck_def with_evaluator_def)+

declare world_at.simps [simp del]

lemma unlimited_world_at [simp]: "unlimited (world_at nt w n) = unlimited w"
  by (simp add: unlimited_def)

lemma in_time_unlimited: "unlimited w \<Longrightarrow> in_time w pos m = m"
  by (rule ext) (simp add: in_time_def check_timeout_def andthen_def unlimited_def)

text \<open>Operations that report errors as values only.\<close>

definition throwless :: "('x, 'a) mem_op \<Rightarrow> bool" where
  "throwless m \<longleftrightarrow> (\<forall>st e t. m st \<noteq> (Inl (Thrown e), t))"

lemma throwless_basic [intro!]:
  "throwless (ret v)" "throwless (gets f)" "throwless (modify g)" "throwless (update u)" "throwless (host_op h)"
  "throwless (err Panic)" "throwless (err Diverges)"
  "throwless (\<lambda>st. returns (r st) st)" "throwless (in_depth d)" "throwless (\<lambda>st. in_depth (s st) st)"
  by (auto simp: throwless_def sr_defs host_op_def returns_def in_depth_def
      split: prod.splits host_result.splits option.splits)

lemma throwless_andthen [intro!]: "throwless m \<Longrightarrow> (\<And>x. throwless (f x)) \<Longrightarrow> throwless (andthen m f)"
  unfolding throwless_def andthen_def by (auto split: prod.splits sum.splits)

lemma throwless_on_value [intro!]: "throwless m \<Longrightarrow> (\<And>x. throwless (f x)) \<Longrightarrow> throwless (on_value m f)"
  unfolding on_value_def unless_error_def by auto

lemma throwless_ev [intro!]: "throwless (ev w e env)"
  by (simp add: ev_def throwless_basic)

lemma as_value_throwless: "throwless m \<Longrightarrow> as_value m = m"
  by (rule ext) (auto simp: as_value_def throwless_def split: prod.splits sum.splits run_err.splits)

lemma throwless_binds [intro!]: "throwless (native_builtin n f x)" "throwless (table_method nt t n r v)" "throwless (bind_method_value v this)"
    "throwless (inspect_op fmt d v)" "throwless (default_iterator_method nt r n)"
  by (auto simp: native_builtin_def table_method_def bind_method_value_def bind_method_def inspect_op_def
      default_iterator_method_def split: option.split obj.split)

lemma throwless_get_property [intro!]: "throwless (get_property nt n v name pos)"
proof (induction n arbitrary: v)
  case (Suc n)
  then show ?case by (auto split: obj.split option.split sum.split simp: Let_def)
qed (simp add: throwless_basic)

lemma throwless_get_iterator_index [intro!]: "throwless (get_iterator_index nt fmt d v key pos)"
  by (auto simp: get_iterator_index_def Let_def split: obj.split)

lemma throwless_get_index [intro!]: "throwless (get_index nt fmt d n v key pos)"
proof (induction n arbitrary: v)
  case (Suc n)
  then show ?case by (auto split: obj.split option.split sum.split simp: Let_def)
qed (simp add: throwless_basic)

lemma throwless_elements [intro!]: "throwless (eval_elements w es env)"
  by (induction es) (auto split: expr.split obj.split sum.split)

lemma throwless_pure: "unlimited w \<Longrightarrow> pure e \<Longrightarrow> throwless (eval_expr_step nt w call rp e env)"
  by (cases e rule: pure.cases)
    (auto simp: eval_expr_step_def in_time_unlimited eval_ident_def eval_array_def eval_prefix_def eval_infix_def
      eval_ternary_def eval_member_def eval_index_def split: expr.split sum.split)


lemma eval_pure:
  assumes "unlimited w" "pure e"
  shows "eval_expr nt w (Suc n) e env =
    eval_expr_step nt (world_at nt w n) (vm_caller (world_at nt w n) n) (eval_program (world_at nt w n) (eval_stmt nt w n)) e env"
  using throwless_pure [of "world_at nt w n" e nt] assms
  by (simp add: eval_expr_def world_at.simps with_evaluator_def host_op_of as_value_throwless)

lemma eval_expr_0: "eval_expr nt w 0 e env st = (Inl Diverges, st)"
  by (simp add: eval_expr_def world_at.simps stuck_def host_op_def)

lemma ev_world_at [simp]: "ev (world_at nt w n) e env = eval_expr nt w n e env"
  by (simp add: ev_def eval_expr_def)

lemma host_property:
  "host_op (w_get_property (world_at nt w (Suc m)) v name pos) = get_property nt (w_depth w) v name pos"
  "host_op (w_get_index (world_at nt w (Suc m)) v key pos) = get_index nt (w_fmt w) (w_depth w) (w_depth w) v key pos"
  by (simp_all add: world_at.simps with_evaluator_def host_op_of as_value_throwless throwless_get_property throwless_get_index)

section \<open>Calm stores\<close>

definition calm :: "'x store \<Rightarrow> bool" where
  "calm st \<longleftrightarrow> (\<forall>a name b. sc_bindings (scopes st a) name = Some b \<longrightarrow> \<not> is_runtime_error (b_value b))
     \<and> (\<forall>a v. sc_this (scopes st a) = Some v \<longrightarrow> \<not> is_runtime_error v)
     \<and> (\<forall>name v. globals st name = Some v \<longrightarrow> \<not> is_runtime_error v)"

lemma calm_get: "calm st \<Longrightarrow> env_get st env name = Some v \<Longrightarrow> \<not> is_runtime_error v"
  by (induction env) (auto simp: calm_def split: option.splits)

abbreviation keeps_calm :: "('x, 'a) mem_op \<Rightarrow> bool" where
  "keeps_calm m \<equiv> triple calm m (\<lambda>_. calm) (\<lambda>_. calm)"

lemma calm_basic [intro!]:
  "keeps_calm (ret v)" "keeps_calm (gets f)" "keeps_calm (err e)" "keeps_calm (\<lambda>st. returns (r st) st)" "keeps_calm (\<lambda>st. in_depth (d st) st)"
  by (auto simp: triple_def sr_defs returns_def in_depth_def split: option.splits)

lemma calm_andthen [intro!]: "keeps_calm m \<Longrightarrow> (\<And>x. keeps_calm (f x)) \<Longrightarrow> keeps_calm (andthen m f)"
  by (rule triple_andthen)

lemma calm_steps [intro!]:
  "keeps_calm (update (new_array vs))" "keeps_calm (update (new_builtin b))" "keeps_calm (update (new_function f))"
  "\<not> is_runtime_error v \<Longrightarrow> keeps_calm (modify (set_this scope (Some v)))"
  by (auto simp: triple_def sr_defs new_array_def new_builtin_def new_function_def set_this_def calm_def)

lemma calm_binds [intro!]:
  "keeps_calm (native_builtin n f x)" "keeps_calm (table_method nt t n r v)" "keeps_calm (default_iterator_method nt r n)"
  "keeps_calm (inspect_op fmt d v)" "\<not> is_runtime_error this \<Longrightarrow> keeps_calm (bind_method_value v this)"
  by (auto simp: native_builtin_def table_method_def default_iterator_method_def inspect_op_def
      bind_method_value_def bind_method_def split: option.split obj.split)

lemma calm_get_property [intro!]: "keeps_calm (get_property nt n v name pos)"
proof (induction n arbitrary: v)
  case (Suc n)
  then show ?case by (auto split: obj.split option.split sum.split simp: Let_def)
qed (simp add: calm_basic)

lemma calm_get_index [intro!]: "keeps_calm (get_index nt fmt d n v key pos)"
proof (induction n arbitrary: v)
  case (Suc n)
  then show ?case by (auto split: obj.split option.split sum.split simp: get_iterator_index_def Let_def)
qed (simp add: calm_basic)

section \<open>Instructions of the VM\<close>

lemma property_run:
  assumes w: "unlimited w" and at: "name_at cf (v_ip s) OpGetProperty name pos" and stack: "v_stack s = stk @ [ob]"
    and get: "host_op (w_get_property w ob name pos) (v_mem s) = (Inr v, st)"
  shows "\<not> is_runtime_error v \<Longrightarrow> reaches w call cf s (s\<lparr>v_ip := v_ip s + 3, v_stack := stk @ [v], v_mem := st\<rparr>)"
    and "is_runtime_error v \<Longrightarrow> raises w call cf s v st"
proof -
  from at obtain ops where f: "fetches cf (v_ip s) OpGetProperty ops" and pos: "position_at cf (v_ip s) = pos"
    and const: "unat (word16_of ops) < length (constants cf)" "constants cf ! unat (word16_of ops) = OString name"
    by (auto simp: name_at_def at_op_def)
  have width: "2 \<le> operand_width OpGetProperty" by (simp add: operand_width_def ops_u16_def)
  have str: "string_const (constants cf) (word16_of ops)" using const by (simp add: string_const_def)
  have exec: "exec_op w call cf OpGetProperty (s\<lparr>v_last_ip := v_ip s, v_ip := v_ip s + 1, v_count := count\<rparr>) =
      (if is_runtime_error v
       then (Inl (Raise (Thrown v)), s\<lparr>v_last_ip := v_ip s, v_ip := v_ip s + 3, v_count := count, v_stack := stk, v_mem := st\<rparr>)
       else (Inr Continue, s\<lparr>v_last_ip := v_ip s, v_ip := v_ip s + 3, v_count := count, v_stack := stk @ [v], v_mem := st\<rparr>))"
    for count
    using get stack
    by (simp add: read_name_operands(1) [OF f _ width str] exec_op_def binary_op_text_def unary_op_text_def const(2) pos
        cont_eq get_property_from_operand_def get_property_stack_def andthen_def pop_def on_mem_def checked_def
        ret_def err_def push_def modify_def)
  show "reaches w call cf s (s\<lparr>v_ip := v_ip s + 3, v_stack := stk @ [v], v_mem := st\<rparr>)" if "\<not> is_runtime_error v"
    by (rule step_reaches [OF w f], subst exec) (simp add: that)
  show "raises w call cf s v st" if "is_runtime_error v"
    by (rule step_raises [OF w f], subst exec) (simp add: that)
qed

lemma index_run:
  assumes w: "unlimited w" and at: "at_op cf (v_ip s) OpGetIndex [] pos" and stack: "v_stack s = stk @ [ob, key]"
    and get: "host_op (w_get_index w ob key pos) (v_mem s) = (Inr v, st)"
  shows "\<not> is_runtime_error v \<Longrightarrow> reaches w call cf s (s\<lparr>v_ip := v_ip s + 1, v_stack := stk @ [v], v_mem := st\<rparr>)"
    and "is_runtime_error v \<Longrightarrow> raises w call cf s v st"
proof -
  from at have f: "fetches cf (v_ip s) OpGetIndex []" and pos: "position_at cf (v_ip s) = pos"
    by (auto simp: at_op_def)
  have exec: "exec_op w call cf OpGetIndex (s\<lparr>v_last_ip := v_ip s, v_ip := v_ip s + 1, v_count := count\<rparr>) =
      (if is_runtime_error v
       then (Inl (Raise (Thrown v)), s\<lparr>v_last_ip := v_ip s, v_ip := v_ip s + 1, v_count := count, v_stack := stk, v_mem := st\<rparr>)
       else (Inr Continue, s\<lparr>v_last_ip := v_ip s, v_ip := v_ip s + 1, v_count := count, v_stack := stk @ [v], v_mem := st\<rparr>))"
    for count
    using get stack butlast_append [of stk "[ob, key]"] butlast_append [of stk "[ob]"]
    by (simp add: exec_op_def binary_op_text_def unary_op_text_def pos at_instruction_def gets_def
        cont_eq get_index_stack_def andthen_def pop_def on_mem_def checked_def ret_def err_def push_def modify_def)
  show "reaches w call cf s (s\<lparr>v_ip := v_ip s + 1, v_stack := stk @ [v], v_mem := st\<rparr>)" if "\<not> is_runtime_error v"
    by (rule step_reaches [OF w f], subst exec) (simp add: that)
  show "raises w call cf s v st" if "is_runtime_error v"
    by (rule step_raises [OF w f], subst exec) (simp add: that)
qed


section \<open>Agreement, construct by construct\<close>

text \<open>The code up to \<open>b\<close> yields \<open>v\<close>: it pushes a value and raises an error.\<close>

definition yields :: "'x world \<Rightarrow> 'x caller \<Rightarrow> chunk \<Rightarrow> 'x vm \<Rightarrow> nat \<Rightarrow> obj \<Rightarrow> 'x store \<Rightarrow> bool" where
  "yields w call cf s b v st \<longleftrightarrow>
     (if is_runtime_error v then raises w call cf s v st
      else reaches w call cf s (s\<lparr>v_ip := b, v_stack := v_stack s @ [v], v_mem := st\<rparr>))"

definition agree :: "'x natives \<Rightarrow> 'x world \<Rightarrow> nat \<Rightarrow> 'x caller \<Rightarrow> chunk \<Rightarrow> nat \<Rightarrow> expr \<Rightarrow> nat \<Rightarrow> bool" where
  "agree nt w m call cf a e b \<longleftrightarrow>
     (\<forall>n s v st. v_ip s = a \<longrightarrow> calm (v_mem s) \<longrightarrow> eval_expr nt w n e (v_env s) (v_mem s) = (Inr v, st) \<longrightarrow>
        calm st \<and> yields (world_at nt w (Suc m)) call cf s b v st)"

definition agree_all :: "'x natives \<Rightarrow> 'x world \<Rightarrow> nat \<Rightarrow> 'x caller \<Rightarrow> chunk \<Rightarrow> nat \<Rightarrow> expr list \<Rightarrow> nat \<Rightarrow> bool" where
  "agree_all nt w m call cf a es b \<longleftrightarrow>
     (\<forall>n s r st. v_ip s = a \<longrightarrow> calm (v_mem s) \<longrightarrow>
        eval_elements (world_at nt w n) es (v_env s) (v_mem s) = (Inr r, st) \<longrightarrow>
        calm st \<and>
        (case r of
           Inl v \<Rightarrow> is_runtime_error v \<and> raises (world_at nt w (Suc m)) call cf s v st
         | Inr vs \<Rightarrow> length vs = length es \<and>
             reaches (world_at nt w (Suc m)) call cf s (s\<lparr>v_ip := b, v_stack := v_stack s @ vs, v_mem := st\<rparr>)))"

lemma agreeD:
  assumes "agree nt w m call cf a e b" "v_ip s = a" "calm (v_mem s)" "eval_expr nt w n e (v_env s) (v_mem s) = (Inr v, st)"
  shows "calm st" and "is_runtime_error v \<Longrightarrow> raises (world_at nt w (Suc m)) call cf s v st"
    and "\<not> is_runtime_error v \<Longrightarrow>
      reaches (world_at nt w (Suc m)) call cf s (s\<lparr>v_ip := b, v_stack := v_stack s @ [v], v_mem := st\<rparr>)"
  using assms by (auto simp: agree_def yields_def)

text \<open>It suffices to look at one unfolding of the evaluator.\<close>

lemma agreeI:
  assumes w: "unlimited w" and e: "pure e"
    and step: "\<And>n call' rp s v st. v_ip s = a \<Longrightarrow> calm (v_mem s) \<Longrightarrow>
      eval_expr_step nt (world_at nt w n) call' rp e (v_env s) (v_mem s) = (Inr v, st) \<Longrightarrow>
      calm st \<and> yields (world_at nt w (Suc m)) call cf s b v st"
  shows "agree nt w m call cf a e b"
  unfolding agree_def
proof (intro allI impI)
  fix n and s :: "_ vm" and v st
  assume s: "v_ip s = a" "calm (v_mem s)" and ev: "eval_expr nt w n e (v_env s) (v_mem s) = (Inr v, st)"
  show "calm st \<and> yields (world_at nt w (Suc m)) call cf s b v st"
  proof (cases n)
    case 0
    with ev show ?thesis by (simp add: eval_expr_0)
  next
    case (Suc k)
    with ev s show ?thesis by (intro step) (simp_all add: eval_pure [OF w e])
  qed
qed

lemma on_value_Inr:
  assumes "on_value m f st = (Inr v, st')"
  obtains u st1 where "m st = (Inr u, st1)" "is_runtime_error u" "v = u" "st' = st1"
    | u st1 where "m st = (Inr u, st1)" "\<not> is_runtime_error u" "f u st1 = (Inr v, st')"
  using assms that by (auto simp: on_value_def andthen_Inr unless_error_def ret_def split: if_splits)

lemma yields_error: "is_runtime_error v \<Longrightarrow> raises w call cf s v st \<Longrightarrow> yields w call cf s b v st"
  by (simp add: yields_def)

lemma yields_value:
  "\<not> is_runtime_error v \<Longrightarrow> reaches w call cf s (s\<lparr>v_ip := b, v_stack := v_stack s @ [v], v_mem := st\<rparr>) \<Longrightarrow>
     yields w call cf s b v st"
  by (simp add: yields_def)

lemma yields_after:
  assumes "reaches w call cf s t" "yields w call cf t b v st" "v_stack t = v_stack s" "v_env t = v_env s"
    "v_open t = v_open s" "v_upvalues t = v_upvalues s"
  shows "yields w call cf s b v st"
proof (cases "is_runtime_error v")
  case True
  with assms(1,2) show ?thesis by (auto simp: yields_def intro: reaches_raises)
next
  case False
  let ?u = "t\<lparr>v_ip := b, v_stack := v_stack s @ [v], v_mem := st\<rparr>"
  let ?v = "s\<lparr>v_ip := b, v_stack := v_stack s @ [v], v_mem := st\<rparr>"
  have "reaches w call cf s ?u" using assms(1-3) False by (auto simp: yields_def intro: reaches_trans)
  moreover have "same_frame t' ?u \<longleftrightarrow> same_frame t' ?v" for t' using assms(3-) by (simp add: same_frame_def)
  ultimately show ?thesis using False by (simp add: yields_def reaches_def)
qed

lemma not_defined_error [simp]: "is_runtime_error (not_defined pos name)"
  by (simp add: not_defined_def)

lemma unlimited_W: "unlimited w \<Longrightarrow> unlimited (world_at nt w n)"
  by simp

lemma const_run:
  assumes w: "unlimited w" and at: "const_at cf (v_ip s) v"
  shows "reaches w call cf s (s\<lparr>v_ip := v_ip s + 3, v_stack := v_stack s @ [v]\<rparr>)"
  using reaches_const [OF w, of cf s] at by (auto simp: const_at_def at_op_def)

lemma literal_of_pure: "literal_of e = Some v \<Longrightarrow> pure e \<Longrightarrow> \<not> is_runtime_error v"
  by (cases e) (auto simp: eval_string_lit_def split: if_splits option.splits)

lemma agree_literal:
  assumes w: "unlimited w" and e: "pure e" and lit: "literal_of e = Some v" and at: "const_at cf a v"
  shows "agree nt w m call cf a e (a + 3)"
proof (rule agreeI [OF w e])
  fix n call' rp and s :: "_ vm" and u st
  assume s: "v_ip s = a" "calm (v_mem s)"
    and ev: "eval_expr_step nt (world_at nt w n) call' rp e (v_env s) (v_mem s) = (Inr u, st)"
  from ev lit have "u = v" "st = v_mem s"
    by (cases e; auto simp: eval_expr_step_def in_time_unlimited w in_depth_def ret_def)+
  with s const_run [OF unlimited_W [OF w], of cf s v] at literal_of_pure [OF lit e]
  show "calm st \<and> yields (world_at nt w (Suc m)) call cf s (a + 3) u st" by (simp add: yields_def)
qed

lemma agree_ident:
  assumes w: "unlimited w" and at: "name_at cf a OpLoadName name pos"
  shows "agree nt w m call cf a (EIdent pos name) (a + 3)"
proof (rule agreeI [OF w])
  fix n call' rp and s :: "_ vm" and u st
  assume s: "v_ip s = a" "calm (v_mem s)"
    and ev: "eval_expr_step nt (world_at nt w n) call' rp (EIdent pos name) (v_env s) (v_mem s) = (Inr u, st)"
  from at obtain ops where f: "fetches cf (v_ip s) OpLoadName ops" and pos: "position_at cf (v_ip s) = pos"
    and const: "unat (word16_of ops) < length (constants cf)" "constants cf ! unat (word16_of ops) = OString name"
    by (auto simp: name_at_def at_op_def s)
  note load = load_name_run [OF unlimited_W [OF w, of nt "Suc m"] f const]
  from ev have "st = v_mem s" "u = (case env_get (v_mem s) (v_env s) name of Some v \<Rightarrow> v | None \<Rightarrow> not_defined pos name)"
    by (auto simp: eval_expr_step_def in_time_unlimited w eval_ident_def gets_def)
  with s load pos calm_get [OF s(2), of "v_env s" name]
  show "calm st \<and> yields (world_at nt w (Suc m)) call cf s (a + 3) u st"
    by (cases "env_get (v_mem s) (v_env s) name") (simp_all add: yields_def)
qed simp

lemma agree_this:
  assumes w: "unlimited w" and at: "plain_at cf a OpLoadThis"
  shows "agree nt w m call cf a (EThis pos) (a + 1)"
proof (rule agreeI [OF w])
  fix n call' rp and s :: "_ vm" and u st
  assume s: "v_ip s = a" "calm (v_mem s)"
    and ev: "eval_expr_step nt (world_at nt w n) call' rp (EThis pos) (v_env s) (v_mem s) = (Inr u, st)"
  from at have f: "fetches cf (v_ip s) OpLoadThis []" by (auto simp: plain_at_def at_op_def s)
  note load = reaches_plain(4) [OF unlimited_W [OF w] f refl]
  from ev have "st = v_mem s" "u = (case sc_this (scopes (v_mem s) (hd (v_env s))) of Some v \<Rightarrow> v | None \<Rightarrow> OUndefined)"
    by (auto simp: eval_expr_step_def in_time_unlimited w gets_def)
  moreover from this s(2) have "\<not> is_runtime_error u" by (auto simp: calm_def split: option.splits)
  ultimately show "calm st \<and> yields (world_at nt w (Suc m)) call cf s (a + 1) u st"
    using s load [of nt "Suc m" call] by (simp add: yields_def)
qed simp


lemma agree_none: "agree_all nt w m call cf a [] a"
proof -
  have "s\<lparr>v_ip := v_ip s, v_stack := v_stack s, v_mem := v_mem s\<rparr> = s" for s :: "'x vm" by simp
  then show ?thesis by (auto simp: agree_all_def ret_def)
qed

lemma eval_elements_more:
  "\<not> is_spread e \<Longrightarrow> eval_elements w (e # es) env =
     andthen (ev w e env) (\<lambda>v. if is_runtime_error v then ret (Inl v)
       else andthen (eval_elements w es env) (\<lambda>rest. ret (case rest of Inl u \<Rightarrow> Inl u | Inr ws \<Rightarrow> Inr (v # ws))))"
  by (cases e) (auto simp: fun_eq_iff andthen_def ret_def split: prod.splits sum.splits)

lemma agree_more:
  assumes e: "agree nt w m call cf a e b" "\<not> is_spread e" and es: "agree_all nt w m call cf b es d"
  shows "agree_all nt w m call cf a (e # es) d"
  unfolding agree_all_def
proof (intro allI impI)
  fix n and s :: "_ vm" and r st
  let ?W = "world_at nt w (Suc m)"
  assume s: "v_ip s = a" "calm (v_mem s)"
    and ev: "eval_elements (world_at nt w n) (e # es) (v_env s) (v_mem s) = (Inr r, st)"
  from ev obtain v st1 where v: "eval_expr nt w n e (v_env s) (v_mem s) = (Inr v, st1)"
    and rest: "(if is_runtime_error v then ret (Inl v)
       else andthen (eval_elements (world_at nt w n) es (v_env s))
         (\<lambda>rest. ret (case rest of Inl u \<Rightarrow> Inl u | Inr ws \<Rightarrow> Inr (v # ws)))) st1 = (Inr r, st)"
    unfolding eval_elements_more [OF e(2)] andthen_Inr by auto
  note at_v = agreeD [OF e(1) s v]
  show "calm st \<and> (case r of Inl v \<Rightarrow> is_runtime_error v \<and> raises ?W call cf s v st
      | Inr vs \<Rightarrow> length vs = length (e # es) \<and> reaches ?W call cf s (s\<lparr>v_ip := d, v_stack := v_stack s @ vs, v_mem := st\<rparr>))"
  proof (cases "is_runtime_error v")
    case True
    with rest at_v show ?thesis by (auto simp: ret_def)
  next
    case False
    define s1 where "s1 = s\<lparr>v_ip := b, v_stack := v_stack s @ [v], v_mem := st1\<rparr>"
    from False rest obtain q where q: "eval_elements (world_at nt w n) es (v_env s1) (v_mem s1) = (Inr q, st)"
      and r: "r = (case q of Inl u \<Rightarrow> Inl u | Inr ws \<Rightarrow> Inr (v # ws))" by (auto simp: s1_def andthen_Inr ret_def)
    have go: "reaches ?W call cf s s1" using at_v(3) False by (simp add: s1_def)
    have "calm (v_mem s1)" "v_ip s1 = b" using at_v(1) by (simp_all add: s1_def)
    with es q have "calm st \<and> (case q of Inl v \<Rightarrow> is_runtime_error v \<and> raises ?W call cf s1 v st
      | Inr vs \<Rightarrow> length vs = length es \<and> reaches ?W call cf s1 (s1\<lparr>v_ip := d, v_stack := v_stack s1 @ vs, v_mem := st\<rparr>))"
      unfolding agree_all_def by blast
    with r show ?thesis
      by (cases q) (auto simp: s1_def intro: reaches_raises [OF go] reaches_trans [OF go])
  qed
qed

lemma agree_array:
  assumes w: "unlimited w" and pure: "pure (EArray pos es)" and es: "agree_all nt w m call cf a es b"
    and at: "at_op cf b OpNewArray ops pos" "unat (word16_of ops) = length es"
  shows "agree nt w m call cf a (EArray pos es) (b + 3)"
proof (rule agreeI [OF w pure])
  fix n call' rp and s :: "_ vm" and u st
  let ?W = "world_at nt w (Suc m)"
  assume s: "v_ip s = a" "calm (v_mem s)"
    and ev: "eval_expr_step nt (world_at nt w n) call' rp (EArray pos es) (v_env s) (v_mem s) = (Inr u, st)"
  from ev obtain r st1 where r: "eval_elements (world_at nt w n) es (v_env s) (v_mem s) = (Inr r, st1)"
    and rest: "(case r of Inl v \<Rightarrow> ret v | Inr vs \<Rightarrow> update (new_array vs)) st1 = (Inr u :: run_err + obj, st)"
    by (simp add: eval_expr_step_def in_time_unlimited w eval_array_def andthen_Inr) blast
  from es s r have all: "calm st1 \<and> (case r of Inl v \<Rightarrow> is_runtime_error v \<and> raises ?W call cf s v st1
      | Inr vs \<Rightarrow> length vs = length es \<and> reaches ?W call cf s (s\<lparr>v_ip := b, v_stack := v_stack s @ vs, v_mem := st1\<rparr>))"
    unfolding agree_all_def by blast
  show "calm st \<and> yields ?W call cf s (b + 3) u st"
  proof (cases r)
    case (Inl v)
    with all rest show ?thesis by (simp add: ret_def yields_def)
  next
    case (Inr vs)
    define s1 where "s1 = s\<lparr>v_ip := b, v_stack := v_stack s @ vs, v_mem := st1\<rparr>"
    have go: "reaches ?W call cf s s1" using all Inr by (simp add: s1_def)
    have f: "fetches cf (v_ip s1) OpNewArray ops" using at(1) by (simp add: s1_def at_op_def)
    have new: "new_array vs (v_mem s1) = (u, st)" using rest Inr by (auto simp: update_def s1_def split: prod.splits)
    have "reaches ?W call cf s1 (s1\<lparr>v_ip := v_ip s1 + 3, v_stack := v_stack s @ [u], v_mem := st\<rparr>)"
      by (rule new_array_run [OF unlimited_W [OF w] f _ _ new]) (use all Inr at(2) in \<open>simp_all add: s1_def\<close>)
    then have "reaches ?W call cf s (s\<lparr>v_ip := b + 3, v_stack := v_stack s @ [u], v_mem := st\<rparr>)"
      using reaches_trans [OF go] by (simp add: s1_def)
    moreover have "u = OArray (next_addr st1)" using new by (auto simp: new_array_def s1_def)
    moreover have "calm st"
      using triple_Inr [OF calm_steps(1), of st1 vs u st] all new by (simp add: update_def s1_def)
    ultimately show ?thesis by (simp add: yields_def)
  qed
qed


text \<open>What is evaluated first, and what is done with its value.\<close>

lemma agree_first:
  assumes w: "unlimited w" and e: "agree nt w m call cf a e b" and s: "v_ip s = a" "calm (v_mem s)"
    and ev: "on_value (eval_expr nt w n e (v_env s)) f (v_mem s) = (Inr u, st)"
    and rest: "\<And>v s1. \<not> is_runtime_error v \<Longrightarrow> v_ip s1 = b \<Longrightarrow> v_stack s1 = v_stack s @ [v] \<Longrightarrow> v_env s1 = v_env s \<Longrightarrow>
      v_open s1 = v_open s \<Longrightarrow> v_upvalues s1 = v_upvalues s \<Longrightarrow>
      calm (v_mem s1) \<Longrightarrow> f v (v_mem s1) = (Inr u, st) \<Longrightarrow> reaches (world_at nt w (Suc m)) call cf s s1 \<Longrightarrow>
      calm st \<and> yields (world_at nt w (Suc m)) call cf s d u st"
  shows "calm st \<and> yields (world_at nt w (Suc m)) call cf s d u st"
  using ev
proof (cases rule: on_value_Inr)
  case (1 v st1)
  with agreeD [OF e s 1(1)] show ?thesis by (simp add: yields_error)
next
  case (2 v st1)
  with agreeD [OF e s 2(1)] show ?thesis
    by (intro rest [of v "s\<lparr>v_ip := b, v_stack := v_stack s @ [v], v_mem := st1\<rparr>"]) simp_all
qed

text \<open>The end of a construct: an instruction that leaves a value or an error.\<close>

lemma yields_last:
  assumes go: "reaches w call cf s t" "v_env t = v_env s" "v_open t = v_open s" "v_upvalues t = v_upvalues s"
    and v: "\<not> is_runtime_error u \<Longrightarrow> reaches w call cf t (t\<lparr>v_ip := b, v_stack := v_stack s @ [u], v_mem := st\<rparr>)"
      "is_runtime_error u \<Longrightarrow> raises w call cf t u st"
  shows "yields w call cf s b u st"
proof (cases "is_runtime_error u")
  case True
  with v(2) go(1) show ?thesis by (auto simp: yields_def intro: reaches_raises)
next
  case False
  let ?t = "t\<lparr>v_ip := b, v_stack := v_stack s @ [u], v_mem := st\<rparr>"
  have "reaches w call cf s ?t" using v(1) go(1) False by (blast intro: reaches_trans)
  moreover have "same_frame t' ?t \<longleftrightarrow> same_frame t' (s\<lparr>v_ip := b, v_stack := v_stack s @ [u], v_mem := st\<rparr>)" for t'
    using go(2-) by (simp add: same_frame_def)
  ultimately show ?thesis using False by (simp add: yields_def reaches_def)
qed

lemma prefix_signs:
  assumes "map_of prefix_opcodes op = Some opc"
  shows "opc = OpTypeOf \<and> op = ''typeof'' \<or>
    map_of binary_op_text opc = None \<and> map_of unary_op_text opc = Some op" "op \<noteq> ''delete''"
  using assms by (auto simp: prefix_opcodes_def binary_op_text_def unary_op_text_def split: if_splits)

lemma agree_unary:
  assumes w: "unlimited w" and pure: "pure (EPrefix pos op e)" and e: "agree nt w m call cf a e b"
    and op: "map_of prefix_opcodes op = Some opc" and at: "at_op cf b opc [] pos"
  shows "agree nt w m call cf a (EPrefix pos op e) (b + 1)"
proof (rule agreeI [OF w pure])
  fix n call' rp and s :: "_ vm" and u st
  assume s: "v_ip s = a" "calm (v_mem s)"
    and ev: "eval_expr_step nt (world_at nt w n) call' rp (EPrefix pos op e) (v_env s) (v_mem s) = (Inr u, st)"
  have ev: "on_value (eval_expr nt w n e (v_env s)) (\<lambda>v. ret (apply_unary_op op v pos)) (v_mem s) = (Inr u, st)"
    using ev pure prefix_signs(2) [OF op] by (simp add: eval_expr_step_def in_time_unlimited w eval_prefix_def)
  show "calm st \<and> yields (world_at nt w (Suc m)) call cf s (b + 1) u st"
  proof (rule agree_first [OF w e s ev])
    fix v s1
    assume s1: "v_ip s1 = b" "v_stack s1 = v_stack s @ [v]" "v_env s1 = v_env s" "v_open s1 = v_open s"
      "v_upvalues s1 = v_upvalues s" "calm (v_mem s1)" "ret (apply_unary_op op v pos) (v_mem s1) = (Inr u, st)"
      and go: "reaches (world_at nt w (Suc m)) call cf s s1"
    from s1(7) have u: "u = apply_unary_op op v pos" and st: "st = v_mem s1" by (auto simp: ret_def)
    from at s1(1) have f: "fetches cf (v_ip s1) opc []" and pos: "position_at cf b = pos" by (auto simp: at_op_def)
    note W = unlimited_W [OF w, of nt "Suc m"]
    from prefix_signs(1) [OF op] have "(\<not> is_runtime_error u \<longrightarrow>
        reaches (world_at nt w (Suc m)) call cf s1 (s1\<lparr>v_ip := b + 1, v_stack := v_stack s @ [u]\<rparr>)) \<and>
      (is_runtime_error u \<longrightarrow> raises (world_at nt w (Suc m)) call cf s1 u st)"
    proof
      assume "opc = OpTypeOf \<and> op = ''typeof''"
      then show ?thesis using reaches_plain(3) [OF W f _ s1(2), of call] s1(1) by (simp add: u apply_unary_op_def)
    next
      assume sign: "map_of binary_op_text opc = None \<and> map_of unary_op_text opc = Some op"
      show ?thesis
        using unary_run [OF W f conjunct1 [OF sign] conjunct2 [OF sign] s1(2), of call] by (simp add: pos u st s1(1))
    qed
    then have "yields (world_at nt w (Suc m)) call cf s (b + 1) u st"
      by (intro yields_last [OF go s1(3-5)]) (simp_all add: st)
    with s1(6) show "calm st \<and> yields (world_at nt w (Suc m)) call cf s (b + 1) u st" by (simp add: st)
  qed
qed


lemma pop_run:
  assumes w: "unlimited w" and at: "plain_at cf (v_ip s) OpPop" and stack: "v_stack s = stk @ [v]"
  shows "reaches w call cf s (s\<lparr>v_ip := v_ip s + 1, v_stack := stk\<rparr>)"
  using at reaches_plain(1) [OF w, of cf s OpPop "[]" call] stack by (auto simp: plain_at_def at_op_def)

lemma dup_run:
  assumes w: "unlimited w" and at: "plain_at cf (v_ip s) OpDup" and stack: "v_stack s = stk @ [v]"
  shows "reaches w call cf s (s\<lparr>v_ip := v_ip s + 1, v_stack := stk @ [v, v]\<rparr>)"
  using at reaches_plain(2) [OF w, of cf s OpDup "[]" call] stack by (auto simp: plain_at_def at_op_def)

lemma jump_run:
  assumes w: "unlimited w"
  shows "jump_at cf (v_ip s) OpJump t \<Longrightarrow> reaches w call cf s (s\<lparr>v_ip := t\<rparr>)"
    and "jump_at cf (v_ip s) OpJumpIfFalse t \<Longrightarrow> v_stack s = stk @ [v] \<Longrightarrow>
      reaches w call cf s (s\<lparr>v_ip := (if is_truthy v then v_ip s + 5 else t), v_stack := stk\<rparr>)"
    and "jump_at cf (v_ip s) OpJumpIfTrue t \<Longrightarrow> v_stack s = stk @ [v] \<Longrightarrow>
      reaches w call cf s (s\<lparr>v_ip := (if is_truthy v then t else v_ip s + 5), v_stack := stk\<rparr>)"
  using reaches_jump [OF w, of cf s] by (auto simp: jump_at_def at_op_def)

lemma reaches_same:
  assumes "reaches w call cf s t" "same_frame t u"
  shows "reaches w call cf s u"
proof -
  have "same_frame t' u \<longleftrightarrow> same_frame t' t" for t' using assms(2) by (simp add: same_frame_def)
  with assms(1) show ?thesis by (simp add: reaches_def)
qed

text \<open>A test of a copy of the top of the stack.\<close>

lemma peek_run:
  assumes w: "unlimited w" and at: "plain_at cf b OpDup" "jump_at cf (b + 1) OpJumpIfFalse d"
    and s: "v_ip s = b" "v_stack s = stk @ [v]"
  shows "reaches w call cf s (s\<lparr>v_ip := (if is_truthy v then b + 6 else d)\<rparr>)"
proof -
  let ?s1 = "s\<lparr>v_ip := b + 1, v_stack := stk @ [v, v]\<rparr>"
  have 1: "reaches w call cf s ?s1" using dup_run [OF w _ s(2), of cf call] at(1) s(1) by simp
  have 2: "reaches w call cf ?s1 (?s1\<lparr>v_ip := (if is_truthy v then v_ip ?s1 + 5 else d), v_stack := stk @ [v]\<rparr>)"
    by (rule jump_run(2) [OF w]) (use at(2) in simp_all)
  show ?thesis by (rule reaches_same [OF reaches_trans [OF 1 2]]) (use s in \<open>simp add: same_frame_def\<close>)
qed

lemma agree_discard:
  assumes w: "unlimited w" and pure: "pure (EPrefix pos op e)" and e: "agree nt w m call cf a e b"
    and at: "plain_at cf b OpPop" "const_at cf (b + 1) v0" and op: "(op, v0) \<in> {(''delete'', OBoolean True), (''void'', OUndefined)}"
  shows "agree nt w m call cf a (EPrefix pos op e) (b + 4)"
proof (rule agreeI [OF w pure])
  fix n call' rp and s :: "_ vm" and u st
  let ?W = "world_at nt w (Suc m)"
  assume s: "v_ip s = a" "calm (v_mem s)"
    and ev: "eval_expr_step nt (world_at nt w n) call' rp (EPrefix pos op e) (v_env s) (v_mem s) = (Inr u, st)"
  have ev: "on_value (eval_expr nt w n e (v_env s)) (\<lambda>v. ret v0) (v_mem s) = (Inr u, st)"
    using ev op by (auto simp: eval_expr_step_def in_time_unlimited w eval_prefix_def apply_unary_op_def)
  show "calm st \<and> yields ?W call cf s (b + 4) u st"
  proof (rule agree_first [OF w e s ev])
    fix v s1
    assume s1: "v_ip s1 = b" "v_stack s1 = v_stack s @ [v]" "v_env s1 = v_env s" "v_open s1 = v_open s"
      "v_upvalues s1 = v_upvalues s" "calm (v_mem s1)" "ret v0 (v_mem s1) = (Inr u, st)"
      and go: "reaches ?W call cf s s1"
    from s1(7) op have u: "u = v0" "\<not> is_runtime_error u" and st: "st = v_mem s1" by (auto simp: ret_def)
    note W = unlimited_W [OF w, of nt "Suc m"]
    have pop: "reaches ?W call cf s1 (s1\<lparr>v_ip := b + 1, v_stack := v_stack s\<rparr>)"
      using pop_run [OF W _ s1(2), of cf call] at(1) s1(1) by simp
    have "reaches ?W call cf s1 (s1\<lparr>v_ip := b + 4, v_stack := v_stack s @ [u]\<rparr>)"
      using const_run [OF W, of cf "s1\<lparr>v_ip := b + 1, v_stack := v_stack s\<rparr>" v0 call] at(2)
      by (intro reaches_trans [OF pop]) (simp add: u add.commute)
    with u have "yields ?W call cf s (b + 4) u st" by (intro yields_last [OF go s1(3-5)]) (simp_all add: st)
    with s1(6) show "calm st \<and> yields ?W call cf s (b + 4) u st" by (simp add: st)
  qed
qed

text \<open>Two operands, one after the other.\<close>

lemma agree_second:
  assumes w: "unlimited w" and l: "agree nt w m call cf a l b" and r: "agree nt w m call cf b r d"
    and s: "v_ip s = a" "calm (v_mem s)"
    and ev: "on_value (eval_expr nt w n l (v_env s)) (\<lambda>x. on_value (eval_expr nt w n r (v_env s)) (f x)) (v_mem s) = (Inr u, st)"
    and rest: "\<And>x y s1. v_ip s1 = d \<Longrightarrow> v_stack s1 = v_stack s @ [x, y] \<Longrightarrow> v_env s1 = v_env s \<Longrightarrow>
      v_open s1 = v_open s \<Longrightarrow> v_upvalues s1 = v_upvalues s \<Longrightarrow>
      calm (v_mem s1) \<Longrightarrow> f x y (v_mem s1) = (Inr u, st) \<Longrightarrow> reaches (world_at nt w (Suc m)) call cf s s1 \<Longrightarrow>
      calm st \<and> yields (world_at nt w (Suc m)) call cf s k u st"
  shows "calm st \<and> yields (world_at nt w (Suc m)) call cf s k u st"
proof (rule agree_first [OF w l s ev])
  fix x s1
  assume s1: "v_ip s1 = b" "v_stack s1 = v_stack s @ [x]" "v_env s1 = v_env s" "v_open s1 = v_open s"
    "v_upvalues s1 = v_upvalues s" "calm (v_mem s1)"
    and ev1: "on_value (eval_expr nt w n r (v_env s)) (f x) (v_mem s1) = (Inr u, st)"
    and go: "reaches (world_at nt w (Suc m)) call cf s s1"
  from ev1 show "calm st \<and> yields (world_at nt w (Suc m)) call cf s k u st"
  proof (cases rule: on_value_Inr)
    case (1 y st1)
    then have "eval_expr nt w n r (v_env s1) (v_mem s1) = (Inr u, st)" by (simp add: s1(3))
    from agreeD(1,2) [OF r s1(1,6) this] 1 go show ?thesis by (auto simp: yields_def intro: reaches_raises)
  next
    case (2 y st1)
    let ?s2 = "s1\<lparr>v_ip := d, v_stack := v_stack s1 @ [y], v_mem := st1\<rparr>"
    have y: "eval_expr nt w n r (v_env s1) (v_mem s1) = (Inr y, st1)" using 2 by (simp add: s1(3))
    show ?thesis
      by (rule rest [of ?s2 x y]) (use agreeD [OF r s1(1,6) y] 2 s1 reaches_trans [OF go] in auto)
  qed
qed

lemma binary_sign: "binary_opcode op = Some opc \<Longrightarrow> map_of binary_op_text opc = Some op"
  by (auto simp: binary_opcode_def binary_opcodes_def binary_op_text_def split: if_splits)

lemma agree_binary:
  assumes w: "unlimited w" and pure: "pure (EInfix pos op l (Some r))" and l: "agree nt w m call cf a l b"
    and r: "agree nt w m call cf b r d" and op: "binary_opcode op = Some opc" and at: "at_op cf d opc [] pos"
  shows "agree nt w m call cf a (EInfix pos op l (Some r)) (d + 1)"
proof (rule agreeI [OF w pure])
  fix n call' rp and s :: "_ vm" and u st
  let ?W = "world_at nt w (Suc m)"
  assume s: "v_ip s = a" "calm (v_mem s)"
    and ev: "eval_expr_step nt (world_at nt w n) call' rp (EInfix pos op l (Some r)) (v_env s) (v_mem s) = (Inr u, st)"
  have "op \<notin> {''&&'', ''||'', ''??''}" using op by (auto simp: binary_opcode_def binary_opcodes_def)
  with ev have ev: "on_value (eval_expr nt w n l (v_env s)) (\<lambda>x. on_value (eval_expr nt w n r (v_env s))
      (\<lambda>y st. returns (apply_binary_op (w_pow w) st op x y pos) st)) (v_mem s) = (Inr u, st)"
    by (simp add: eval_expr_step_def in_time_unlimited w eval_infix_def)
  show "calm st \<and> yields ?W call cf s (d + 1) u st"
  proof (rule agree_second [OF w l r s ev])
    fix x y s1
    assume s1: "v_ip s1 = d" "v_stack s1 = v_stack s @ [x, y]" "v_env s1 = v_env s" "v_open s1 = v_open s"
      "v_upvalues s1 = v_upvalues s" "calm (v_mem s1)"
      and res: "returns (apply_binary_op (w_pow w) (v_mem s1) op x y pos) (v_mem s1) = (Inr u, st)"
      and go: "reaches ?W call cf s s1"
    from res have u: "apply_binary_op (w_pow w) (v_mem s1) op x y pos = Some u" and st: "st = v_mem s1"
      by (auto simp: returns_def sr_defs split: option.splits)
    from at s1(1) have f: "fetches cf (v_ip s1) opc []" and pos: "position_at cf d = pos" by (auto simp: at_op_def)
    note run = binary_run [OF unlimited_W [OF w, of nt "Suc m"] f binary_sign [OF op] s1(2), of u call]
    have "yields ?W call cf s (d + 1) u st"
      by (rule yields_last [OF go s1(3-5)]) (use run u pos s1(1) in \<open>simp_all add: st\<close>)
    with s1(6) show "calm st \<and> yields ?W call cf s (d + 1) u st" by (simp add: st)
  qed
qed


lemma agree_member:
  assumes w: "unlimited w" and pure: "pure (EMember pos ob (EIdent kpos name) False)" and ob: "agree nt w m call cf a ob b"
    and at: "name_at cf b OpGetProperty name pos"
  shows "agree nt w m call cf a (EMember pos ob (EIdent kpos name) False) (b + 3)"
proof (rule agreeI [OF w pure])
  fix n call' rp and s :: "_ vm" and u st
  let ?W = "world_at nt w (Suc m)"
  assume s: "v_ip s = a" "calm (v_mem s)"
    and ev: "eval_expr_step nt (world_at nt w n) call' rp (EMember pos ob (EIdent kpos name) False) (v_env s) (v_mem s) = (Inr u, st)"
  from pure have "(case ob of ESuper _ _ \<Rightarrow> False | _ \<Rightarrow> True)" by (cases ob) auto
  with ev have ev: "on_value (eval_expr nt w n ob (v_env s)) (\<lambda>v. get_property nt (w_depth w) v name pos) (v_mem s) = (Inr u, st)"
    by (auto simp: eval_expr_step_def in_time_unlimited w eval_member_def property_key_def split: expr.splits)
  show "calm st \<and> yields ?W call cf s (b + 3) u st"
  proof (rule agree_first [OF w ob s ev])
    fix v s1
    assume s1: "v_ip s1 = b" "v_stack s1 = v_stack s @ [v]" "v_env s1 = v_env s" "v_open s1 = v_open s"
      "v_upvalues s1 = v_upvalues s" "calm (v_mem s1)" and get: "get_property nt (w_depth w) v name pos (v_mem s1) = (Inr u, st)"
      and go: "reaches ?W call cf s s1"
    have at1: "name_at cf (v_ip s1) OpGetProperty name pos" using at s1(1) by simp
    have got: "host_op (w_get_property ?W v name pos) (v_mem s1) = (Inr u, st)" by (simp add: host_property get)
    note run = property_run [OF unlimited_W [OF w, of nt "Suc m"] at1 s1(2) got, of call]
    have "yields ?W call cf s (b + 3) u st"
      by (rule yields_last [OF go s1(3-5)]) (use run s1(1) in simp_all)
    moreover have "calm st" by (rule triple_Inr [OF calm_get_property s1(6) get])
    ultimately show "calm st \<and> yields ?W call cf s (b + 3) u st" by simp
  qed
qed

lemma agree_index:
  assumes w: "unlimited w" and pure: "pure (EIndex pos l i)" and l: "agree nt w m call cf a l b"
    and i: "agree nt w m call cf b i d" and at: "at_op cf d OpGetIndex [] pos"
  shows "agree nt w m call cf a (EIndex pos l i) (d + 1)"
proof (rule agreeI [OF w pure])
  fix n call' rp and s :: "_ vm" and u st
  let ?W = "world_at nt w (Suc m)"
  assume s: "v_ip s = a" "calm (v_mem s)"
    and ev: "eval_expr_step nt (world_at nt w n) call' rp (EIndex pos l i) (v_env s) (v_mem s) = (Inr u, st)"
  from ev have ev: "on_value (eval_expr nt w n l (v_env s)) (\<lambda>x. on_value (eval_expr nt w n i (v_env s))
      (\<lambda>y. get_index nt (w_fmt w) (w_depth w) (w_depth w) x y pos)) (v_mem s) = (Inr u, st)"
    by (simp add: eval_expr_step_def in_time_unlimited w eval_index_def)
  show "calm st \<and> yields ?W call cf s (d + 1) u st"
  proof (rule agree_second [OF w l i s ev])
    fix x y s1
    assume s1: "v_ip s1 = d" "v_stack s1 = v_stack s @ [x, y]" "v_env s1 = v_env s" "v_open s1 = v_open s"
      "v_upvalues s1 = v_upvalues s" "calm (v_mem s1)"
      and get: "get_index nt (w_fmt w) (w_depth w) (w_depth w) x y pos (v_mem s1) = (Inr u, st)"
      and go: "reaches ?W call cf s s1"
    have at1: "at_op cf (v_ip s1) OpGetIndex [] pos" using at s1(1) by simp
    have got: "host_op (w_get_index ?W x y pos) (v_mem s1) = (Inr u, st)" by (simp add: host_property get)
    note run = index_run [OF unlimited_W [OF w, of nt "Suc m"] at1 s1(2) got, of call]
    have "yields ?W call cf s (d + 1) u st"
      by (rule yields_last [OF go s1(3-5)]) (use run s1(1) in simp_all)
    moreover have "calm st" by (rule triple_Inr [OF calm_get_index s1(6) get])
    ultimately show "calm st \<and> yields ?W call cf s (d + 1) u st" by simp
  qed
qed

text \<open>A branch: the rest of the construct is an expression at \<open>b\<close> that is evaluated from state \<open>t\<close>.\<close>

lemma yields_branch:
  assumes e: "agree nt w m call cf b e d" and go: "reaches (world_at nt w (Suc m)) call cf s t"
    and t: "v_ip t = b" "v_stack t = v_stack s" "v_env t = v_env s" "v_open t = v_open s" "v_upvalues t = v_upvalues s"
    and ev: "calm (v_mem t)" "eval_expr nt w n e (v_env s) (v_mem t) = (Inr u, st)"
    and jump: "\<And>t'. v_ip t' = d \<Longrightarrow> reaches (world_at nt w (Suc m)) call cf t' (t'\<lparr>v_ip := k\<rparr>)"
  shows "calm st \<and> yields (world_at nt w (Suc m)) call cf s k u st"
proof -
  have ev': "eval_expr nt w n e (v_env t) (v_mem t) = (Inr u, st)" using ev(2) t(3) by simp
  note r = agreeD [OF e t(1) ev(1) ev']
  have "yields (world_at nt w (Suc m)) call cf s k u st"
  proof (rule yields_last [OF go t(3-5)])
    show "reaches (world_at nt w (Suc m)) call cf t (t\<lparr>v_ip := k, v_stack := v_stack s @ [u], v_mem := st\<rparr>)"
      if "\<not> is_runtime_error u"
    proof -
      have "(t\<lparr>v_ip := d, v_stack := v_stack t @ [u], v_mem := st\<rparr>)\<lparr>v_ip := k\<rparr> =
          t\<lparr>v_ip := k, v_stack := v_stack s @ [u], v_mem := st\<rparr>" using t(2) by (cases t) simp
      with reaches_trans [OF r(3) [OF that] jump] show ?thesis by simp
    qed
  qed (use r(2) in simp)
  with r(1) show ?thesis by simp
qed

lemma agree_ternary:
  assumes w: "unlimited w" and pure: "pure (ETernary pos c x y)" and c: "agree nt w m call cf a c b"
    and x: "agree nt w m call cf (b + 5) x k" and y: "agree nt w m call cf (k + 5) y d"
    and at: "jump_at cf b OpJumpIfFalse (k + 5)" "jump_at cf k OpJump d"
  shows "agree nt w m call cf a (ETernary pos c x y) d"
proof (rule agreeI [OF w pure])
  fix n call' rp and s :: "_ vm" and u st
  let ?W = "world_at nt w (Suc m)"
  note W = unlimited_W [OF w, of nt "Suc m"]
  assume s: "v_ip s = a" "calm (v_mem s)"
    and ev: "eval_expr_step nt (world_at nt w n) call' rp (ETernary pos c x y) (v_env s) (v_mem s) = (Inr u, st)"
  from ev have ev: "on_value (eval_expr nt w n c (v_env s)) (\<lambda>v. if is_truthy v then eval_expr nt w n x (v_env s)
      else eval_expr nt w n y (v_env s)) (v_mem s) = (Inr u, st)"
    by (simp add: eval_expr_step_def in_time_unlimited w eval_ternary_def cong: if_cong)
  show "calm st \<and> yields ?W call cf s d u st"
  proof (rule agree_first [OF w c s ev])
    fix v s1
    assume s1: "v_ip s1 = b" "v_stack s1 = v_stack s @ [v]" "v_env s1 = v_env s" "v_open s1 = v_open s"
      "v_upvalues s1 = v_upvalues s" "calm (v_mem s1)"
      and br: "(if is_truthy v then eval_expr nt w n x (v_env s) else eval_expr nt w n y (v_env s)) (v_mem s1) = (Inr u, st)"
      and go: "reaches ?W call cf s s1"
    let ?t = "s1\<lparr>v_ip := (if is_truthy v then b + 5 else k + 5), v_stack := v_stack s\<rparr>"
    have t: "reaches ?W call cf s ?t"
      by (intro reaches_trans [OF go] reaches_same [OF jump_run(2) [OF W _ s1(2), of cf "k + 5" call]])
        (use at(1) s1(1) in \<open>simp_all add: same_frame_def\<close>)
    show "calm st \<and> yields ?W call cf s d u st"
    proof (cases "is_truthy v")
      case True
      show ?thesis
        by (rule yields_branch [OF x t]) (use True s1 br jump_run(1) [OF W, of cf _ d call] at(2) in auto)
    next
      case False
      show ?thesis
        by (rule yields_branch [OF y t]) (use False s1 br in auto)
    qed
  qed
qed


lemma yields_top:
  assumes "reaches w call cf s t" "v_ip t = d" "v_stack t = v_stack s @ [v]" "v_env t = v_env s" "v_open t = v_open s"
    "v_upvalues t = v_upvalues s" "v_mem t = st" "\<not> is_runtime_error v"
  shows "yields w call cf s d v st"
  using reaches_same [OF assms(1)] assms(2-) by (simp add: yields_def same_frame_def)

text \<open>The short-circuit operators: the left value is duplicated and tested, and popped or kept.\<close>

lemma agree_and:
  assumes w: "unlimited w" and pure: "pure (EInfix pos ''&&'' l (Some r))" and l: "agree nt w m call cf a l b"
    and r: "agree nt w m call cf (b + 7) r d"
    and at: "plain_at cf b OpDup" "jump_at cf (b + 1) OpJumpIfFalse d" "plain_at cf (b + 6) OpPop"
  shows "agree nt w m call cf a (EInfix pos ''&&'' l (Some r)) d"
proof (rule agreeI [OF w pure])
  fix n call' rp and s :: "_ vm" and u st
  let ?W = "world_at nt w (Suc m)"
  note W = unlimited_W [OF w, of nt "Suc m"]
  assume s: "v_ip s = a" "calm (v_mem s)"
    and ev: "eval_expr_step nt (world_at nt w n) call' rp (EInfix pos ''&&'' l (Some r)) (v_env s) (v_mem s) = (Inr u, st)"
  from ev have ev: "on_value (eval_expr nt w n l (v_env s)) (\<lambda>v. if \<not> is_truthy v then ret v
      else eval_expr nt w n r (v_env s)) (v_mem s) = (Inr u, st)"
    by (simp add: eval_expr_step_def in_time_unlimited w eval_infix_def cong: if_cong)
  show "calm st \<and> yields ?W call cf s d u st"
  proof (rule agree_first [OF w l s ev])
    fix v s1
    assume v: "\<not> is_runtime_error v"
      and s1: "v_ip s1 = b" "v_stack s1 = v_stack s @ [v]" "v_env s1 = v_env s" "v_open s1 = v_open s"
      "v_upvalues s1 = v_upvalues s" "calm (v_mem s1)"
      and br: "(if \<not> is_truthy v then ret v else eval_expr nt w n r (v_env s)) (v_mem s1) = (Inr u, st)"
      and go: "reaches ?W call cf s s1"
    let ?t = "s1\<lparr>v_ip := (if is_truthy v then b + 6 else d)\<rparr>"
    have t: "reaches ?W call cf s ?t"
      using peek_run [OF W at(1,2) s1(1,2)] by (rule reaches_trans [OF go])
    show "calm st \<and> yields ?W call cf s d u st"
    proof (cases "is_truthy v")
      case True
      have "reaches ?W call cf ?t (s1\<lparr>v_ip := b + 7, v_stack := v_stack s\<rparr>)"
        using pop_run [OF W, of cf ?t "v_stack s" v call] at(3) True s1(2) by (simp add: add.commute)
      from reaches_trans [OF t this] show ?thesis
        by (rule yields_branch [OF r]) (use True s1 br in auto)
    next
      case False
      with br have u: "u = v" "st = v_mem s1" by (simp_all add: ret_def)
      have "yields ?W call cf s d u st"
        by (rule yields_top [OF t]) (use u v False s1 in simp_all)
      with s1(6) u show ?thesis by simp
    qed
  qed
qed


lemma agree_or:
  assumes w: "unlimited w" and pure: "pure (EInfix pos ''||'' l (Some r))" and l: "agree nt w m call cf a l b"
    and r: "agree nt w m call cf (b + 12) r d"
    and at: "plain_at cf b OpDup" "jump_at cf (b + 1) OpJumpIfFalse (b + 11)" "jump_at cf (b + 6) OpJump d"
      "plain_at cf (b + 11) OpPop"
  shows "agree nt w m call cf a (EInfix pos ''||'' l (Some r)) d"
proof (rule agreeI [OF w pure])
  fix n call' rp and s :: "_ vm" and u st
  let ?W = "world_at nt w (Suc m)"
  note W = unlimited_W [OF w, of nt "Suc m"]
  assume s: "v_ip s = a" "calm (v_mem s)"
    and ev: "eval_expr_step nt (world_at nt w n) call' rp (EInfix pos ''||'' l (Some r)) (v_env s) (v_mem s) = (Inr u, st)"
  from ev have ev: "on_value (eval_expr nt w n l (v_env s)) (\<lambda>v. if is_truthy v then ret v
      else eval_expr nt w n r (v_env s)) (v_mem s) = (Inr u, st)"
    by (simp add: eval_expr_step_def in_time_unlimited w eval_infix_def cong: if_cong)
  show "calm st \<and> yields ?W call cf s d u st"
  proof (rule agree_first [OF w l s ev])
    fix v s1
    assume v: "\<not> is_runtime_error v"
      and s1: "v_ip s1 = b" "v_stack s1 = v_stack s @ [v]" "v_env s1 = v_env s" "v_open s1 = v_open s"
      "v_upvalues s1 = v_upvalues s" "calm (v_mem s1)"
      and br: "(if is_truthy v then ret v else eval_expr nt w n r (v_env s)) (v_mem s1) = (Inr u, st)"
      and go: "reaches ?W call cf s s1"
    let ?t = "s1\<lparr>v_ip := (if is_truthy v then b + 6 else b + 11)\<rparr>"
    have t: "reaches ?W call cf s ?t"
      using peek_run [OF W at(1,2) s1(1,2)] by (rule reaches_trans [OF go])
    show "calm st \<and> yields ?W call cf s d u st"
    proof (cases "is_truthy v")
      case True
      with br have u: "u = v" "st = v_mem s1" by (simp_all add: ret_def)
      have "reaches ?W call cf s (?t\<lparr>v_ip := d\<rparr>)"
        by (rule reaches_trans [OF t jump_run(1) [OF W]]) (use True at(3) in simp)
      then have "yields ?W call cf s d u st" by (rule yields_top) (use u v s1 in simp_all)
      with s1(6) u show ?thesis by simp
    next
      case False
      have "reaches ?W call cf ?t (s1\<lparr>v_ip := b + 12, v_stack := v_stack s\<rparr>)"
        using pop_run [OF W, of cf ?t "v_stack s" v call] at(4) False s1(2) by (simp add: add.commute)
      from reaches_trans [OF t this] show ?thesis
        by (rule yields_branch [OF r]) (use False s1 br in auto)
    qed
  qed
qed

text \<open>The test for \<^verbatim>\<open>null\<close> and \<^verbatim>\<open>undefined\<close>.\<close>

lemma strict_equal_nullish: "strict_equal v ONull \<longleftrightarrow> v = ONull" "strict_equal v OUndefined \<longleftrightarrow> v = OUndefined"
  by (cases v; simp add: strict_equal_def)+

lemma equals_run:
  assumes w: "unlimited w" and at: "plain_at cf b OpDup" "const_at cf (b + 1) c" "plain_at cf (b + 4) OpEq"
      "jump_at cf (b + 5) OpJumpIfTrue d"
    and s: "v_ip s = b" "v_stack s = stk @ [v]"
  shows "reaches w call cf s (s\<lparr>v_ip := (if strict_equal v c then d else b + 10)\<rparr>)"
proof -
  let ?s1 = "s\<lparr>v_ip := b + 1, v_stack := stk @ [v, v]\<rparr>"
  let ?s2 = "?s1\<lparr>v_ip := b + 4, v_stack := stk @ [v, v, c]\<rparr>"
  let ?s3 = "?s2\<lparr>v_ip := b + 5, v_stack := stk @ [v, OBoolean (strict_equal v c)]\<rparr>"
  have 1: "reaches w call cf s ?s1" using dup_run [OF w _ s(2), of cf call] at(1) s(1) by simp
  have 2: "reaches w call cf ?s1 ?s2"
    by (rule reaches_same [OF const_run [OF w]]) (use at(2) in \<open>simp_all add: same_frame_def\<close>)
  from at(3) obtain pos where f: "fetches cf (v_ip ?s2) OpEq []" by (auto simp: plain_at_def at_op_def)
  have 3: "reaches w call cf ?s2 ?s3"
    by (rule reaches_same [OF binary_run(1) [OF w f, of "''===''" "stk @ [v]" v c "OBoolean (strict_equal v c)"]])
      (simp_all add: binary_op_text_def apply_binary_op_def same_frame_def)
  have 4: "reaches w call cf ?s3 (?s3\<lparr>v_ip := (if is_truthy (OBoolean (strict_equal v c)) then d else v_ip ?s3 + 5), v_stack := stk @ [v]\<rparr>)"
    by (rule jump_run(3) [OF w]) (use at(4) in simp_all)
  show ?thesis
    by (rule reaches_same [OF reaches_trans [OF reaches_trans [OF reaches_trans [OF 1 2] 3] 4]])
      (use s in \<open>simp add: same_frame_def\<close>)
qed


lemma nullish_run:
  assumes w: "unlimited w" and at: "nullish_test_at cf b d" and s: "v_ip s = b" "v_stack s = stk @ [v]"
  shows "reaches w call cf s (s\<lparr>v_ip := (if v = ONull \<or> v = OUndefined then d else b + 20)\<rparr>)"
proof -
  let ?s1 = "s\<lparr>v_ip := (if v = ONull then d else b + 10)\<rparr>"
  have 1: "reaches w call cf s ?s1"
    using equals_run [OF w _ _ _ _ s, of cf ONull d call] at by (simp add: nullish_test_at_def strict_equal_nullish)
  show ?thesis
  proof (cases "v = ONull")
    case False
    have 2: "reaches w call cf ?s1 (?s1\<lparr>v_ip := (if strict_equal v OUndefined then d else b + 10 + 10)\<rparr>)"
      by (rule equals_run [OF w]) (use at s False in \<open>simp_all add: nullish_test_at_def add.commute\<close>)
    show ?thesis
      by (rule reaches_same [OF reaches_trans [OF 1 2]]) (use False in \<open>simp add: same_frame_def strict_equal_nullish\<close>)
  qed (use 1 in simp)
qed

lemma agree_nullish:
  assumes w: "unlimited w" and pure: "pure (EInfix pos ''??'' l (Some r))" and l: "agree nt w m call cf a l b"
    and r: "agree nt w m call cf (b + 26) r d"
    and at: "nullish_test_at cf b (b + 25)" "jump_at cf (b + 20) OpJump d" "plain_at cf (b + 25) OpPop"
  shows "agree nt w m call cf a (EInfix pos ''??'' l (Some r)) d"
proof (rule agreeI [OF w pure])
  fix n call' rp and s :: "_ vm" and u st
  let ?W = "world_at nt w (Suc m)"
  note W = unlimited_W [OF w, of nt "Suc m"]
  assume s: "v_ip s = a" "calm (v_mem s)"
    and ev: "eval_expr_step nt (world_at nt w n) call' rp (EInfix pos ''??'' l (Some r)) (v_env s) (v_mem s) = (Inr u, st)"
  from ev have ev: "on_value (eval_expr nt w n l (v_env s)) (\<lambda>v. if v \<noteq> ONull \<and> v \<noteq> OUndefined then ret v
      else eval_expr nt w n r (v_env s)) (v_mem s) = (Inr u, st)"
    by (simp add: eval_expr_step_def in_time_unlimited w eval_infix_def cong: if_cong)
  show "calm st \<and> yields ?W call cf s d u st"
  proof (rule agree_first [OF w l s ev])
    fix v s1
    assume v: "\<not> is_runtime_error v"
      and s1: "v_ip s1 = b" "v_stack s1 = v_stack s @ [v]" "v_env s1 = v_env s" "v_open s1 = v_open s"
      "v_upvalues s1 = v_upvalues s" "calm (v_mem s1)"
      and br: "(if v \<noteq> ONull \<and> v \<noteq> OUndefined then ret v else eval_expr nt w n r (v_env s)) (v_mem s1) = (Inr u, st)"
      and go: "reaches ?W call cf s s1"
    let ?t = "s1\<lparr>v_ip := (if v = ONull \<or> v = OUndefined then b + 25 else b + 20)\<rparr>"
    have t: "reaches ?W call cf s ?t"
      using nullish_run [OF W at(1) s1(1,2)] by (rule reaches_trans [OF go])
    show "calm st \<and> yields ?W call cf s d u st"
    proof (cases "v = ONull \<or> v = OUndefined")
      case False
      with br have u: "u = v" "st = v_mem s1" by (simp_all add: ret_def)
      have "reaches ?W call cf s (?t\<lparr>v_ip := d\<rparr>)"
        by (rule reaches_trans [OF t jump_run(1) [OF W]]) (use False at(2) in simp)
      then have "yields ?W call cf s d u st" by (rule yields_top) (use u v s1 in simp_all)
      with s1(6) u show ?thesis by simp
    next
      case True
      have "reaches ?W call cf ?t (s1\<lparr>v_ip := b + 26, v_stack := v_stack s\<rparr>)"
        using pop_run [OF W, of cf ?t "v_stack s" v call] at(3) True s1(2) by (simp add: add.commute)
      from reaches_trans [OF t this] show ?thesis
        by (rule yields_branch [OF r]) (use True s1 br in auto)
    qed
  qed
qed

section \<open>Agreement on pure expressions\<close>

lemma placed_agree:
  assumes w: "unlimited w"
  shows "placed cf a e b \<Longrightarrow> pure e \<Longrightarrow> agree nt w m call cf a e b"
    and "placed_all cf a es b \<Longrightarrow> \<forall>e\<in>set es. pure e \<Longrightarrow> agree_all nt w m call cf a es b"
proof (induction rule: placed_placed_all.inducts)
  case (placed_literal e v a)
  then show ?case by (blast intro: agree_literal w)
next
  case (placed_ident a name pos)
  then show ?case by (blast intro: agree_ident w)
next
  case (placed_this a pos)
  then show ?case by (blast intro: agree_this w)
next
  case (placed_array a es b ops pos)
  then show ?case by (intro agree_array [OF w]) auto
next
  case (placed_unary a e b op opc pos)
  then show ?case by (intro agree_unary [OF w]) auto
next
  case (placed_discard a e b op v pos)
  then show ?case by (intro agree_discard [OF w]) auto
next
  case (placed_binary a l k r b op opc pos)
  then show ?case by (intro agree_binary [OF w]) auto
next
  case (placed_and a l k b r pos)
  then show ?case by (intro agree_and [OF w]) auto
next
  case (placed_or a l k b r pos)
  then show ?case by (intro agree_or [OF w]) auto
next
  case (placed_nullish a l k b r pos)
  then show ?case by (intro agree_nullish [OF w]) auto
next
  case (placed_ternary a c k i x b y pos)
  then show ?case by (intro agree_ternary [OF w]) auto
next
  case (placed_member a ob b name pos kpos)
  then show ?case by (intro agree_member [OF w]) auto
next
  case (placed_index a l k i b pos)
  then show ?case by (intro agree_index [OF w]) auto
next
  case (placed_none a)
  show ?case by (rule agree_none)
next
  case (placed_more a e k es b)
  then show ?case by (intro agree_more) (auto dest: pure_no_spread)
qed

end
