(* ===== verification/Signals.thy ===== *)
theory Signals
  imports Agreement
begin

text \<open>
  The tree walker has the signal of a \<^verbatim>\<open>return\<close> as a value among the others. \<open>clean\<close> stores hold
  none, and pure expressions do not make any.
\<close>

section \<open>Stores without signals\<close>

definition clean :: "'x store \<Rightarrow> bool" where
  "clean st \<longleftrightarrow> (\<forall>a. \<forall>v\<in>set (arrays st a). \<not> is_return v)
     \<and> (\<forall>a. \<forall>e\<in>set (h_entries (hashes st a)). \<not> is_return (snd e))
     \<and> (\<forall>a name v. i_props (instances st a) name = Some v \<longrightarrow> \<not> is_return v)
     \<and> (\<forall>a name v. c_methods (class_cells st a) name = Some v \<longrightarrow> \<not> is_return v)
     \<and> (\<forall>a name v. c_statics (class_cells st a) name = Some v \<longrightarrow> \<not> is_return v)
     \<and> (\<forall>a name b. sc_bindings (scopes st a) name = Some b \<longrightarrow> \<not> is_return (b_value b))
     \<and> (\<forall>a v. sc_this (scopes st a) = Some v \<longrightarrow> \<not> is_return v)
     \<and> (\<forall>name v. globals st name = Some v \<longrightarrow> \<not> is_return v)"

abbreviation no_signal :: "('x, obj) mem_op \<Rightarrow> bool" where
  "no_signal m \<equiv> triple clean m (\<lambda>v st. clean st \<and> \<not> is_return v) (\<lambda>_ _. True)"

abbreviation keeps_clean :: "('x, 'a) mem_op \<Rightarrow> bool" where
  "keeps_clean m \<equiv> triple clean m (\<lambda>_. clean) (\<lambda>_ _. True)"

lemma new_error_no_signal [simp]: "\<not> is_return (new_error pos text)"
  by (simp add: new_error_def split: prod.split)

lemma cleanD:
  assumes "clean st"
  shows "i < length (arrays st a) \<Longrightarrow> \<not> is_return (arrays st a ! i)"
    "i_props (instances st a) name = Some v \<Longrightarrow> \<not> is_return v"
    "c_methods (class_cells st a) name = Some v \<Longrightarrow> \<not> is_return v"
    "c_statics (class_cells st a) name = Some v \<Longrightarrow> \<not> is_return v"
    "sc_this (scopes st a) = Some v \<Longrightarrow> \<not> is_return v"
  using assms by (auto simp: clean_def dest: nth_mem)

lemma clean_element:
  "clean st \<Longrightarrow> 0 \<le> i \<and> i < int (length (arrays st a)) \<longrightarrow> \<not> is_return (arrays st a ! nat i)"
  using cleanD(1) [of st "nat i" a] by (auto simp: nat_less_iff)

lemma find_in_set: "find P xs = Some x \<Longrightarrow> x \<in> set xs"
  by (auto simp: find_Some_iff)

lemma clean_hash: "clean st \<Longrightarrow> hash_get key (hashes st a) = Some v \<Longrightarrow> \<not> is_return v"
  using find_in_set [of "\<lambda>e. fst e = key" "h_entries (hashes st a)"]
  by (auto simp: clean_def hash_get_def simp del: split_paired_All) (metis snd_conv)

lemma clean_get: "clean st \<Longrightarrow> env_get st env name = Some v \<Longrightarrow> \<not> is_return v"
  by (induction env) (auto simp: clean_def split: option.splits)

lemma no_signal_basic:
  "\<not> is_return v \<Longrightarrow> no_signal (ret v)" "(\<And>st. clean st \<Longrightarrow> \<not> is_return (f st)) \<Longrightarrow> no_signal (gets f)"
  "no_signal (err e)" "(\<And>st v. clean st \<Longrightarrow> g st = Some v \<Longrightarrow> \<not> is_return v) \<Longrightarrow> no_signal (\<lambda>st. returns (g st) st)"
  by (auto simp: triple_def sr_defs returns_def split: option.splits)

lemma keeps_clean_basic:
  "keeps_clean (ret x)" "keeps_clean (gets f)" "keeps_clean (err e)" "keeps_clean (\<lambda>st. in_depth (d st) st)"
  "\<not> is_return v \<Longrightarrow> keeps_clean (modify (set_this scope (Some v)))"
  by (auto simp: triple_def sr_defs in_depth_def set_this_def clean_def split: option.splits)

lemma no_signal_new:
  "(\<And>v. v \<in> set vs \<Longrightarrow> \<not> is_return v) \<Longrightarrow> no_signal (update (new_array vs))"
  "no_signal (update (new_builtin b))" "no_signal (update (new_function f))"
  by (auto simp: triple_def sr_defs new_array_def new_builtin_def new_function_def clean_def)

lemma no_signal_andthen:
  "triple clean m (\<lambda>x st. clean st \<and> R x) (\<lambda>_ _. True) \<Longrightarrow> (\<And>x. R x \<Longrightarrow> no_signal (f x)) \<Longrightarrow> no_signal (andthen m f)"
  by (erule triple_andthen) (auto simp: triple_def)

lemma no_signal_then: "keeps_clean m \<Longrightarrow> (\<And>x. no_signal (f x)) \<Longrightarrow> no_signal (andthen m f)"
  by (erule triple_andthen) (auto simp: triple_def)

text \<open>An operation that reads the store and continues with what it read.\<close>

lemma no_signal_read:
  "(\<And>st. clean st \<Longrightarrow> case f (g st) st of (Inr v, t) \<Rightarrow> clean t \<and> \<not> is_return v | _ \<Rightarrow> True) \<Longrightarrow>
     no_signal (andthen (gets g) f)"
  by (auto simp: triple_def sr_defs split: prod.splits sum.splits)

lemma no_signal_at: "no_signal m \<Longrightarrow> clean st \<Longrightarrow> case m st of (Inr v, t) \<Rightarrow> clean t \<and> \<not> is_return v | _ \<Rightarrow> True"
  by (auto simp: triple_def split: prod.splits sum.splits)

lemma no_signal_on_value: "no_signal m \<Longrightarrow> (\<And>v. \<not> is_return v \<Longrightarrow> no_signal (f v)) \<Longrightarrow> no_signal (on_value m f)"
  unfolding on_value_def unless_error_def
  by (rule no_signal_andthen [where R = "\<lambda>v. \<not> is_return v"]) (auto intro: no_signal_basic)

lemma find_member_clean:
  assumes "find_member st c name = Some r"
  shows "clean st \<longrightarrow> (\<forall>v. r = Some (Inl v) \<or> r = Some (Inr v) \<longrightarrow> \<not> is_return v)"
proof (rule find_member.raw_induct [where P = "\<lambda>st c name r.
    clean st \<longrightarrow> (\<forall>v. r = Some (Inl v) \<or> r = Some (Inr v) \<longrightarrow> \<not> is_return v)", OF _ assms], intro impI allI)
  fix rec and st :: "'a store" and c name r v
  assume IH: "\<And>st c name y. rec st c name = Some y \<Longrightarrow>
      clean st \<longrightarrow> (\<forall>v. y = Some (Inl v) \<or> y = Some (Inr v) \<longrightarrow> \<not> is_return v)"
    and body: "(case c_methods (class_cells st c) name of
        None \<Rightarrow> (case c_statics (class_cells st c) name of
          None \<Rightarrow> (case c_super (class_cells st c) of None \<Rightarrow> Some None | Some parent \<Rightarrow> rec st parent name)
        | Some s \<Rightarrow> Some (Some (Inr s)))
      | Some m \<Rightarrow> Some (Some (Inl m))) = Some r"
    and clean: "clean st" and r: "r = Some (Inl v) \<or> r = Some (Inr v)"
  show "\<not> is_return v"
  proof (cases "c_methods (class_cells st c) name = None \<and> c_statics (class_cells st c) name = None")
    case True
    with body r obtain parent where "rec st parent name = Some r" by (auto split: option.splits)
    from IH [OF this] clean r show ?thesis by blast
  next
    case False
    with body r clean show ?thesis unfolding clean_def by (auto split: option.splits)
  qed
qed

lemma no_signal_binds:
  "no_signal (native_builtin n f x)" "\<not> is_return v \<Longrightarrow> no_signal (table_method nt t n r v)"
  "no_signal (default_iterator_method nt r n)"
  by (auto simp: native_builtin_def table_method_def default_iterator_method_def
      intro: no_signal_new no_signal_basic split: option.split)

lemma no_signal_bind_method:
  assumes "\<not> is_return meth" "\<not> is_return this"
  shows "no_signal (bind_method_value meth this)"
proof -
  have "no_signal (bind_method f this)" for f
    unfolding bind_method_def
    by (intro no_signal_then [OF keeps_clean_basic(2)] no_signal_andthen [OF no_signal_new(3)]
        no_signal_then [OF keeps_clean_basic(5)] no_signal_basic assms)
  with assms show ?thesis
    by (auto simp: bind_method_value_def intro!: no_signal_then [OF keeps_clean_basic(2)]
        no_signal_then [OF keeps_clean_basic(5)] no_signal_basic split: obj.split)
qed

lemma no_signal_read_hash:
  assumes "\<And>v. \<not> is_return v \<Longrightarrow> no_signal (f v)" "\<And>h. no_signal (g h)"
  shows "no_signal (andthen (gets (\<lambda>st. hashes st a)) (\<lambda>h. case hash_get name h of Some x \<Rightarrow> f x | None \<Rightarrow> g h))"
proof (rule no_signal_read)
  fix st :: "'a store" assume "clean st"
  then show "case (case hash_get name (hashes st a) of None \<Rightarrow> g (hashes st a) | Some x \<Rightarrow> f x) st of
      (Inl e, t) \<Rightarrow> True | (Inr v, t) \<Rightarrow> clean t \<and> \<not> is_return v"
    using no_signal_at [OF assms(1)] no_signal_at [OF assms(2)] clean_hash [of st name a]
    by (cases "hash_get name (hashes st a)") auto
qed

lemma no_signal_get_property: "no_signal (get_property nt n v name pos)"
proof (induction n arbitrary: v)
  case 0
  show ?case by (simp add: no_signal_basic)
next
  case (Suc n)
  note rules = no_signal_basic no_signal_binds no_signal_bind_method
  show ?case
  proof (cases v)
    case (OHash a)
    show ?thesis
      unfolding get_property.simps OHash obj.case
      using Suc.IH by (intro no_signal_read_hash) (auto intro: rules split: option.split)
  next
    case (OInstance i)
    have "no_signal (andthen (\<lambda>st. returns (find_member st (i_class inst) name) st) (\<lambda>found.
        case found of Some (Inl m) \<Rightarrow> bind_method_value m v | Some (Inr s) \<Rightarrow> ret s | None \<Rightarrow> gets (err_for inst)))"
      if "\<And>st. \<not> is_return (err_for inst st)" for inst err_for
    proof (rule no_signal_andthen [where R = "\<lambda>found. \<forall>x. found = Some (Inl x) \<or> found = Some (Inr x) \<longrightarrow> \<not> is_return x"])
      show "triple clean (\<lambda>st. returns (find_member st (i_class inst) name) st)
          (\<lambda>found st. clean st \<and> (\<forall>x. found = Some (Inl x) \<or> found = Some (Inr x) \<longrightarrow> \<not> is_return x)) (\<lambda>_ _. True)"
        using find_member_clean by (fastforce simp: triple_def returns_def sr_defs split: option.split)
    qed (auto simp: OInstance intro!: rules that split: option.split sum.split)
    note found = this
    show ?thesis
      unfolding get_property.simps OInstance obj.case
    proof (rule no_signal_read)
      fix st :: "'a store" assume clean: "clean st"
      show "case (case i_props (instances st i) name of None \<Rightarrow>
            andthen (\<lambda>st'. returns (find_member st' (i_class (instances st i)) name) st') (\<lambda>found.
              case found of Some (Inl m) \<Rightarrow> bind_method_value m (OInstance i) | Some (Inr s) \<Rightarrow> ret s
              | None \<Rightarrow> gets (\<lambda>st'. new_error pos (''TypeError: '' @ quote @ name @ quote @ '' is not a property of '' @
                   c_name (class_cells st' (i_class (instances st i))))))
          | Some x \<Rightarrow> ret x) st of (Inl e, t) \<Rightarrow> True | (Inr v, t) \<Rightarrow> clean t \<and> \<not> is_return v"
      proof (cases "i_props (instances st i) name")
        case None
        show ?thesis
          unfolding None option.case by (rule no_signal_at [OF found [unfolded OInstance] clean]) simp
      next
        case (Some x)
        with clean show ?thesis by (auto simp: clean_def ret_def)
      qed
    qed
  next
    case (OBuiltin b)
    then show ?thesis by (auto intro!: no_signal_then [OF keeps_clean_basic(2)] rules)
  next
    case (OClass c)
    then show ?thesis by (auto intro!: rules simp: Let_def dest: cleanD split: option.splits)
  qed (auto intro!: rules simp: Let_def)
qed


lemma no_signal_get_index: "no_signal (get_index nt fmt d n v key pos)"
proof (induction n arbitrary: v)
  case 0
  show ?case by (simp add: no_signal_basic)
next
  case (Suc n)
  note rules = no_signal_basic no_signal_binds no_signal_get_property
  have it: "triple clean (get_iterator_index nt fmt d v key pos)
      (\<lambda>r st. clean st \<and> (\<forall>x. r = Some x \<longrightarrow> \<not> is_return x)) (\<lambda>_ _. True)"
  proof (rule tripleI)
    fix st r t assume "clean st" "get_iterator_index nt fmt d v key pos st = (Inr r, t)"
    then show "clean t \<and> (\<forall>x. r = Some x \<longrightarrow> \<not> is_return x)"
      using triple_Inr [OF no_signal_get_property, of st]
      by (auto simp: get_iterator_index_def andthen_Inr inspect_op_def in_depth_def sr_defs Let_def
          split: obj.splits if_splits option.splits prod.splits sum.splits)
  qed simp
  show ?case
    unfolding get_index.simps
  proof (rule no_signal_andthen [OF it], goal_cases)
    case (1 r)
    show ?case
    proof (cases r)
      case None
      have "no_signal (andthen (inspect_op fmt d key) (\<lambda>k. andthen (gets (\<lambda>st. hashes st a)) (\<lambda>h. case hash_get k h of
          Some x \<Rightarrow> ret x
        | None \<Rightarrow> (case h_proto h of Some proto \<Rightarrow> get_index nt fmt d n proto key pos | None \<Rightarrow> ret OUndefined))))" for a
        using Suc.IH unfolding inspect_op_def
        by (intro no_signal_then [OF keeps_clean_basic(4)] no_signal_read_hash) (auto intro: rules split: option.split)
      note hash = this
      have element: "no_signal (gets (\<lambda>st. case key of
          ONumber x \<Rightarrow> (let i = f64_as_isize x
            in if 0 \<le> i \<and> i < int (length (arrays st a)) then arrays st a ! nat i else OUndefined)
        | _ \<Rightarrow> OUndefined))" for a
        by (cases key; intro rules(2)) (simp_all add: Let_def clean_element)
      have property: "no_signal (gets (\<lambda>st. case key of
          OString k \<Rightarrow> (case i_props (instances st i) k of Some x \<Rightarrow> x | None \<Rightarrow> OUndefined)
        | _ \<Rightarrow> OUndefined))" for i
        by (cases key) (auto intro!: rules dest: cleanD(2) split: option.splits)
      have character: "no_signal (ret (case key of
          ONumber x \<Rightarrow> (let i = f64_as_usize x in if i < length (chars_of s) then OString (chars_of s ! i) else OUndefined)
        | _ \<Rightarrow> OUndefined))" for s
        by (cases key) (auto intro!: rules simp: Let_def)
      show ?thesis
        unfolding None option.case
        by (cases v) (simp_all only: obj.case hash element property character, simp_all add: rules(1,3))
    qed (use 1 in \<open>auto intro: rules\<close>)
  qed
qed

lemma operands_no_signal:
  "\<not> is_return (eval_add a b pos)" "\<not> is_return (number_op a b pos f)" "\<not> is_return (bit_op a b pos g)"
  "\<not> is_return (compare a b text pos)" "\<not> is_return (eval_in st a b pos)"
  "eval_instanceof st a b = Some v \<Longrightarrow> \<not> is_return v"
       apply (simp add: eval_add_def split: obj.split)
      apply (simp add: number_op_def with_numbers_def split: option.split)
     apply (simp add: bit_op_def with_numbers_def split: option.split)
    apply (simp add: compare_def split: option.split)
   apply (simp add: eval_in_def split: obj.split option.split)
  apply (auto simp: eval_instanceof_def split: obj.splits)
  done

lemma operators_no_signal:
  "apply_binary_op pow st op a b pos = Some v \<Longrightarrow> \<not> is_return v" "\<not> is_return (apply_unary_op op a pos)"
proof -
  show "\<not> is_return v" if "apply_binary_op pow st op a b pos = Some v"
    using that unfolding apply_binary_op_def by (simp split: if_split_asm) (auto simp: operands_no_signal)
  show "\<not> is_return (apply_unary_op op a pos)"
    unfolding apply_unary_op_def by (cases a) simp_all
qed


lemma no_signal_elements:
  assumes "\<forall>e\<in>set es. pure e \<and> no_signal (ev w e env)"
  shows "triple clean (eval_elements w es env)
    (\<lambda>r st. clean st \<and> (case r of Inl v \<Rightarrow> \<not> is_return v | Inr vs \<Rightarrow> \<forall>v\<in>set vs. \<not> is_return v)) (\<lambda>_ _. True)"
  using assms
proof (induction es)
  case Nil
  show ?case by (simp add: triple_def ret_def)
next
  case (Cons e es)
  let ?R = "\<lambda>v. \<not> is_return v"
  show ?case
  proof (rule tripleI)
    fix st r t
    assume st: "clean st" and r: "eval_elements w (e # es) env st = (Inr r, t)"
    have e: "\<not> is_spread e" using Cons.prems pure_no_spread by simp
    from r obtain v t1 where v: "ev w e env st = (Inr v, t1)"
      and rest: "(if is_runtime_error v then ret (Inl v)
        else andthen (eval_elements w es env) (\<lambda>rest. ret (case rest of Inl u \<Rightarrow> Inl u | Inr ws \<Rightarrow> Inr (v # ws)))) t1 = (Inr r, t)"
      unfolding eval_elements_more [OF e] andthen_Inr by auto
    have "no_signal (ev w e env)" using Cons.prems by simp
    from triple_Inr [OF this st v] have 1: "clean t1 \<and> \<not> is_return v" .
    show "clean t \<and> (case r of Inl v \<Rightarrow> \<not> is_return v | Inr vs \<Rightarrow> \<forall>v\<in>set vs. \<not> is_return v)"
    proof (cases "is_runtime_error v")
      case True
      with 1 rest show ?thesis by (auto simp: ret_def)
    next
      case False
      with rest obtain q where q: "eval_elements w es env t1 = (Inr q, t)"
        and "r = (case q of Inl u \<Rightarrow> Inl u | Inr ws \<Rightarrow> Inr (v # ws))" by (auto simp: andthen_Inr ret_def)
      with triple_Inr [OF Cons.IH _ q] Cons.prems 1 show ?thesis by (auto split: sum.splits)
    qed
  qed simp
qed

text \<open>A pure expression does not make a signal.\<close>

lemma no_signal_pure:
  assumes w: "unlimited w"
  shows "pure e \<Longrightarrow> no_signal (eval_expr nt w n e env)"
proof (induction n arbitrary: e)
  case 0
  have "eval_expr nt w 0 e env = err Diverges" by (rule ext) (simp add: eval_expr_0 err_def)
  then show ?case by (simp add: no_signal_basic)
next
  case (Suc n)
  note rules = no_signal_basic no_signal_on_value no_signal_get_property no_signal_get_index operators_no_signal(2) Suc.IH
  note step = eval_pure [OF w Suc.prems, of nt n env]
  show ?case
    using Suc.prems step
  proof (cases e rule: pure.cases)
    case (8 pos es)
    have "triple clean (eval_elements (world_at nt w n) es env)
      (\<lambda>r st. clean st \<and> (case r of Inl v \<Rightarrow> \<not> is_return v | Inr vs \<Rightarrow> \<forall>v\<in>set vs. \<not> is_return v)) (\<lambda>_ _. True)"
      by (rule no_signal_elements) (use Suc 8 in auto)
    then have "no_signal (eval_array (world_at nt w n) es env)"
      unfolding eval_array_def
      by (rule no_signal_andthen) (auto intro: no_signal_basic no_signal_new split: sum.split)
    then show ?thesis unfolding step by (simp add: 8 eval_expr_step_def in_time_unlimited w)
  qed (auto simp: eval_expr_step_def in_time_unlimited w eval_ident_def eval_prefix_def eval_infix_def eval_ternary_def
      eval_member_def eval_index_def in_depth_def eval_string_lit_def not_defined_def operators_no_signal(2) intro!: rules
      dest: clean_get cleanD(5) operators_no_signal(1) split: option.splits expr.split if_splits)
qed

end
