(* ===== verification/Engines.thy ===== *)
theory Engines
  imports Signals Vm_Fuel Value_Facts
begin

unbundle bit_operations_syntax

text \<open>
  The bytecode VM and the tree walker agree on straight-line programs: sequences of expression
  statements and declarations over pure expressions. \<open>laid\<close> says what code a sequence of
  statements is; \<open>compile_lays\<close> that the compiler emits such code; \<open>laid_run\<close> that the code does
  what the tree walker does; \<open>straight_programs_agree\<close> puts them together.
\<close>

section \<open>Straight-line programs\<close>

text \<open>A declaration of one name with an initializer and without a type annotation.\<close>

fun declares :: "stmt \<Rightarrow> (bool \<times> string \<times> expr) option" where
  "declares (SLet _ name None None (Some e)) = Some (False, name, e)"
| "declares (SVar _ name None None (Some e)) = Some (False, name, e)"
| "declares (SConst _ name None None (Some e)) = Some (True, name, e)"
| "declares _ = None"

definition straight :: "stmt \<Rightarrow> bool" where
  "straight s \<longleftrightarrow> (case s of SExpr _ e \<Rightarrow> pure e
     | _ \<Rightarrow> (case declares s of Some (_, _, e) \<Rightarrow> pure e | None \<Rightarrow> False))"

lemma straight_cases [consumes 1, case_names expression declared]:
  assumes "straight s"
  obtains pos e where "s = SExpr pos e" "pure e"
  | is_const name e where "declares s = Some (is_const, name, e)" "pure e" "\<And>pos e. s \<noteq> SExpr pos e"
  using assms unfolding straight_def by (cases s) (auto split: option.splits)

definition store_at :: "chunk \<Rightarrow> nat \<Rightarrow> bool \<Rightarrow> string \<Rightarrow> bool" where
  "store_at cf a is_const name \<longleftrightarrow> (\<exists>ops pos. at_op cf a OpStoreName ops pos
     \<and> unat (word16_of ops AND 0x7FFF) < length (constants cf)
     \<and> constants cf ! unat (word16_of ops AND 0x7FFF) = OString name
     \<and> (word16_of ops AND 0x8000 \<noteq> 0) = is_const)"

inductive laid :: "chunk \<Rightarrow> nat \<Rightarrow> stmt list \<Rightarrow> nat \<Rightarrow> bool" for cf :: chunk where
  laid_end: "laid cf a [] a"
| laid_last: "placed cf a e b \<Longrightarrow> laid cf a [SExpr pos e] b"
| laid_value: "placed cf a e b \<Longrightarrow> plain_at cf b OpPop \<Longrightarrow> laid cf (b + 1) ss c \<Longrightarrow> ss \<noteq> [] \<Longrightarrow>
    laid cf a (SExpr pos e # ss) c"
| laid_decl: "placed cf a e b \<Longrightarrow> declares s = Some (is_const, name, e) \<Longrightarrow> store_at cf b is_const name \<Longrightarrow>
    laid cf (b + 3) ss c \<Longrightarrow> laid cf a (s # ss) c"

section \<open>The compiler emits such code\<close>

lemma declared_compile:
  assumes "declares s = Some (is_const, name, e)"
  shows "\<exists>pos. \<forall>res ce cs keep c. compile_stmt_step res ce cs s keep c =
      on_chunk (compile_decl ce name (Some e) None is_const pos) c"
  using assms by (cases s rule: declares.cases) (auto simp: compile_named_or_destructure_def [abs_def])

lemma declared_eval:
  assumes "declares s = Some (is_const, name, e)"
  shows "eval_stmt_step nt w call es n s env =
      in_time w (stmt_pos s) (eval_decl nt w is_const name None None (Some e) env)"
  using assms by (cases s rule: declares.cases) (auto simp: eval_stmt_step_def)

lemma const_bit:
  assumes "unat (i :: u16) < 2 ^ 15"
  shows "i AND 0x7FFF = i" "(i OR 0x8000) AND 0x7FFF = i" "i AND 0x8000 = 0" "(i OR 0x8000) AND 0x8000 \<noteq> 0"
  using low_bits [OF assms] low_bits_flag [OF assms] and_mask_of_or [OF assms] by auto

lemma emitted_store:
  "emitted c (emit_decl_store name is_const pos c) {} (\<lambda>cf. store_at cf (length (code c)) is_const name)"
proof -
  obtain i c1 where add: "add_constant (OString name) c = (i, c1)" by fastforce
  let ?op = "if is_const then i OR 0x8000 else i"
  have "emitted c (push_bytes (be16 ?op) (write_op OpStoreName pos c1)) {} (\<lambda>cf. store_at cf (length (code c)) is_const name)"
  proof (rule emitted_weaken [OF emitted_step [OF emitted_const [OF _ add] emitted_instr]])
    fix cf assume fits: "fits cf" and *: "(unat i < length (constants cf) \<and> constants cf ! unat i = OString name)
        \<and> at_op cf (length (code c1)) OpStoreName (be16 ?op) pos"
    then have "unat i < 2 ^ 15" by (simp add: fits_def)
    from const_bit [OF this] * show "store_at cf (length (code c)) is_const name"
      unfolding store_at_def
      by (intro exI [of _ "be16 ?op"] exI [of _ pos]) (auto simp: word16_be16 add_constant_fields(1) [OF add])
  qed (auto simp: operand_width_def ops_u16_def)
  then show ?thesis by (simp add: emit_decl_store_def decl_name_operand_def add write_u16_def)
qed

lemma store_length: "length (code (emit_decl_store name is_const pos c)) = length (code c) + 3"
  by (auto simp: emit_decl_store_def decl_name_operand_def chunk_simps add_constant_fields split: prod.split)

inductive_cases laid_NilE: "laid cf a [] b"

text \<open>One statement: \<open>keep\<close> says that it is the last one, whose value is left on the stack.\<close>

lemma stmt_lays:
  assumes "straight st" "compile_stmt h res k st keep s = Inr s'"
  shows "emitted (cs_chunk s) (cs_chunk s') {} (\<lambda>cf. \<forall>rest b. (rest = []) = keep \<longrightarrow>
    laid cf (length (code (cs_chunk s'))) rest b \<longrightarrow> laid cf (length (code (cs_chunk s))) (st # rest) b)"
proof -
  from assms(2) obtain j where k: "k = Suc j" by (cases k) auto
  from assms(1) show ?thesis
  proof (cases rule: straight_cases)
    case (expression pos e)
    with assms(2) k obtain c1 where c1: "compile_expr h res j e (cs_chunk s) = Inr c1"
      and s1: "cs_chunk s' = (if keep then c1 else write_op OpPop pos c1)"
      by (auto simp: on_chunk_def emit_def)
    note em = placesD [OF compile_places [OF expression(2)] c1]
    show ?thesis
    proof (cases keep)
      case True
      with em s1 expression(1) show ?thesis
        by (auto elim!: emitted_weaken laid_NilE intro: laid_last)
    next
      case False
      have "emitted (cs_chunk s) (cs_chunk s') {} (\<lambda>cf. placed cf (length (code (cs_chunk s))) e (length (code c1))
          \<and> plain_at cf (length (code c1)) OpPop)"
        using emitted_step [OF em emitted_plain [of OpPop c1 pos]] s1 False by simp
      then show ?thesis
        by (rule emitted_weaken) (use s1 False expression(1) in \<open>auto simp: chunk_simps intro: laid_value\<close>)
    qed
  next
    case (declared is_const name e)
    from declared_compile [OF declared(1)] obtain pos where
      "compile_stmt_step res (compile_expr h res j) (compile_stmt h res j) st keep s =
        on_chunk (compile_decl (compile_expr h res j) name (Some e) None is_const pos) s" by blast
    with assms(2) k obtain c1 where c1: "compile_expr h res j e (cs_chunk s) = Inr c1"
      and s1: "cs_chunk s' = emit_decl_store name is_const pos c1"
      by (auto simp: on_chunk_def compile_decl_def compile_initializer_def emit_decl_store_def split: prod.splits)
    note em = placesD [OF compile_places [OF declared(2)] c1]
    have "emitted (cs_chunk s) (cs_chunk s') {} (\<lambda>cf. placed cf (length (code (cs_chunk s))) e (length (code c1))
        \<and> store_at cf (length (code c1)) is_const name)"
      using emitted_step [OF em emitted_store [of c1 name is_const pos]] s1 by simp
    then show ?thesis
      by (rule emitted_weaken) (use s1 declared(1) in \<open>auto simp: store_length intro: laid_decl\<close>)
  qed
qed

lemma compile_lays:
  assumes "\<forall>s\<in>set ss. straight s" "compile_body (compile_stmt h res k) ss s = Inr s'"
  shows "emitted (cs_chunk s) (cs_chunk s') {} (\<lambda>cf. laid cf (length (code (cs_chunk s))) ss (length (code (cs_chunk s'))))"
  using assms
proof (induction ss arbitrary: s)
  case Nil
  then show ?case by (auto intro: emitted_weaken [OF emitted_refl] laid_end)
next
  case (Cons st ss)
  from Cons.prems(2) obtain s1 where st: "compile_stmt h res k st (ss = []) s = Inr s1"
    and rest: "compile_body (compile_stmt h res k) ss s1 = Inr s'" by auto
  have "straight st" using Cons.prems(1) by simp
  from emitted_step [OF stmt_lays [OF this st] Cons.IH [OF _ rest]] Cons.prems(1) show ?case
    by (auto elim: emitted_weaken)
qed

section \<open>Blocks\<close>

text \<open>
  \<open>opened ss ts\<close>: \<open>ss\<close> consists of straight-line statements and of blocks of such, nested to any
  depth, and \<open>ts\<close> are the same statements without the braces.
\<close>

inductive opened :: "stmt list \<Rightarrow> stmt list \<Rightarrow> bool" where
  opened_Nil: "opened [] []"
| opened_stmt: "straight s \<Longrightarrow> opened ss ts \<Longrightarrow> opened (s # ss) (s # ts)"
| opened_block: "opened (block_statements b) us \<Longrightarrow> opened ss ts \<Longrightarrow> opened (SBlock b # ss) (us @ ts)"

lemma opened_straight: "opened ss ts \<Longrightarrow> \<forall>s\<in>set ts. straight s"
  by (induction rule: opened.induct) auto

text \<open>The compiler emits for a block what it emits for its statements.\<close>

lemma opened_lays:
  "opened ss ts \<Longrightarrow> compile_stmts (compile_stmt h res k) ss s = Inr s' \<Longrightarrow>
   emitted (cs_chunk s) (cs_chunk s') {} (\<lambda>cf. \<forall>rest b. rest \<noteq> [] \<longrightarrow>
     laid cf (length (code (cs_chunk s'))) rest b \<longrightarrow> laid cf (length (code (cs_chunk s))) (ts @ rest) b)"
proof (induction arbitrary: k s s' rule: opened.induct)
  case opened_Nil
  then show ?case by (auto simp: compile_stmts_def intro: emitted_weaken [OF emitted_refl])
next
  case (opened_stmt st ss ts)
  from opened_stmt.prems obtain s1 where st: "compile_stmt h res k st False s = Inr s1"
    and rest: "compile_stmts (compile_stmt h res k) ss s1 = Inr s'" by (auto simp: compile_stmts_def)
  from emitted_step [OF stmt_lays [OF opened_stmt.hyps(1) st] opened_stmt.IH [OF rest]] show ?case
    by (rule emitted_weaken) simp_all
next
  case (opened_block b us ss ts)
  from opened_block.prems obtain s1 where st: "compile_stmt h res k (SBlock b) False s = Inr s1"
    and rest: "compile_stmts (compile_stmt h res k) ss s1 = Inr s'" by (auto simp: compile_stmts_def)
  from st obtain j where "k = Suc j" by (cases k) auto
  with st have "compile_stmts (compile_stmt h res j) (block_statements b) s = Inr s1" by simp
  from emitted_step [OF opened_block.IH(1) [OF this] opened_block.IH(2) [OF rest]] show ?case
    by (rule emitted_weaken) simp_all
qed

lemma compile_body_snoc:
  "compile_body cs (xs @ [x]) s = bind_res (compile_stmts cs xs s) (cs x True)"
proof (induction xs arbitrary: s)
  case Nil
  show ?case by (cases "cs x True s") (simp_all add: compile_stmts_def)
next
  case (Cons y xs)
  then show ?case by (cases "cs y False s") (simp_all add: compile_stmts_def)
qed

text \<open>The code of a program, and the \<^verbatim>\<open>RETURN\<close> behind it.\<close>

lemma program_laid:
  assumes lays: "\<And>res s. compile_body (compile_stmt h res k) (prog_body prog) (fresh_state empty_chunk) = Inr s \<Longrightarrow>
      emitted empty_chunk (cs_chunk s) {} (\<lambda>cf. laid cf 0 ts (length (code (cs_chunk s))))"
    and "compile h k prog = Inr c" "fits c"
  obtains b where "laid c 0 ts b" "plain_at c b OpReturn" "protected_regions c = []"
proof -
  from assms(2) obtain res s where
    s: "compile_body (compile_stmt h res k) (prog_body prog) (fresh_state empty_chunk) = Inr s"
    and c: "c = write_op OpReturn (prog_pos prog) (cs_chunk s)" by (auto simp: compile_def)
  have good: "good empty_chunk" by (simp add: good_def pool_inv_def lines_inv_def empty_chunk_def)
  have "emitted empty_chunk c {} (\<lambda>cf. laid cf 0 ts (length (code (cs_chunk s)))
      \<and> plain_at cf (length (code (cs_chunk s))) OpReturn)"
    using emitted_step [OF lays [OF s] emitted_plain [of OpReturn "cs_chunk s" "prog_pos prog"]]
    by (simp add: c)
  with good assms(3) have "good c" "ext empty_chunk c" "laid c 0 ts (length (code (cs_chunk s)))
      \<and> plain_at c (length (code (cs_chunk s))) OpReturn"
    by (auto simp: emitted_def lies_def)
  with that show thesis by (auto simp: ext_def empty_chunk_def)
qed

lemma fresh_empty: "cs_chunk (fresh_state empty_chunk) = empty_chunk" "length (code empty_chunk) = 0"
  by (simp_all add: fresh_state_def empty_chunk_def)

lemma compile_laid:
  assumes "\<forall>s\<in>set (prog_body prog). straight s" "compile h k prog = Inr c" "fits c"
  obtains b where "laid c 0 (prog_body prog) b" "plain_at c b OpReturn" "protected_regions c = []"
  by (rule program_laid [OF _ assms(2,3), of "prog_body prog"])
    (use compile_lays [OF assms(1), where s = "fresh_state empty_chunk"] that in \<open>simp_all add: fresh_empty\<close>)

lemma compile_opened:
  assumes "prog_body prog = xs @ [x]" "opened xs ts" "straight x" "compile h k prog = Inr c" "fits c"
  obtains b where "laid c 0 (ts @ [x]) b" "plain_at c b OpReturn" "protected_regions c = []"
proof (rule program_laid [OF _ assms(4,5), of "ts @ [x]"])
  fix res s
  assume "compile_body (compile_stmt h res k) (prog_body prog) (fresh_state empty_chunk) = Inr s"
  then obtain s1 where body: "compile_stmts (compile_stmt h res k) xs (fresh_state empty_chunk) = Inr s1"
    and x: "compile_stmt h res k x True s1 = Inr s"
    by (auto simp: assms(1) compile_body_snoc)
  from emitted_step [OF opened_lays [OF assms(2) body] stmt_lays [OF assms(3) x]]
  show "emitted empty_chunk (cs_chunk s) {} (\<lambda>cf. laid cf 0 (ts @ [x]) (length (code (cs_chunk s))))"
    unfolding fresh_empty by (rule emitted_weaken) (simp_all add: laid_end)
qed (rule that)

section \<open>The code does what the tree walker does\<close>

lemma store_run:
  assumes w: "unlimited w" and at: "store_at cf (v_ip s) is_const name" and stack: "v_stack s = stk @ [v]"
  shows "reaches w call cf s (s\<lparr>v_ip := v_ip s + 3, v_stack := stk,
      v_mem := bind_declared is_const (v_env s) name v None (v_mem s)\<rparr>)"
proof -
  from at obtain ops where f: "fetches cf (v_ip s) OpStoreName ops"
    and name: "string_const (constants cf) (word16_of ops AND 0x7FFF)"
      "constants cf ! unat (word16_of ops AND 0x7FFF) = OString name"
      "(word16_of ops AND 0x8000 \<noteq> 0) = is_const"
    by (auto simp: store_at_def at_op_def string_const_def)
  show ?thesis
    by (rule step_reaches [OF w f])
      (use name stack in \<open>simp add: read_name_operands(2) [OF f] exec_op_def binary_op_text_def unary_op_text_def
        cont_eq store_name_from_operand_def store_name_def mod_mem_def andthen_def gets_def pop_def modify_def
        operand_width_def ops_u16_def bind_declared_def set_typed_const_def set_typed_def set_here_def
        set_const_here_def\<close>)
qed

lemma return_any_run:
  assumes w: "unlimited w" and at: "fetches c (v_ip s) OpReturn ops" and "same_frame s' s" "v_open s = []"
  shows "\<exists>t. v_mem t = v_mem s \<and>
    run w call c (Suc n) s' = (Returned (if v_stack s = [] then OUndefined else last (v_stack s)), t)"
proof -
  have ip: "v_ip s' = v_ip s" "v_stack s' = v_stack s" "v_open s' = []" "v_mem s' = v_mem s"
    using assms by (simp_all add: same_frame_def)
  let ?s = "s'\<lparr>v_count := v_count s' + 1\<rparr>"
  have "fetches c (v_ip ?s) OpReturn ops" using at ip by simp
  from step_fetch [OF this, of w call]
  have "step w call c ?s = (Inr (Return_value (if v_stack s = [] then OUndefined else last (v_stack s))),
      ?s\<lparr>v_last_ip := v_ip s, v_ip := v_ip s + 1, v_stack := butlast (v_stack s)\<rparr>)"
    using ip by (simp add: exec_op_def binary_op_text_def unary_op_text_def
        return_from_stack_def return_value_def andthen_def gets_def pop_value_def close_upvalues_op_def
        modify_def ret_def close_open_upvalues_from_def)
  moreover have "v_ip s < length (code c)" using fetches_bytes(3) [OF at] by simp
  ultimately show ?thesis using ip by (simp add: unlimited_budget [OF w])
qed

lemma bind_declared_keeps:
  "calm st \<Longrightarrow> \<not> is_runtime_error v \<Longrightarrow> calm (bind_declared is_const env name v anno st)"
  "clean st \<Longrightarrow> \<not> is_return v \<Longrightarrow> clean (bind_declared is_const env name v anno st)"
  by (auto simp: bind_declared_def set_typed_const_def set_typed_def bind_here_def calm_def clean_def)

lemma body_head:
  assumes w: "unlimited w" and run: "eval_body (world_at nt w n) (eval_stmt nt w j) r (s # ss) env st = (Inr v, st')"
  obtains i r1 st1 where "j = Suc i"
    "eval_stmt_step nt (world_at nt w i) (vm_caller (world_at nt w i) i) (eval_stmt nt w i) i s env st = (Inr r1, st1)"
    "\<not> is_return r1 \<Longrightarrow> is_runtime_error r1 \<Longrightarrow> v = r1 \<and> st' = st1"
    "\<not> is_return r1 \<Longrightarrow> \<not> is_runtime_error r1 \<Longrightarrow>
      eval_body (world_at nt w n) (eval_stmt nt w j) r1 ss env st1 = (Inr v, st')"
proof -
  from run obtain r1 st1 where r1: "eval_stmt nt w j s env st = (Inr r1, st1)"
    and rest: "(case r1 of OReturn x \<Rightarrow> ret (program_result x)
      | _ \<Rightarrow> unless_error r1 (eval_body (world_at nt w n) (eval_stmt nt w j) r1 ss env)) st1 = (Inr v, st')"
    by (auto simp: in_time_unlimited w andthen_Inr)
  from r1 obtain i where i: "j = Suc i" by (cases j) (auto simp: err_def)
  have go: "unless_error r1 (eval_body (world_at nt w n) (eval_stmt nt w j) r1 ss env) st1 = (Inr v, st')" if "\<not> is_return r1"
    using rest that by (cases r1) simp_all
  show thesis
    by (rule that [OF i, of r1 st1]) (use r1 i go in \<open>auto simp: unless_error_def ret_def\<close>)
qed

definition finishes :: "'x world \<Rightarrow> 'x caller \<Rightarrow> chunk \<Rightarrow> 'x vm \<Rightarrow> nat \<Rightarrow> obj \<Rightarrow> obj \<Rightarrow> 'x store \<Rightarrow> bool" where
  "finishes w call cf s b none v st \<longleftrightarrow>
     (if is_runtime_error v then raises w call cf s v st
      else \<exists>stk. reaches w call cf s (s\<lparr>v_ip := b, v_stack := stk, v_mem := st\<rparr>)
        \<and> v = (if stk = [] then none else last stk))"

lemma finishes_after:
  assumes "reaches w call cf s (s\<lparr>v_ip := a, v_stack := stk, v_mem := st1\<rparr>)"
    and "finishes w call cf (s\<lparr>v_ip := a, v_stack := stk, v_mem := st1\<rparr>) b none v st"
  shows "finishes w call cf s b none v st"
  using assms(2) reaches_trans [OF assms(1)] reaches_raises [OF assms(1)]
  by (fastforce simp: finishes_def split: if_splits)

lemma eval_value:
  assumes w: "unlimited w" and placed: "placed cf a e b" "pure e" and s: "v_ip s = a" "v_stack s = []"
      "calm (v_mem s)" "clean (v_mem s)"
    and ev: "eval_expr nt w i e (v_env s) (v_mem s) = (Inr v, st)"
  shows "\<not> is_return v" "calm st" "clean st"
    and "is_runtime_error v \<Longrightarrow> raises (world_at nt w (Suc m)) call cf s v st"
    and "\<not> is_runtime_error v \<Longrightarrow>
      reaches (world_at nt w (Suc m)) call cf s (s\<lparr>v_ip := b, v_stack := [v], v_mem := st\<rparr>)"
  using triple_Inr [OF no_signal_pure [OF w placed(2)] s(4) ev]
    agreeD [OF placed_agree(1) [OF w placed] s(1,3) ev] s(2) by auto

lemma laid_run:
  assumes w: "unlimited w"
  shows "laid cf a ss b \<Longrightarrow> \<forall>s\<in>set ss. straight s \<Longrightarrow> v_ip s = a \<Longrightarrow> v_stack s = [] \<Longrightarrow>
    calm (v_mem s) \<Longrightarrow> clean (v_mem s) \<Longrightarrow>
    eval_body (world_at nt w n) (eval_stmt nt w j) r ss (v_env s) (v_mem s) = (Inr v, st) \<Longrightarrow> \<not> is_runtime_error r \<Longrightarrow>
    finishes (world_at nt w (Suc m)) call cf s b (if ss = [] then r else OUndefined) v st"
proof (induction arbitrary: s r rule: laid.induct)
  case (laid_end a)
  have "v = r" "st = v_mem s" using laid_end.prems(6) by (simp_all add: ret_def)
  moreover have "s\<lparr>v_ip := a, v_stack := [], v_mem := v_mem s\<rparr> = s" using laid_end.prems(2,3) by simp
  ultimately show ?case using laid_end.prems(7) by (auto simp: finishes_def intro: exI [of _ "[]"])
next
  case (laid_last a e b pos)
  obtain i r1 st1 where step: "eval_expr nt w i e (v_env s) (v_mem s) = (Inr r1, st1)"
    and r1: "\<not> is_return r1 \<Longrightarrow> v = r1 \<and> st = st1"
    by (rule body_head [OF w laid_last.prems(6)])
      (auto simp: eval_stmt_step_def in_time_unlimited w ret_def)
  have "pure e" using laid_last.prems(1) by (simp add: straight_def)
  note ev = eval_value [OF w laid_last.hyps this laid_last.prems(2-5) step]
  show ?case using ev(1,4) ev(5) r1 by (auto simp: finishes_def intro: exI [of _ "[v]"])
next
  case (laid_value a e b ss c pos)
  obtain i r1 st1 where step: "eval_expr nt w i e (v_env s) (v_mem s) = (Inr r1, st1)"
    and r1: "\<not> is_return r1 \<Longrightarrow> is_runtime_error r1 \<Longrightarrow> v = r1 \<and> st = st1"
      "\<not> is_return r1 \<Longrightarrow> \<not> is_runtime_error r1 \<Longrightarrow>
        eval_body (world_at nt w n) (eval_stmt nt w j) r1 ss (v_env s) st1 = (Inr v, st)"
    by (rule body_head [OF w laid_value.prems(6)]) (auto simp: eval_stmt_step_def in_time_unlimited w)
  have "pure e" using laid_value.prems(1) by (simp add: straight_def)
  note ev = eval_value [OF w laid_value.hyps(1) this laid_value.prems(2-5) step]
  show ?case
  proof (cases "is_runtime_error r1")
    case True
    with ev(1,4) r1(1) show ?thesis by (auto simp: finishes_def)
  next
    case False
    let ?s = "s\<lparr>v_ip := b, v_stack := [r1], v_mem := st1\<rparr>" and ?t = "s\<lparr>v_ip := b + 1, v_stack := [], v_mem := st1\<rparr>"
    have "reaches (world_at nt w (Suc m)) call cf ?s ?t"
      by (rule reaches_same [OF pop_run [where stk = "[]" and v = r1]])
        (use laid_value.hyps(2) w in \<open>simp_all add: same_frame_def\<close>)
    with ev(5) False have "reaches (world_at nt w (Suc m)) call cf s ?t" by (blast intro: reaches_trans)
    moreover have "finishes (world_at nt w (Suc m)) call cf ?t c (if ss = [] then r1 else OUndefined) v st"
      by (rule laid_value.IH) (use laid_value.prems(1) ev(1-3) r1(2) False in auto)
    ultimately show ?thesis using laid_value.hyps(4) by (auto intro: finishes_after)
  qed
next
  case (laid_decl a e b stm is_const name ss c)
  obtain i r1 st1 where step: "eval_decl nt (world_at nt w i) is_const name None None (Some e) (v_env s) (v_mem s) = (Inr r1, st1)"
    and r1: "\<not> is_return r1 \<Longrightarrow> is_runtime_error r1 \<Longrightarrow> v = r1 \<and> st = st1"
      "\<not> is_return r1 \<Longrightarrow> \<not> is_runtime_error r1 \<Longrightarrow>
        eval_body (world_at nt w n) (eval_stmt nt w j) r1 ss (v_env s) st1 = (Inr v, st)"
    by (rule body_head [OF w laid_decl.prems(6)])
      (auto simp: declared_eval [OF laid_decl.hyps(2)] in_time_unlimited w)
  from step obtain x st2 where x: "eval_expr nt w i e (v_env s) (v_mem s) = (Inr x, st2)"
    and bind: "if is_runtime_error x then r1 = x \<and> st1 = st2
      else r1 = OUndefined \<and> st1 = bind_declared is_const (v_env s) name x None st2"
    by (auto simp: eval_decl_def on_value_def unless_error_def andthen_Inr ret_def modify_def split: if_splits)
  have "pure e" using laid_decl.prems(1) laid_decl.hyps(2)
    by (cases stm rule: declares.cases) (auto simp: straight_def)
  note ev = eval_value [OF w laid_decl.hyps(1) this laid_decl.prems(2-5) x]
  show ?case
  proof (cases "is_runtime_error x")
    case True
    with ev(1,4) r1(1) bind show ?thesis by (auto simp: finishes_def)
  next
    case False
    let ?s = "s\<lparr>v_ip := b, v_stack := [x], v_mem := st2\<rparr>" and ?t = "s\<lparr>v_ip := b + 3, v_stack := [], v_mem := st1\<rparr>"
    have "reaches (world_at nt w (Suc m)) call cf ?s ?t"
      using store_run [where w = "world_at nt w (Suc m)" and cf = cf and s = ?s and is_const = is_const
          and name = name and stk = "[]" and v = x and call = call] laid_decl.hyps(3) w bind False
      by simp
    with ev(5) False have "reaches (world_at nt w (Suc m)) call cf s ?t" by (blast intro: reaches_trans)
    moreover have "finishes (world_at nt w (Suc m)) call cf ?t c (if ss = [] then r1 else OUndefined) v st"
      by (rule laid_decl.IH) (use laid_decl.prems(1) ev(1-3) r1(2) False bind in \<open>auto intro: bind_declared_keeps\<close>)
    ultimately show ?thesis using bind False by (auto intro: finishes_after)
  qed
qed

section \<open>Both engines\<close>

lemma vm_new_fields:
  "v_ip (vm_new env us st) = 0" "v_stack (vm_new env us st) = []" "v_open (vm_new env us st) = []"
  "v_env (vm_new env us st) = env" "v_mem (vm_new env us st) = st"
  by (simp_all add: vm_new_def)

lemma finishes_run:
  assumes w: "unlimited w" and fin: "finishes w call c s b OUndefined v st"
    and at: "plain_at c b OpReturn" and open_none: "v_open s = []" and regions: "protected_regions c = []"
  shows "\<exists>k t. v_mem t = st \<and> run w call c k s = (if is_runtime_error v then Uncaught v else Returned v, t)"
proof (cases "is_runtime_error v")
  case True
  with fin have "raises w call c s v st" by (simp add: finishes_def)
  then obtain t k where t: "v_mem t = st" "\<And>n. run w call c (Suc (k + n)) s =
        (case unwind_stack_to_handler c (v_last_ip t) (v_stack t) v of
           Some (ip, stack) \<Rightarrow> run w call c n (t\<lparr>v_ip := ip, v_stack := stack\<rparr>)
         | None \<Rightarrow> (Uncaught v, t))"
    unfolding raises_def using same_frame_refl by blast
  have "unwind_stack_to_handler c (v_last_ip t) (v_stack t) v = None"
    by (simp add: unwind_stack_to_handler_def regions)
  with t(1) t(2) [of 0] True show ?thesis by (intro exI [of _ "Suc k"] exI [of _ t]) (simp del: run.simps)
next
  case False
  with fin obtain stk where "reaches w call c s (s\<lparr>v_ip := b, v_stack := stk, v_mem := st\<rparr>)"
    and v: "v = (if stk = [] then OUndefined else last stk)" by (auto simp: finishes_def)
  then obtain s' k where s': "same_frame s' (s\<lparr>v_ip := b, v_stack := stk, v_mem := st\<rparr>)"
    "\<And>n. run w call c (k + n) s = run w call c n s'" unfolding reaches_def using same_frame_refl by blast
  from at have "fetches c b OpReturn []" by (auto simp: plain_at_def at_op_def)
  with return_any_run [OF w _ s'(1), where c = c and ops = "[]" and n = 0 and call = call] open_none obtain t where
    "v_mem t = st" "run w call c 1 s' = (Returned v, t)" by (auto simp: v simp del: run.simps)
  with s'(2) [of 1] False show ?thesis by (intro exI [of _ "k + 1"] exI [of _ t]) (simp del: run.simps)
qed

text \<open>A run with some fuel and no callee is the run of the interpreter with enough fuel.\<close>

lemma interpret_enough:
  assumes run: "run w (call_closure_impl w (interpret_with_upvalues w 0)) c k (vm_new env [] st) = (r, t)"
    and "r \<noteq> Hung" "globals st ''println'' \<noteq> None" "Suc k \<le> N"
  shows "interpret_chunk w N c env st = (r, v_mem t)"
proof -
  from assms(4) obtain n where N: "N = Suc n" "k \<le> Suc n" by (cases N) auto
  from run_mono [OF call_closure_le [OF interpret_le [of 0 n]] run assms(2) N(2)]
  have "run w (call_closure_impl w (interpret_with_upvalues w n)) c (Suc n) (vm_new env [] st) = (r, t)" by simp
  moreover from assms(3) obtain p where "globals st ''println'' = Some p" by blast
  ultimately show ?thesis by (simp add: interpret_chunk_def N(1) Let_def del: run.simps)
qed

lemma laid_program_agrees:
  assumes w: "unlimited w" and straight: "\<forall>s\<in>set ss. straight s"
    and b: "laid c 0 ss b" "plain_at c b OpReturn" "protected_regions c = []"
    and st: "calm st" "clean st" "globals st ''println'' \<noteq> None"
    and body: "eval_body (world_at nt w n) (eval_stmt nt w n) OUndefined ss env st = (Inr v, st')"
  shows "\<exists>fuel. \<forall>N\<ge>fuel. interpret_chunk (world_at nt w (Suc m)) N c env st =
    (if is_runtime_error v then Uncaught v else Returned v, st')"
proof -
  let ?w = "world_at nt w (Suc m)" and ?s = "vm_new env [] st"
  let ?call = "call_closure_impl ?w (interpret_with_upvalues ?w 0)"
  have body': "eval_body (world_at nt w n) (eval_stmt nt w n) OUndefined ss (v_env ?s) (v_mem ?s) = (Inr v, st')"
    using body by (simp add: vm_new_fields)
  from laid_run [OF w b(1) straight _ _ _ _ body', where m = m and call = ?call] st
  have "finishes ?w ?call c ?s b OUndefined v st'" by (simp add: vm_new_fields)
  from finishes_run [OF _ this b(2) _ b(3)] w obtain j t where
    "v_mem t = st'" "run ?w ?call c j ?s = (if is_runtime_error v then Uncaught v else Returned v, t)"
    by (auto simp: vm_new_fields)
  with interpret_enough [OF this(2) _ st(3)] show ?thesis by (intro exI [of _ "Suc j"]) auto
qed

lemma straight_program_agrees:
  assumes w: "unlimited w" and straight: "\<forall>s\<in>set (prog_body prog). straight s"
    and code: "compile h k prog = Inr c" "fits c"
    and st: "calm st" "clean st" "globals st ''println'' \<noteq> None"
    and run: "eval_program (world_at nt w n) (eval_stmt nt w n) prog env st = (Inr v, st')"
  shows "\<exists>fuel. \<forall>N\<ge>fuel. interpret_chunk (world_at nt w (Suc m)) N c env st =
    (if is_runtime_error v then Uncaught v else Returned v, st')"
proof -
  from compile_laid [OF straight code] obtain b where
    b: "laid c 0 (prog_body prog) b" "plain_at c b OpReturn" "protected_regions c = []" .
  from run have "eval_body (world_at nt w n) (eval_stmt nt w n) OUndefined (prog_body prog) env st = (Inr v, st')"
    by (simp add: eval_program_def)
  with laid_program_agrees [OF w straight b st] show ?thesis by simp
qed

text \<open>The program with blocks does on the VM what the program without braces does in the tree walker.\<close>

lemma opened_program_agrees:
  assumes w: "unlimited w" and prog: "prog_body prog = xs @ [x]" "opened xs ts" "straight x"
    and code: "compile h k prog = Inr c" "fits c"
    and st: "calm st" "clean st" "globals st ''println'' \<noteq> None"
    and run: "eval_program (world_at nt w n) (eval_stmt nt w n) (prog\<lparr>prog_body := ts @ [x]\<rparr>) env st = (Inr v, st')"
  shows "\<exists>fuel. \<forall>N\<ge>fuel. interpret_chunk (world_at nt w (Suc m)) N c env st =
    (if is_runtime_error v then Uncaught v else Returned v, st')"
proof -
  from compile_opened [OF prog code] obtain b where
    b: "laid c 0 (ts @ [x]) b" "plain_at c b OpReturn" "protected_regions c = []" .
  have straight: "\<forall>s\<in>set (ts @ [x]). straight s" using opened_straight [OF prog(2)] prog(3) by simp
  from run have "eval_body (world_at nt w n) (eval_stmt nt w n) OUndefined (ts @ [x]) env st = (Inr v, st')"
    by (simp add: eval_program_def)
  with laid_program_agrees [OF w straight b st] show ?thesis by simp
qed

end
