(* ===== verification/Endings.thy ===== *)
theory Endings
  imports Engines
begin

text \<open>
  The walk along a class chain, and computations that end: on a store whose class chains end a
  pure expression gives a value or runs out of native stack as soon as the depth of the tree
  walker exceeds the size of the expression.
\<close>

section \<open>Class chains\<close>

definition grounded :: "'x store \<Rightarrow> bool" where
  "grounded st \<longleftrightarrow> (\<forall>c. class_chain st c \<noteq> None)"

lemma class_chain_Cons:
  "class_chain st c = Some cs \<Longrightarrow> \<exists>ps. cs = c # ps \<and>
     (case c_super (class_cells st c) of None \<Rightarrow> ps = [] | Some p \<Rightarrow> class_chain st p = Some ps)"
  by (subst (asm) class_chain.simps) (auto split: option.splits bind_splits)

lemma class_chain_cong:
  "class_chain st c = Some cs \<Longrightarrow> class_cells st' = class_cells st \<Longrightarrow> class_chain st' c = Some cs"
proof (induction cs arbitrary: c)
  case Nil
  then show ?case using class_chain_Cons by fastforce
next
  case (Cons d cs)
  then show ?case
    using class_chain_Cons [OF Cons.prems(1)] by (subst class_chain.simps) (auto split: option.splits)
qed

lemma grounded_cong: "class_cells st' = class_cells st \<Longrightarrow> grounded st \<Longrightarrow> grounded st'"
  unfolding grounded_def using class_chain_cong by (metis not_None_eq)

text \<open>The nearest class of a chain that has the name, its methods before its static values.\<close>

fun first_member :: "'x store \<Rightarrow> addr list \<Rightarrow> string \<Rightarrow> (obj + obj) option" where
  "first_member st [] name = None"
| "first_member st (c # cs) name =
     (case c_methods (class_cells st c) name of
        Some m \<Rightarrow> Some (Inl m)
      | None \<Rightarrow>
          (case c_statics (class_cells st c) name of
             Some s \<Rightarrow> Some (Inr s)
           | None \<Rightarrow> first_member st cs name))"

lemma find_member_chain:
  "class_chain st c = Some cs \<Longrightarrow> find_member st c name = Some (first_member st cs name)"
proof (induction cs arbitrary: c)
  case Nil
  then show ?case using class_chain_Cons by fastforce
next
  case (Cons d cs)
  then show ?case
    using class_chain_Cons [OF Cons.prems(1)] by (subst find_member.simps) (auto split: option.splits)
qed

lemma inherits_from_chain:
  "class_chain st c = Some cs \<Longrightarrow> inherits_from st c d = Some (d \<in> set cs)"
proof (induction cs arbitrary: c)
  case Nil
  then show ?case using class_chain_Cons by fastforce
next
  case (Cons e cs)
  then show ?case
    using class_chain_Cons [OF Cons.prems(1)] by (subst inherits_from.simps) (auto split: option.splits)
qed

section \<open>Computations that end\<close>

abbreviation ending :: "('x, 'a) mem_op \<Rightarrow> bool" where
  "ending m \<equiv> triple grounded m (\<lambda>_. grounded) (\<lambda>e _. e = Panic)"

lemma ending_basic [intro!]:
  "ending (ret x)" "ending (gets f)" "ending (err Panic)" "ending (\<lambda>st. in_depth (d st) st)"
  "(\<And>st. grounded st \<Longrightarrow> g st \<noteq> None) \<Longrightarrow> ending (\<lambda>st. returns (g st) st)"
  by (auto simp: triple_def sr_defs in_depth_def returns_def split: option.split) fastforce

lemma ending_andthen [intro!]: "ending m \<Longrightarrow> (\<And>x. ending (f x)) \<Longrightarrow> ending (andthen m f)"
  by (rule triple_andthen)

lemma ending_on_value [intro!]: "ending m \<Longrightarrow> (\<And>x. ending (f x)) \<Longrightarrow> ending (on_value m f)"
  unfolding on_value_def unless_error_def by auto

lemma ending_steps [intro!]:
  "ending (update (new_array vs))" "ending (update (new_builtin b))" "ending (update (new_function f))"
  "ending (modify (set_this scope v))"
  by (auto simp: triple_def sr_defs new_array_def new_builtin_def new_function_def set_this_def
      elim!: grounded_cong [rotated])

lemma ending_binds [intro!]:
  "ending (native_builtin n f x)" "ending (table_method nt t n r v)" "ending (default_iterator_method nt r n)"
  "ending (inspect_op fmt d v)" "ending (bind_method_value v this)"
  by (auto simp: native_builtin_def table_method_def default_iterator_method_def inspect_op_def
      bind_method_value_def bind_method_def split: option.split obj.split)

lemma ending_find [intro!]: "ending (\<lambda>st. returns (find_member st c name) st)"
  using find_member_chain by (fastforce simp: grounded_def)

lemma ending_get_property [intro!]: "ending (get_property nt n v name pos)"
proof (induction n arbitrary: v)
  case (Suc n)
  then show ?case by (auto split: obj.split option.split sum.split simp: Let_def)
qed (simp add: ending_basic)

lemma ending_get_iterator_index [intro!]: "ending (get_iterator_index nt fmt d v key pos)"
  by (auto simp: get_iterator_index_def Let_def split: obj.split)

lemma ending_get_index [intro!]: "ending (get_index nt fmt d n v key pos)"
proof (induction n arbitrary: v)
  case (Suc n)
  then show ?case by (auto split: obj.split option.split sum.split simp: Let_def)
qed (simp add: ending_basic)

lemma ending_elements [intro!]:
  "\<forall>e\<in>set es. \<not> is_spread e \<and> ending (ev w e env) \<Longrightarrow> ending (eval_elements w es env)"
proof (induction es)
  case (Cons e es)
  then have "\<not> is_spread e" by simp
  from Cons show ?case unfolding eval_elements_more [OF \<open>\<not> is_spread e\<close>] by (auto split: sum.split)
qed auto

lemma instanceof_ending: "grounded st \<Longrightarrow> eval_instanceof st a b \<noteq> None"
  using inherits_from_chain by (fastforce simp: eval_instanceof_def grounded_def split: obj.splits)

lemma binary_ending: "grounded st \<Longrightarrow> \<exists>v. apply_binary_op pow st op a b pos = Some v"
  using instanceof_ending [of st a b] by (simp add: apply_binary_op_def)

lemma list_size_less: "e \<in> set es \<Longrightarrow> size_list size es < n \<Longrightarrow> size e < n"
  using size_list_estimation' [of e es "size e" size] by simp

lemma ending_pure:
  assumes w: "unlimited w"
  shows "pure e \<Longrightarrow> size e < n \<Longrightarrow> ending (eval_expr nt w n e env)"
proof (induction n arbitrary: e)
  case (Suc n)
  note step = eval_pure [OF w Suc.prems(1), of nt n env]
  show ?case
    using Suc.prems
  proof (cases e rule: pure.cases)
    case (8 pos es)
    have "\<not> is_spread x \<and> ending (eval_expr nt w n x env)" if x: "x \<in> set es" for x
    proof -
      have "size x < n" using list_size_less [OF x, of n] Suc.prems(2) 8 by simp
      moreover have "pure x" using Suc.prems(1) 8 x by simp
      ultimately show ?thesis using Suc.IH pure_no_spread by blast
    qed
    then show ?thesis unfolding step by (auto simp: 8 eval_expr_step_def in_time_unlimited w eval_array_def split: sum.split)
  qed (unfold step, auto simp: eval_expr_step_def in_time_unlimited w eval_ident_def eval_prefix_def
      eval_infix_def eval_ternary_def eval_member_def eval_index_def binary_ending Suc.IH split: expr.split)
qed simp

section \<open>Straight-line programs end\<close>

lemma ending_bind [intro!]: "ending (modify (bind_declared is_const env name v anno))"
  by (auto simp: triple_def sr_defs bind_declared_def set_typed_const_def set_typed_def bind_here_def
      elim!: grounded_cong [rotated])

lemma ending_stmt:
  assumes w: "unlimited w" and "straight s" "size s < n"
  shows "ending (eval_stmt nt w n s env)"
proof -
  from assms(3) obtain m where n: "n = Suc m" by (cases n) auto
  from assms(2) show ?thesis
  proof (cases rule: straight_cases)
    case (expression pos e)
    then show ?thesis using assms(3) by (auto simp: n fun_eq_iff eval_stmt_step_def in_time_unlimited w intro!: ending_pure)
  next
    case (declared is_const name e)
    then have "size e < m" using assms(3) n by (cases s rule: declares.cases) auto
    with declared show ?thesis
      by (auto simp: n declared_eval [OF declared(1)] in_time_unlimited w eval_decl_def intro!: ending_pure w)
  qed
qed

lemma ending_body:
  assumes w: "unlimited w"
  shows "\<forall>s\<in>set ss. straight s \<and> size s < n \<Longrightarrow> ending (eval_body (world_at nt w k) (eval_stmt nt w n) r ss env)"
proof (induction ss arbitrary: r)
  case (Cons s ss)
  then show ?case
    by (auto simp: in_time_unlimited w unless_error_def intro!: ending_stmt w split: obj.split)
qed auto

end
