(* ===== verification/Eval_Properties.thy ===== *)
theory Eval_Properties
  imports Endings Examples
begin

unbundle bit_operations_syntax

text \<open>
  The properties of the two engines, the bytecode VM and the tree walker, each with an instance:
  where they agree, where they do not, and what the tree walker does with classes, errors and
  exceptions.
\<close>

section \<open>Concrete inputs\<close>

text \<open>A host without builtin methods, and a store whose globals are registered.\<close>

definition no_natives :: "unit natives" where
  "no_natives = \<lparr>n_method = (\<lambda>_ _. None), n_values_iterator = 0, n_has_own_property = 0, n_date_now = 0,
     n_boolean_to_string = (\<lambda>_. 0), n_continuation = (\<lambda>_ _ _. finished ())\<rparr>"

definition ready_store :: "unit store" where
  "ready_store = empty_store\<lparr>globals := [''println'' \<mapsto> OUndefined]\<rparr>"

definition lit :: "string \<Rightarrow> expr" where
  "lit s = EString default_pos (CHR 0x22 # s @ [CHR 0x22])"

definition var :: "string \<Rightarrow> expr" where
  "var x = EIdent default_pos x"

definition body_of :: "stmt list \<Rightarrow> program" where
  "body_of ss = \<lparr>prog_pos = default_pos, prog_body = ss, prog_errors = []\<rparr>"

text \<open>\<^verbatim>\<open>const s = "a"; s + s\<close>\<close>

definition doubled :: program where
  "doubled = body_of [SConst default_pos ''s'' None None (Some (lit ''a'')),
     SExpr default_pos (EInfix default_pos ''+'' (var ''s'') (Some (var ''s'')))]"

lemma string_lit [simp]: "eval_string_lit [CHR 0x22, CHR ''a'', CHR 0x22] = Some (OString ''a'')"
  by code_simp

abbreviation tree_run :: "program \<Rightarrow> nat \<Rightarrow> (run_err + obj) \<times> unit store" where
  "tree_run prog n \<equiv> eval_program (world_at no_natives (still_world 0) n) (eval_stmt no_natives (still_world 0) n) prog [0] ready_store"

lemma still_unlimited [simp]: "unlimited (still_world 0)"
  by (simp add: unlimited_def still_world_def)

lemma still_depth [simp]: "0 < w_depth (still_world limit)"
  by (simp add: still_world_def)

lemma doubled_runs:
  "tree_run doubled 4 = (Inr (OString ''aa''), set_const_here [0] ''s'' (OString ''a'') ready_store)"
  by (simp add: eval_program_def doubled_def body_of_def in_time_unlimited eval_nat_numeral eval_stmt_step_def
      eval_decl_def on_value_def unless_error_def eval_pure lit_def var_def eval_expr_step_def andthen_def
      ret_def modify_def gets_def bind_declared_def eval_infix_def eval_ident_def set_typed_const_def
      set_const_here_def bind_here_def ready_store_def apply_binary_op_def eval_add_def returns_def in_depth_def)

lemma doubled_compiles: "case compile name_parser 4 doubled of Inl _ \<Rightarrow> False | Inr c \<Rightarrow> fits c"
proof -
  obtain res where "resolve_program doubled = Inr res" using resolve_program_ok by blast
  then show ?thesis
    by (simp add: compile_def)
      (simp add: doubled_def body_of_def lit_def var_def compile_expr_step_def emit_eval Let_def
        compile_named_or_destructure_def compile_decl_def compile_initializer_def decl_name_operand_def compile_string_literal_def compile_infix_expr_def
        chunk_simps binary_opcode_def binary_opcodes_def fits_def)
qed

lemma ready_inv: "calm ready_store" "clean ready_store" "globals ready_store ''println'' \<noteq> None" "grounded ready_store"
proof -
  have "class_chain ready_store c = Some [c]" for c
    by (subst class_chain.simps) (simp add: ready_store_def empty_store_def blank_class_def)
  then show "grounded ready_store" by (simp add: grounded_def)
qed (simp_all add: calm_def clean_def ready_store_def empty_store_def root_scope_def blank_class_def empty_hash_def)

lemma doubled_straight: "\<forall>s\<in>set (prog_body doubled). straight s"
  by (simp add: doubled_def body_of_def straight_def lit_def var_def)

section \<open>The two engines\<close>

text \<open>
  C2. On a straight-line program the bytecode VM and the tree walker agree: whatever result and
  store the tree walker ends with, the compiled program ends with on the VM, with enough fuel,
  errors included.
\<close>

theorem straight_programs_agree:
  assumes "unlimited w" "\<forall>s\<in>set (prog_body prog). straight s" "compile h k prog = Inr c" "fits c"
    and "calm st" "clean st" "globals st ''println'' \<noteq> None"
    and "eval_program (world_at nt w n) (eval_stmt nt w n) prog env st = (Inr v, st')"
  shows "\<exists>fuel. \<forall>N\<ge>fuel. interpret_chunk (world_at nt w (Suc m)) N c env st =
    (if is_runtime_error v then Uncaught v else Returned v, st')"
  using assms by (rule straight_program_agrees)

theorem straight_programs_agree_witness:
  "case compile name_parser 4 doubled of Inl _ \<Rightarrow> False
   | Inr c \<Rightarrow> \<exists>N. interpret_chunk (world_at no_natives (still_world 0) 1) N c [0] ready_store =
       (Returned (OString ''aa''), set_const_here [0] ''s'' (OString ''a'') ready_store)"
proof (cases "compile name_parser 4 doubled")
  case (Inr c)
  with doubled_compiles have "fits c" by simp
  from straight_programs_agree [OF still_unlimited doubled_straight Inr this ready_inv(1-3) doubled_runs, of 0]
  show ?thesis by (auto simp: Inr)
qed (use doubled_compiles in simp)

text \<open>
  C10. A straight-line program comes to its end: if the class chains of the store end, and the
  native stack suffices, the tree walker has a result as soon as its depth exceeds the size of
  the statements, and the VM has it with enough fuel.
\<close>

theorem straight_programs_end:
  assumes "unlimited w" "\<forall>s\<in>set (prog_body prog). straight s" "compile h k prog = Inr c" "fits c"
    and "calm st" "clean st" "globals st ''println'' \<noteq> None" "grounded st"
    and "\<forall>s\<in>set (prog_body prog). size s < n"
    and "\<And>st'. eval_program (world_at nt w n) (eval_stmt nt w n) prog env st \<noteq> (Inl Panic, st')"
  shows "\<exists>fuel v st'. \<forall>N\<ge>fuel. interpret_chunk (world_at nt w (Suc m)) N c env st =
    (if is_runtime_error v then Uncaught v else Returned v, st')"
proof -
  obtain r st' where run: "eval_program (world_at nt w n) (eval_stmt nt w n) prog env st = (r, st')" by fastforce
  have "ending (eval_body (world_at nt w n) (eval_stmt nt w n) OUndefined (prog_body prog) env)"
    using assms(2,9) by (intro ending_body [OF assms(1)]) blast
  from triple_Inl [OF this assms(8)] run assms(10) obtain v where "r = Inr v"
    by (cases r) (auto simp: eval_program_def)
  with straight_program_agrees [OF assms(1-7)] run show ?thesis by blast
qed

theorem straight_programs_end_witness:
  "case compile name_parser 4 doubled of Inl _ \<Rightarrow> False
   | Inr c \<Rightarrow> \<exists>N r st. interpret_chunk (world_at no_natives (still_world 0) 1) N c [0] ready_store = (r, st) \<and> r \<noteq> Hung"
proof (cases "compile name_parser 4 doubled")
  case (Inr c)
  with doubled_compiles have "fits c" by simp
  from straight_programs_end [OF still_unlimited doubled_straight Inr this ready_inv, of 4 no_natives "[0]" 0]
  have "\<exists>fuel v st'. \<forall>N\<ge>fuel. interpret_chunk (world_at no_natives (still_world 0) 1) N c [0] ready_store =
      (if is_runtime_error v then Uncaught v else Returned v, st')"
    using doubled_runs by (simp add: doubled_def body_of_def lit_def var_def)
  then show ?thesis by (fastforce simp: Inr split: if_splits)
qed (use doubled_compiles in simp)




lemma string_lit_b [simp]: "eval_string_lit [CHR 0x22, CHR ''b'', CHR 0x22] = Some (OString ''b'')"
  by code_simp

lemmas tree_eval = eval_program_def body_of_def in_time_unlimited eval_nat_numeral eval_stmt_step_def
  eval_decl_def on_value_def unless_error_def eval_pure lit_def var_def eval_expr_step_def andthen_def
  ret_def modify_def gets_def bind_declared_def eval_ident_def set_typed_def set_here_def bind_here_def
  ready_store_def in_depth_def







section \<open>Classes\<close>

text \<open>
  C17. The walk up the superclasses finds the member of the nearest class that has it, a method
  before a static value, and \<^verbatim>\<open>instanceof\<close> is membership in the chain.
\<close>

theorem members_come_from_the_nearest_class:
  assumes "class_chain st c = Some cs"
  shows "find_member st c x = Some (first_member st cs x) \<and> inherits_from st c d = Some (d \<in> set cs)"
  using find_member_chain [OF assms] inherits_from_chain [OF assms] by simp

theorem members_come_from_the_nearest_class_witness:
  "find_member empty_store 0 ''m'' = Some None \<and> inherits_from empty_store 0 1 = Some False"
proof -
  have "class_chain empty_store 0 = Some [0]"
    by (subst class_chain.simps) (simp add: empty_store_def blank_class_def)
  from members_come_from_the_nearest_class [OF this, of "''m''" 1] show ?thesis
    by (simp add: empty_store_def blank_class_def)
qed

text \<open>
  C26. The fields of a new instance are collected along the class chain, so that the declaration
  of the farthest superclass is the one that counts, not that of the class itself.
\<close>

theorem superclass_fields_override:
  assumes "c_fields (class_cells st c) x = Some v" "\<forall>d\<in>set ds. c_fields (class_cells st d) x = None"
  shows "initial_props st (bs @ c # ds) x = Some v"
  using assms(2)
proof (induction ds rule: rev_induct)
  case Nil
  show ?case by (simp add: initial_props_def assms(1))
next
  case (snoc d ds)
  then show ?case by (simp add: initial_props_def map_add_def append_assoc [symmetric] del: append_assoc)
qed

definition two_classes :: "unit store" where
  "two_classes = empty_store\<lparr>class_cells :=
     (\<lambda>c. (blank_class [] default_pos)\<lparr>c_super := (if c = 0 then Some 1 else None),
        c_fields := [''x'' \<mapsto> (if c = 0 then ONull else OUndefined)]\<rparr>)\<rparr>"

theorem superclass_fields_override_witness:
  "class_chain two_classes 0 = Some [0, 1] \<and> c_fields (class_cells two_classes 0) ''x'' = Some ONull
   \<and> initial_props two_classes [0, 1] ''x'' = Some OUndefined"
proof -
  have "class_chain two_classes 1 = Some [1]" by (subst class_chain.simps) (simp add: two_classes_def)
  then have "class_chain two_classes 0 = Some [0, 1]" by (subst class_chain.simps) (simp add: two_classes_def)
  with superclass_fields_override [of two_classes 1 "''x''" OUndefined "[]" "[0]"] show ?thesis
    by (simp add: two_classes_def)
qed

text \<open>
  C27. \<^verbatim>\<open>super.m\<close> looks only at the second class of the receiver's chain, whichever class the method
  that runs belongs to, and never further up: it gives that class's own \<^verbatim>\<open>m\<close>, bound to the receiver,
  and a TypeError if the class inherits \<^verbatim>\<open>m\<close> instead of declaring it. So a method of the second
  class that calls \<^verbatim>\<open>super.m\<close> in turn reaches itself.
\<close>

theorem super_looks_one_class_up:
  assumes "sc_this (scopes st (hd env)) = Some (OInstance i)"
    and "class_chain st (i_class (instances st i)) = Some (c # d # ds)"
  shows "get_super_method env x pos st =
    (case c_methods (class_cells st d) x of
       Some m \<Rightarrow> bind_method_value m (OInstance i) st
     | None \<Rightarrow> (Inr (new_error pos (''TypeError: super.'' @ x @ '' is not a method'')), st))"
proof -
  from class_chain_Cons [OF assms(2)] have "c = i_class (instances st i)"
    by (metis list.inject)
  moreover from class_chain_Cons [OF assms(2)] obtain p where "c_super (class_cells st (i_class (instances st i))) = Some p"
    "class_chain st p = Some (d # ds)" by (auto split: option.splits)
  moreover from this(2) have "p = d" using class_chain_Cons by fastforce
  ultimately show ?thesis
    using assms(1) by (simp add: get_super_method_def this_instance_def andthen_def gets_def ret_def split: option.split)
qed

text \<open>
  Class 0 extends class 1, which extends class 2; \<^verbatim>\<open>m\<close> is a method of 1 and of 2, \<^verbatim>\<open>n\<close> of 2 only. The
  receiver is an instance of class 0.
\<close>

definition three_classes :: "unit store" where
  "three_classes = empty_store\<lparr>
     class_cells := (\<lambda>c. (blank_class [] default_pos)\<lparr>c_super := (if c = 0 then Some 1 else if c = 1 then Some 2 else None),
        c_methods := (if c = 1 then [''m'' \<mapsto> OBuiltin 11] else if c = 2 then [''m'' \<mapsto> OBuiltin 21, ''n'' \<mapsto> OBuiltin 22]
          else Map.empty)\<rparr>),
     scopes := (\<lambda>_. root_scope\<lparr>sc_this := Some (OInstance 0)\<rparr>)\<rparr>"

theorem super_looks_one_class_up_witness:
  "get_super_method [0] ''m'' default_pos three_classes = (Inr (OBuiltin 11), three_classes)
   \<and> get_super_method [0] ''n'' default_pos three_classes =
       (Inr (new_error default_pos ''TypeError: super.n is not a method''), three_classes)
   \<and> find_member three_classes 1 ''n'' = Some (Some (Inl (OBuiltin 22)))"
proof -
  have "class_chain three_classes 2 = Some [2]" by (subst class_chain.simps) (simp add: three_classes_def)
  then have "class_chain three_classes 1 = Some [1, 2]" by (subst class_chain.simps) (simp add: three_classes_def)
  note chain = this find_member_chain [OF this, of "''n''"]
  then have "class_chain three_classes 0 = Some [0, 1, 2]" by (subst class_chain.simps) (simp add: three_classes_def)
  then have "class_chain three_classes (i_class (instances three_classes 0)) = Some (0 # 1 # [2])"
    by (simp add: three_classes_def empty_store_def)
  from super_looks_one_class_up [OF _ this, of "[0]"] chain(2) show ?thesis
    by (simp add: three_classes_def bind_method_value_def ret_def blank_class_def)
qed

section \<open>Exceptions\<close>

text \<open>
  C18. A \<^verbatim>\<open>finally\<close> block runs exactly once, after the body and the handler and in the store they
  leave, whatever their result; its own \<^verbatim>\<open>return\<close> or error replaces that result, anything else
  does not.
\<close>

theorem finally_runs_last:
  assumes "eval_try w es body handler None env st = (Inr r, st1)"
    and "eval_scoped_block w es f env st1 = (Inr fr, st2)"
  shows "eval_try w es body handler (Some f) env st =
    (Inr (if is_return fr \<or> is_runtime_error fr then fr else r), st2)"
  using assms unfolding eval_try_def by (auto simp: andthen_Inr andthen_def ret_def split: prod.splits sum.splits)

theorem finally_runs_last_witness:
  "eval_try (still_world 0) (\<lambda>_ _. ret (OReturn ONull)) (Block default_pos []) None
     (Some (Block default_pos [SBreak default_pos []])) [0] empty_store =
   (Inr (OReturn ONull), snd (env_child [0] (snd (env_child [0] empty_store))))"
  using finally_runs_last [of "still_world 0" "\<lambda>_ _. ret (OReturn ONull)" "Block default_pos []" None "[0]"
      empty_store OUndefined "snd (env_child [0] empty_store)" "Block default_pos [SBreak default_pos []]" "OReturn ONull"]
  by (simp add: eval_try_def eval_scoped_block_def eval_block_def andthen_def update_def ret_def
      in_time_unlimited split_beta)



lemma inspect_string: "0 < n \<Longrightarrow> inspect fmt st n (OString s) = Some s"
  by (cases n) (simp_all add: inspect.simps)


section \<open>Nested handlers\<close>

definition handler_of :: "stmt list \<Rightarrow> stmt catch_clause option" where
  "handler_of ss = Some (CatchClause default_pos ''e'' None (Block default_pos ss))"

definition nested_try :: program where
  "nested_try = body_of [STry default_pos
     (Block default_pos [STry default_pos (Block default_pos [SThrow default_pos (lit ''a'')]) (handler_of []) None])
     (handler_of [SThrow default_pos (lit ''b'')]) None]"

text \<open>
  C9. In \<^verbatim>\<open>try { try { throw "a"; } catch (e) { } } catch (e) { throw "b"; }\<close> the two protected regions
  start at the same instruction. The tree walker runs the inner handler and the program ends
  without an error; on the VM the outer handler runs and the program ends with the uncaught error
  \<^verbatim>\<open>b\<close>.
\<close>

theorem tied_handlers_outer_wins:
  "(\<exists>st. tree_run nested_try 8 = (Inr OUndefined, st)) \<and>
   (case compile name_parser 8 nested_try of Inl _ \<Rightarrow> False
    | Inr c \<Rightarrow> map try_start (protected_regions c) = [0, 0] \<and>
        (case fst (interpret_chunk (still_world 0) 10 c [0] ready_store) of
           Uncaught (OError message _ _ _ _ _) \<Rightarrow> message = ''b'' | _ \<Rightarrow> False))"
proof
  show "\<exists>st. tree_run nested_try 8 = (Inr OUndefined, st)"
    by (simp add: nested_try_def handler_of_def tree_eval inspect_string eval_scoped_block_def update_def env_child_def
        new_scope_def eval_block_def eval_throw_def inspect_op_def control_signal_def break_signal_def
        continue_signal_def new_named_error_def new_named_error_with_runtime_def eval_try_def)
qed code_simp

end
