(* ===== verification/Spec2Isabelle.thy ===== *)
theory Spec2Isabelle
  imports Prelude Rust_Str F64 Gts_Ast Gts_Object Opcode Chunk String_Lit Emit Layout Resolve
    Compile_Expr Compile_Stmt Compiler Fuel Verified Compiled Value_Facts
    Tables State_Result Heap Environment F64_Arith Operators Upvalues
    Vm_State Vm_Calls Vm_Handlers Vm_Objects Vm Vm_Safe Vm_Steps Vm_Runs Vm_Fuel Examples Vm_Properties
    Value_Properties Methods Construct Eval_Expr Eval_Calls Eval_Stmt Evaluator Placed Placed_Code Agreement Signals Engines Endings Eval_Properties
begin

text \<open>
  A verification of the GTS bytecode compiler of night24, together with the data it works on.

  \<^bold>\<open>The program.\<close> GTS is a scripting language embedded in the night24 agent
  (\<^verbatim>\<open>crates/night24-gts\<close>). A source text is parsed to a syntax tree (\<^verbatim>\<open>ast/mod.rs\<close>); the
  compiler (\<^verbatim>\<open>bytecode/compiler.rs\<close> and the \<^verbatim>\<open>compiler_*.rs\<close> beside it) first resolves names
  (\<^verbatim>\<open>bytecode/resolve.rs\<close>), then walks the tree and appends instructions to a chunk
  (\<^verbatim>\<open>bytecode/chunk.rs\<close>) through the helpers of \<^verbatim>\<open>bytecode/emit.rs\<close>; functions become prototypes
  (\<^verbatim>\<open>bytecode/closure.rs\<close>) with a chunk of their own. A virtual machine executes chunks.

  \<^bold>\<open>The theories.\<close>
  \<^item> \<open>Prelude\<close>: fallible functions as sums, the loop \<open>fold_res\<close>, vectors used as stacks, text of
    numbers, big-endian bytes. \<open>Rust_Str\<close>: byte strings, characters, slices that panic.
    \<open>F64\<close>: IEEE doubles as bit patterns with the comparisons and conversions that are used.
  \<^item> \<open>Gts_Ast\<close> is \<^verbatim>\<open>ast/mod.rs\<close>, \<open>Gts_Object\<close> the value type of \<^verbatim>\<open>object/value.rs\<close> with its two
    equalities, error construction and number printing.
  \<^item> \<open>Opcode\<close> is \<^verbatim>\<open>opcode.rs\<close> and \<open>operand_width\<close>; \<open>Chunk\<close> is \<^verbatim>\<open>chunk.rs\<close> and the prototypes of
    \<^verbatim>\<open>closure.rs\<close>, with the invariants of the constant pool and of the position table.
  \<^item> \<open>String_Lit\<close> is \<^verbatim>\<open>evaluator/string_lit.rs\<close>: escapes, templates, regular-expression tokens.
  \<^item> \<open>Emit\<close> is \<^verbatim>\<open>emit.rs\<close>, \<^verbatim>\<open>compiler_decl_store.rs\<close>, \<^verbatim>\<open>compiler_helpers.rs\<close>,
    \<^verbatim>\<open>compiler_classes.rs\<close>. \<open>Layout\<close> decodes code into instructions, states the verifier
    \<open>verify\<close>, and has one rule per emission helper saying that it keeps chunks well formed.
  \<^item> \<open>Resolve\<close> is \<^verbatim>\<open>resolve.rs\<close>; \<open>Compile_Expr\<close> and \<open>Compile_Stmt\<close> are the helpers of
    \<^verbatim>\<open>compiler_*.rs\<close>, \<open>Compiler\<close> the dispatch of \<^verbatim>\<open>compiler_expr.rs\<close>, \<^verbatim>\<open>compiler_stmt.rs\<close> and the
    entry point \<^verbatim>\<open>compile\<close>. The locales \<open>scanner\<close>, \<open>expr_compiler\<close> and \<open>compiler\<close> state what a
    helper needs of the recursive compiler it is given; the interpretations \<open>scan\<close> and \<open>knot\<close>
    discharge this for the tied recursion.
  \<^item> \<open>Fuel\<close> shows that the depth bound of the model is never the reason for a result.
    \<open>Verified\<close> and \<open>Compiled\<close> draw consequences for chunks that pass the verifier and for
    compiled programs, \<open>Value_Facts\<close> facts about values, literals and call operands.

  \<^bold>\<open>State and operations.\<close> A Rust function with \<^verbatim>\<open>&mut Chunk\<close> is a function from chunk to chunk;
  the statement helpers, which also mutate the stacks of loops and of finalizers, pass a
  record \<open>cstate\<close>. \<^verbatim>\<open>Err\<close> is \<open>CErr\<close> of the error value, a panic is \<open>CPanic\<close>. Integers keep their
  width: offsets are 32-bit words, table indices 16-bit words that wrap as \<^verbatim>\<open>as u16\<close> does.

  \<^bold>\<open>Bounds and fuel.\<close> The recursion of the compiler follows the syntax except for template
  segments, whose text the parser turns into new syntax; it is modelled with a depth bound,
  and C2 shows that a bound above twice the weight of the program is enough. The resolver's
  bound is computed from the program and is always enough (C3). \<open>small\<close>, the hypothesis of
  the theorems on compiled code, bounds the sizes that operands can express: below \<open>2 ^ 32\<close>
  bytes of code, at most \<open>2 ^ 15\<close> constants (bit 15 is the constant flag of declarations) and
  \<open>2 ^ 16\<close> entries in the other tables; C14 shows what happens beyond.

  \<^bold>\<open>What the code does not do.\<close> C6, C14, C17, C20, C21, C22 and C25 state behaviour that
  contradicts the program's own comments or intent.

  \<^bold>\<open>Outside the model.\<close> The parser and the \<^verbatim>\<open>regex\<close> crate are arguments (the record \<open>host\<close>), as is
  the standard library's printing of non-integral floats. Not modelled: lexer and parser,
  the tree-walking evaluator, the execution of bytecode, host builtins, tooling, and the
  agent, server and desktop crates around the language.
\<close>

unbundle bit_operations_syntax

section \<open>The compiler\<close>

text \<open>
  C1. Whatever program is given, the bytecode the compiler returns passes the verifier: it
  decodes to its end, every jump, loop and protected region points at an instruction
  boundary, every operand that indexes a table is in range (name operands at strings), and
  the position table lists the instructions, also in every nested function prototype. The
  bytecode has to stay within the sizes its operands can express.
\<close>

theorem compiled_code_verifies:
  assumes "compile h n prog = Inr c" "small c"
  shows "verify c"
  using compile_sound [OF assms] by (rule sound_verify)

theorem compiled_code_verifies_witness: "verify demo_loop_chunk"
  by (rule compiled_code_verifies [OF demo_loop_compiles demo_loop_small])

text \<open>
  C5. The recursion of the compiler ends: with a depth bound above twice the weight of the
  program the model never runs out of fuel, given that \<open>w\<close> bounds the weight of what the parser
  makes of the segments between \<^verbatim>\<open>${\<close> and \<^verbatim>\<open>}\<close> of a template literal. Such a segment is strictly
  shorter than the literal, back-quotes included, so a \<open>w\<close> that grows with the length of the
  text exists for a parser whose trees are bounded by the length of their text.
\<close>

theorem compile_terminates:
  assumes "parser_bounded h w" "2 * program_weight w prog < n"
  shows "compile h n prog \<noteq> Inl CFuel"
  using compile_nf [OF assms] by (simp add: nf_def)

text \<open>
  A parser that, as the one of the program, returns a template literal with its back-quotes for
  a text that starts with one, and reads any other text as a name; and \<^verbatim>\<open>`a${`b${x}`}`\<close>.
\<close>

definition nesting_parser :: host where
  "nesting_parser =
     \<lparr>h_parse = (\<lambda>wrap _. (let src = take (length wrap - 17) (drop 16 wrap) in
          \<lparr>prog_pos = default_pos,
           prog_body = [SLet default_pos ''__gts_tpl'' None None
             (Some (if starts_with src [CHR 0x60] then ETemplate default_pos src else EIdent default_pos src))],
           prog_errors = []\<rparr>, [])),
      h_regex_ok = (\<lambda>_. True), h_fmt = (\<lambda>_. [])\<rparr>"

definition nested_template :: program where
  "nested_template = \<lparr>prog_pos = default_pos, prog_body =
     [SExpr default_pos (ETemplate default_pos (CHR 0x60 # ''a'' @ [CHR 0x24, CHR 0x7B, CHR 0x60] @ ''b'' @
        [CHR 0x24, CHR 0x7B] @ ''x'' @ [CHR 0x7D, CHR 0x60, CHR 0x7D, CHR 0x60]))],
     prog_errors = []\<rparr>"

lemma nesting_parser_reads:
  "parse_template_expr nesting_parser src pos =
     Inr (if starts_with src [CHR 0x60] then ETemplate default_pos src else EIdent default_pos src)"
  by (simp add: parse_template_expr_def nesting_parser_def)

lemma nesting_parser_bounded: "parser_bounded nesting_parser length"
  unfolding parser_bounded_def
proof (intro allI impI)
  fix lit rest :: string and k :: nat and pos :: position and e :: expr
  assume "sublist ([CHR 0x24, CHR 0x7B] @ rest) lit" "find_template_expr_end rest = Some k"
    and "parse_template_expr nesting_parser (trim (take k rest)) pos = Inr e"
  then have "expr_weight length e \<le> 1 + length (trim (take k rest))" "length rest + 2 \<le> length lit" "k < length rest"
    using find_template_expr_end_bound [of rest k]
    by (auto simp: nesting_parser_reads dest: sublist_length_le split: if_splits)
  moreover have "length (trim (take k rest)) \<le> length (take k rest)"
    using trim_sublist by (rule sublist_length_le)
  ultimately show "expr_weight length e < length lit" by simp
qed

theorem compile_terminates_witness: "compile nesting_parser 61 nested_template \<noteq> Inl CFuel"
  by (rule compile_terminates [OF nesting_parser_bounded])
    (simp add: program_weight_def nested_template_def)

text \<open>
  C6. The resolver never fails and never panics, and what it records of a function is
  consistent: the slots of the locals are \<open>0, 1, ...\<close> in order of declaration, no name has
  two slots or two upvalues, every reference that was classified as a local or as an upvalue
  names an entry of the function's own tables; the top-level names are distinct.
\<close>

theorem resolve_program_total:
  "\<exists>rm. resolve_program prog = Inr rm \<and>
     (\<forall>k fr. rm_functions rm k = Some fr \<longrightarrow> resolution_ok fr \<and> fr_key fr = k) \<and>
     distinct (rm_top_level_names rm)"
  by (rule resolve_program_ok)

theorem resolve_program_total_witness:
  "\<exists>rm. resolve_program demo_loop = Inr rm \<and>
     (\<forall>fr. rm_functions rm (function_key_new ''f'' (here_pos 1)) \<noteq> Some fr)"
proof -
  from resolve_program_total [of demo_loop] obtain rm where "resolve_program demo_loop = Inr rm" by blast
  moreover from this have "rm_functions rm = Map.empty"
    by (auto simp: resolve_program_def demo_loop_def Let_def push_scope_def resolver_new_def
        stmts_depth_def numeral_eq_Suc resolve_reference_def resolve_binding_def
        scope_root_def local_slot_def add_reference_def finish_root_def)
  ultimately show ?thesis by simp
qed

text \<open>
  C19. No jump of a compiled program leaves the code: the target of every \<^verbatim>\<open>JUMP\<close>,
  \<^verbatim>\<open>JUMP_IF_FALSE\<close>, \<^verbatim>\<open>JUMP_IF_TRUE\<close> and \<^verbatim>\<open>LOOP\<close> of the top-level chunk is strictly below its
  end, so that execution never runs past the final \<^verbatim>\<open>RETURN\<close>.
\<close>

theorem top_level_jumps_stay_inside:
  assumes "compile h n prog = Inr c" "small c" "instrs c = Some xs"
    and "(i, op, ops) \<in> set xs" "op \<in> set ops_jump"
  shows "unat (word32_of ops) < length (code c)"
  using assms by (rule compiled_jump_inside)

theorem top_level_jumps_stay_inside_witness:
  "unat (word32_of [0, 0, 0, 18]) < length (code demo_loop_chunk)"
  by (rule top_level_jumps_stay_inside [OF demo_loop_compiles demo_loop_small demo_loop_instrs,
        where i = 3 and op = OpJumpIfFalse])
    (simp_all add: ops_jump_def)

text \<open>
  C20. The code of every compiled function prototype decodes and its last instruction is
  \<^verbatim>\<open>RETURN\<close>.
\<close>

theorem function_code_ends_with_return:
  assumes "compile_method_proto (compile_stmt h res n) rm name params body is_async return_t pos = Inr p"
    and "proto_chunk p = Some sub" "small sub"
  shows "\<exists>xs. instrs sub = Some xs \<and> xs \<noteq> [] \<and> fst (snd (last xs)) = OpReturn"
  using proto_ends_with_return [OF assms(1)] assms(2,3) by (metis option.inject)

text \<open>\<^verbatim>\<open>if (x) { return; }\<close> as the body of a function.\<close>

definition demo_body :: gblock where
  "demo_body = Block (here_pos 1)
     [SIf (here_pos 1) (EIdent (here_pos 1) ''x'') (Block (here_pos 1) [SReturn (here_pos 2) None]) None]"

definition no_functions :: resolution_map where
  "no_functions = \<lparr>rm_functions = (\<lambda>_. None), rm_top_level_names = []\<rparr>"

definition demo_body_chunk :: chunk where
  "demo_body_chunk = Chunk [46, 0, 0, 51, 0, 0, 0, 12, 0, 0, 1, 62] [OString ''x'', OUndefined]
     ((\<lambda>_. None)(KString ''x'' \<mapsto> 0, KUndefined \<mapsto> 1)) [] [] []
     [\<lparr>line_ip = 0, line_pos = here_pos 1\<rparr>, \<lparr>line_ip = 3, line_pos = here_pos 1\<rparr>,
      \<lparr>line_ip = 8, line_pos = here_pos 2\<rparr>, \<lparr>line_ip = 11, line_pos = here_pos 2\<rparr>] []"

definition demo_proto :: function_proto where
  "demo_proto = set_proto_chunk (Some demo_body_chunk)
     (proto_with_upvalues ''f'' [] demo_body False False None (here_pos 1) [])"

lemma demo_body_instrs:
  "instrs demo_body_chunk = Some
     [(0, OpLoadName, [0, 0]), (3, OpJumpIfFalse, [0, 0, 0, 12]), (8, OpConst, [0, 1]),
      (11, OpReturn, [])]"
  by (simp add: instrs_def demo_body_chunk_def layout.simps(2) decode_eval operand_width_def ops_u16_def
      ops_jump_def ops_u8_def Let_def)

lemma demo_body_compiles:
  "compile_method_proto (compile_stmt name_parser no_functions 5) no_functions ''f'' [] demo_body False
     None (here_pos 1) = Inr demo_proto"
  using matches_last_opcode_iff [OF demo_body_instrs, of OpReturn]
  by (simp add: compile_method_proto_def demo_body_def demo_body_chunk_def demo_proto_def
      loop_eval emit_eval Let_def compile_if_def compile_return_stmt_def resolution_function_def
      no_functions_def)

theorem function_code_ends_with_return_witness:
  "\<exists>xs. instrs demo_body_chunk = Some xs \<and> xs \<noteq> [] \<and> fst (snd (last xs)) = OpReturn"
  by (rule function_code_ends_with_return [OF demo_body_compiles])
    (simp_all add: demo_proto_def proto_with_upvalues_def small_def demo_body_chunk_def
      all_chunks.simps small1_def)

text \<open>
  C21. A function whose body ends with a conditional \<^verbatim>\<open>return\<close> jumps past its code: for
  \<^verbatim>\<open>if (x) { return; }\<close> the compiler emits no \<^verbatim>\<open>RETURN\<close> after the conditional, since the last
  opcode is already one, and the \<^verbatim>\<open>JUMP_IF_FALSE\<close> targets the end of the code.
\<close>

theorem conditional_return_falls_off:
  "\<exists>p sub xs i ops.
     compile_method_proto (compile_stmt name_parser no_functions 5) no_functions ''f'' [] demo_body
       False None (here_pos 1) = Inr p \<and> proto_chunk p = Some sub \<and> instrs sub = Some xs \<and>
     (i, OpJumpIfFalse, ops) \<in> set xs \<and> unat (word32_of ops) = length (code sub)"
proof (intro exI conjI)
  show "proto_chunk demo_proto = Some demo_body_chunk"
    by (simp add: demo_proto_def proto_with_upvalues_def)
  show "(3, OpJumpIfFalse, [0, 0, 0, 12]) \<in> set [(0, OpLoadName, [0, 0]),
      (3, OpJumpIfFalse, [0, 0, 0, 12]), (8, OpConst, [0, 1]), (11, OpReturn, [])]" by simp
qed (rule demo_body_compiles demo_body_instrs
    | simp add: demo_body_chunk_def word32_of_def word32_def)+

section \<open>Chunks\<close>

text \<open>
  C22. Error positions are exact: in a chunk that passes the verifier, \<^verbatim>\<open>position_at\<close> of any byte
  of the \<open>k\<close>-th instruction, its opcode or an operand byte, is the \<open>k\<close>-th position recorded.
\<close>

theorem position_of_every_byte:
  assumes "verify c" "length (code c) < 2 ^ 32" "instrs c = Some xs"
    and "k < length xs" "xs ! k = (off, op, ops)" "off \<le> ip" "ip \<le> off + operand_width op"
  shows "position_at c ip = line_pos (lines c ! k)"
  using position_in_instruction [OF verify_local [OF assms(1)] assms(2-)] .

theorem position_of_every_byte_witness:
  "position_at demo_loop_chunk 10 = here_pos 2"
proof -
  have "verify demo_loop_chunk"
    using compile_sound [OF demo_loop_compiles demo_loop_small] by (rule sound_verify)
  from position_of_every_byte [OF this _ demo_loop_instrs, of 2 8 OpJump "[0, 0, 0, 18]" 10] show ?thesis
    by (simp add: demo_loop_chunk_def operand_width_def ops_u16_def ops_jump_def)
qed

text \<open>
  C23. The constant pool interns: \<open>add_constant\<close> keeps the invariant that the index table lists
  exactly the primitive constants, and returns an index below the table's length at which the
  value itself or an equal one stands.
\<close>

theorem add_constant_interns:
  assumes "pool_inv c" "length (constants c) < 2 ^ 16" "add_constant v c = (i, c')"
  shows "pool_inv c' \<and> unat i < length (constants c') \<and>
    (constants c' ! unat i = v \<or> obj_eq (constants c' ! unat i) v)"
  using assms by (rule add_constant_pool_all)

theorem add_constant_interns_witness:
  "pool_inv (push_constant ONull (map_const_index (\<lambda>m. m(KNull := Some 0)) empty_chunk))"
  using add_constant_interns [of empty_chunk ONull 0]
  by (simp add: add_constant_def empty_chunk_def Let_def pool_inv_empty [unfolded empty_chunk_def])

text \<open>
  C24. No constant pool of a compiled program, neither the program's own nor that of any of its
  functions, holds two equal primitive constants. (Each pool has its own copy of a constant.)
\<close>

theorem compiled_constants_distinct:
  assumes "compile h n prog = Inr c" "small c" "part_of d c"
    and "i < j" "j < length (constants d)" "key_of (constants d ! i) \<noteq> None"
  shows "\<not> obj_eq (constants d ! i) (constants d ! j)"
proof (rule pool_no_duplicates [OF _ _ assms(4-6)])
  have "sound d" "small d"
    using part_all_chunks [OF assms(3)] compile_sound [OF assms(1,2)] assms(2) by (simp_all add: sound_def small_def)
  then show "pool_inv d" "length (constants d) \<le> 2 ^ 16" using sound_pool small_constants by fastforce+
qed

text \<open>\<^verbatim>\<open>x; y\<close>.\<close>

definition demo_names :: program where
  "demo_names = \<lparr>prog_pos = here_pos 1, prog_body =
     [SExpr (here_pos 1) (EIdent (here_pos 1) ''x''), SExpr (here_pos 1) (EIdent (here_pos 1) ''y'')],
     prog_errors = []\<rparr>"

definition demo_names_chunk :: chunk where
  "demo_names_chunk = Chunk [46, 0, 0, 1, 46, 0, 1, 62] [OString ''x'', OString ''y'']
     ((\<lambda>_. None)(KString ''x'' \<mapsto> 0, KString ''y'' \<mapsto> 1)) [] [] []
     [\<lparr>line_ip = 0, line_pos = here_pos 1\<rparr>, \<lparr>line_ip = 3, line_pos = here_pos 1\<rparr>,
      \<lparr>line_ip = 4, line_pos = here_pos 1\<rparr>, \<lparr>line_ip = 7, line_pos = here_pos 1\<rparr>] []"

lemma demo_names_compiles: "compile name_parser 5 demo_names = Inr demo_names_chunk"
proof -
  obtain res where "resolve_program demo_names = Inr res" using resolve_program_ok by blast
  then show ?thesis
    by (simp add: compile_def) (simp add: demo_names_def demo_names_chunk_def loop_eval emit_eval Let_def)
qed

theorem compiled_constants_distinct_witness: "\<not> obj_eq (OString ''x'') (OString ''y'')"
  using compiled_constants_distinct [OF demo_names_compiles _ part_self, of 0 1]
  by (simp add: demo_names_chunk_def small_def all_chunks.simps small1_def)

text \<open>
  C25. Patching a jump changes its four operand bytes and nothing else, and the operand then
  reads back as the target.
\<close>

theorem patched_jump_reads_back:
  assumes "unat ip + 4 \<le> length (code c)"
  shows "read_u32 (patch_jump_to ip t c) (unat ip) = Some t \<and>
    (\<forall>j. j < unat ip \<or> unat ip + 4 \<le> j \<longrightarrow> code (patch_jump_to ip t c) ! j = code c ! j) \<and>
    length (code (patch_jump_to ip t c)) = length (code c)"
  using patch_reads_back [OF assms] by simp

theorem patched_jump_reads_back_witness:
  "read_u32 (patch_jump_to 1 7 (write_u32 0 (write_op OpJump default_pos empty_chunk))) 1 = Some 7"
  using patched_jump_reads_back [of 1 "write_u32 0 (write_op OpJump default_pos empty_chunk)" 7]
  by (simp add: chunk_simps empty_chunk_def)

text \<open>
  The operand writers and readers are inverse: what \<^verbatim>\<open>write_u16\<close> and \<^verbatim>\<open>write_u32\<close> append
  reads back unchanged at the offset where it was written.
\<close>

theorem operands_round_trip:
  "read_u16 (write_u16 v c) (length (code c)) = Some v \<and>
   read_u32 (write_u32 x c) (length (code c)) = Some x"
  using read_u16_append [of "write_u16 v c" "code c" v "[]"] read_u32_append [of "write_u32 x c" "code c" x "[]"]
  by (simp add: chunk_simps)

text \<open>
  Opcodes and bytes correspond one to one: \<^verbatim>\<open>from_byte\<close> recognises exactly the
  discriminants, each as its own opcode.
\<close>

theorem opcode_round_trip: "from_byte b = Some op \<longleftrightarrow> b = op_byte op"
  by (rule from_byte_iff)

text \<open>
  C35. The operand of a declaration determines the name and whether the binding is constant,
  as long as the pool holds fewer than \<open>2 ^ 15\<close> constants.
\<close>

theorem decl_operand_determines:
  assumes "pool_inv c" "length (constants c) < 2 ^ 15"
    and "decl_name_operand name is_const c = (operand, c')"
  shows "constants c' ! unat (operand AND 0x7FFF) = OString name \<and> (operand AND 0x8000 \<noteq> 0 \<longleftrightarrow> is_const)"
  using decl_name_operand_reads_back [OF assms] by simp

theorem decl_operand_determines_witness:
  "constants (push_constant (OString ''k'') (map_const_index (\<lambda>m. m(KString ''k'' := Some 0)) empty_chunk))
     ! unat ((0x8000 :: u16) AND 0x7FFF) = OString ''k''"
  using decl_operand_determines [of empty_chunk "''k''" True "0x8000"]
  by (simp add: decl_name_operand_def add_constant_def empty_chunk_def Let_def
      pool_inv_empty [unfolded empty_chunk_def])

text \<open>
  C36. With \<open>2 ^ 15\<close> constants in the pool the flag collides with the index: a \<^verbatim>\<open>let\<close> of a new
  name gets the very operand that a \<^verbatim>\<open>const\<close> of that name gets.
\<close>

theorem decl_flag_collides:
  assumes "length (constants c) = 2 ^ 15" "const_index c (KString name) = None"
  shows "fst (decl_name_operand name False c) = fst (decl_name_operand name True c) \<and>
    fst (decl_name_operand name False c) AND 0x8000 \<noteq> 0"
  using assms by (simp add: decl_name_operand_def add_constant_def Let_def)

theorem decl_flag_collides_witness:
  "fst (decl_name_operand ''k'' False (map_constants (\<lambda>_. replicate (2 ^ 15) (ONumber 0x7FF8000000000000)) empty_chunk))
     AND 0x8000 \<noteq> 0"
  by (rule decl_flag_collides [THEN conjunct2]) (simp_all add: empty_chunk_def del: replicate.simps)

text \<open>
  \<^verbatim>\<open>matches_last_opcode\<close>, a linear decode, looks at the last instruction of the decoded
  code.
\<close>

theorem last_opcode_is_last_instruction:
  assumes "instrs c = Some xs"
  shows "matches_last_opcode c op \<longleftrightarrow> xs \<noteq> [] \<and> fst (snd (last xs)) = op"
  using assms by (rule matches_last_opcode_iff)

theorem last_opcode_is_last_instruction_witness: "matches_last_opcode demo_loop_chunk OpReturn"
  using last_opcode_is_last_instruction [OF demo_loop_instrs] by simp

section \<open>Calls and parameters\<close>

text \<open>
  The count operand of a call is decoded to what was encoded: it is accepted exactly when
  it fits in 15 bits, and then the low bits are the count and the high bit says whether there
  is a receiver.
\<close>

theorem call_count_round_trip:
  "encode_call_arg_count n has_this pos = Inr m \<longleftrightarrow>
     unat n < 2 ^ 15 \<and> m AND 0x7FFF = n \<and> (m AND 0x8000 \<noteq> 0 \<longleftrightarrow> has_this)"
  by (rule encode_call_arg_count_iff)

text \<open>
  C37. A call with \<open>2 ^ 16\<close> arguments and no spread is compiled, not rejected: the count
  wraps to 0 before it is compared with the limit, and the \<^verbatim>\<open>CALL\<close> says it has no arguments
  although all of them have been pushed.
\<close>

theorem call_count_wraps:
  assumes "length args = 2 ^ 16" "\<forall>a\<in>set args. \<not> is_spread a" "fold_res ce args c = Inr c1"
  shows "compile_call_args ce args has_this pos c =
    Inr (write_u16 (if has_this then 0x8000 else 0) (write_op OpCall pos c1))"
proof -
  have "(of_nat (length args) :: u16) = 0"
    unfolding assms(1) using word_exp_length_eq_0 [where 'a = 16] by (simp only: of_nat_power) simp
  with assms(2,3) show ?thesis by (simp add: compile_call_args_def encode_call_arg_count_def list_ex_iff)
qed

theorem call_count_wraps_witness:
  "compile_call_args (\<lambda>_. Inr) (replicate (2 ^ 16) (ENull default_pos)) False default_pos empty_chunk =
     Inr (write_u16 0 (write_op OpCall default_pos empty_chunk))"
proof -
  have "fold_res (\<lambda>_. Inr) args c = (Inr c :: cerr + chunk)" for args :: "expr list" and c
    by (induction args arbitrary: c) auto
  from call_count_wraps [OF _ _ this, of "replicate (2 ^ 16) (ENull default_pos)" False] show ?thesis
    by (simp del: replicate.simps)
qed

text \<open>
  The parameter metadata of a prototype: one slot per parameter in order, and the arity
  counts the leading parameters without default, which are all required ones before the first
  optional, defaulted or rest parameter.
\<close>

theorem parameters_of_prototype:
  "map ps_name (build_param_slots ps) = map param_name ps \<and>
   map ps_slot (build_param_slots ps) = map of_nat [0..<length ps] \<and>
   required_arity ps \<le> length ps \<and>
   list_all (\<lambda>s. \<not> ps_has_default s \<and> \<not> ps_is_rest s \<and> \<not> ps_optional s)
     (take (required_arity ps) (build_param_slots ps))"
  by (rule param_slots_facts)

section \<open>Values\<close>

text \<open>
  C38. The key under which a value is interned identifies it exactly up to the language's
  equality of values: two values with a key have the same key when and only when the source's
  \<^verbatim>\<open>PartialEq\<close> equates them, both zeros included.
\<close>

theorem intern_key_is_equality:
  assumes "key_of a = Some k"
  shows "key_of b = Some k \<longleftrightarrow> obj_eq a b"
  using assms by (rule key_of_obj_eq)

theorem intern_key_is_equality_witness:
  "key_of (ONumber 0x8000000000000000) = Some (KNumberBits 0) \<and>
   obj_eq (ONumber 0) (ONumber 0x8000000000000000)"
  using intern_key_is_equality [of "ONumber 0" "KNumberBits 0" "ONumber 0x8000000000000000"]
  by (simp add: canonical_bits_def is_nan_def f64_exp_def f64_mant_def f64_mag_def)

text \<open>
  C39. \<^verbatim>\<open>===\<close> is a partial equivalence, and it is the host's equality except on closures, of
  which no two are ever equal, not even a closure and itself.
\<close>

theorem strict_equality_laws:
  "strict_equal a b = strict_equal b a \<and>
   (strict_equal a b \<and> strict_equal b c \<longrightarrow> strict_equal a c) \<and>
   (strict_equal a b \<longleftrightarrow> obj_eq a b \<and> (\<nexists>x. a = OClosure x))"
  using strict_equal_sym strict_equal_trans strict_equal_obj_eq by blast

theorem strict_equality_laws_witness:
  "\<not> strict_equal (OClosure 3) (OClosure 3)"
  using strict_equality_laws [of "OClosure 3" "OClosure 3" "OClosure 3"] by simp

text \<open>
  NaN is not equal to itself, though it counts as true.
\<close>

theorem nan_is_truthy_and_unequal:
  assumes "is_nan x"
  shows "\<not> strict_equal (ONumber x) v \<and> is_truthy (ONumber x)"
  using assms by (auto simp: strict_equal_def f64_eq_def split: obj.splits)

theorem nan_is_truthy_and_unequal_witness: "is_truthy (ONumber 0x7FF8000000000000)"
  using nan_is_truthy_and_unequal [of "0x7FF8000000000000"]
  by (simp add: is_nan_def f64_exp_def f64_mant_def f64_mag_def)

text \<open>
  Integral numbers from \<open>2 ^ 63\<close> up to \<open>10 ^ 21\<close> all print as the largest 64-bit integer.
\<close>

theorem large_integers_print_saturated:
  assumes "\<not> is_nan n" "\<not> is_infinite n" "f64_is_integral n" "\<not> f64_neg n"
    and "2 ^ 63 \<le> f64_trunc_nat n" "f64_trunc_nat n < 10 ^ 21"
  shows "format_number fmt n = ''9223372036854775807''"
  by (rule format_number_saturates [OF assms])

text \<open>\<open>0x4415AF1D78B58C40\<close> is \<open>10 ^ 20\<close>.\<close>

theorem large_integers_print_saturated_witness:
  "format_number (\<lambda>_. []) 0x4415AF1D78B58C40 = ''9223372036854775807''"
  by (rule large_integers_print_saturated)
    (simp_all add: is_nan_def is_infinite_def f64_is_integral_def f64_exp_def f64_mant_def f64_mag_def
      f64_neg_def f64_trunc_nat_def f64_scale_def f64_signif_def)

text \<open>
  Splitting the name off an error message loses nothing: a recognised name is followed by
  a colon and a space in the message, and an unrecognised message is kept whole under
  \<^verbatim>\<open>Error\<close>.
\<close>

theorem error_name_join:
  assumes "split_error_name msg = (name, rest)"
  shows "msg = name @ '': '' @ rest \<or> (name = ''Error'' \<and> rest = msg)"
  using assms by (rule split_error_name_join)

theorem error_name_join_witness: "''TypeError: x'' = ''TypeError'' @ '': '' @ ''x''"
  using error_name_join [of "''TypeError: x''" "''TypeError''" "''x''"]
  by (simp add: split_error_name_def error_name_prefixes_def strip_prefix_def starts_with_def)

section \<open>Literals\<close>

text \<open>
  A string literal without escapes denotes the characters between its quotes.
\<close>

theorem plain_literal:
  assumes "CHR 0x5C \<notin> set s" "\<forall>c\<in>set s. \<not> is_cont c" "\<not> is_cont q"
  shows "eval_string_lit (q # s @ [q]) = Some (OString s)"
  using assms by (rule eval_plain_literal)

theorem plain_literal_witness: "eval_string_lit ''xabx'' = Some (OString ''ab'')"
  using plain_literal [of "''ab''" "CHR ''x''"] by (simp add: is_cont_def)

text \<open>
  C40. A string literal panics if its first backslash stands before a character of two or more
  bytes, wherever in the literal: the first byte is pushed as a character of its own and the next
  slice starts inside the character.
\<close>

theorem escaped_multibyte_panics:
  assumes "CHR 0x5C \<notin> set p" "is_cont b2" "192 \<le> (of_char b1 :: nat)"
  shows "eval_string_lit (q # (p @ CHR 0x5C # b1 # b2 # rest) @ [q']) = None"
  by (rule literal_of_panicking [OF unescape_first_escape [OF assms(2,3,1)]])

theorem escaped_multibyte_panics_witness:
  "eval_string_lit [CHR 0x22, CHR 0x61, CHR 0x5C, CHR 0xC3, CHR 0xA9, CHR 0x22] = None"
  using escaped_multibyte_panics [of "''a''" "CHR 0xA9" "CHR 0xC3" "CHR 0x22" "[]" "CHR 0x22"] by (simp add: is_cont_def)

text \<open>
  The scan for the end of an interpolation stops at a closing brace inside the text, so
  the segment and the rest of the template are slices of it.
\<close>

theorem template_segment_end:
  assumes "find_template_expr_end s = Some j"
  shows "j < length s \<and> s ! j = CHR 0x7D"
  using assms by (rule find_template_expr_end_bound)

theorem template_segment_end_witness: "(''a'' @ [CHR 0x7B, CHR 0x7D, CHR 0x7D]) ! 3 = CHR 0x7D"
  using template_segment_end [of "''a'' @ [CHR 0x7B, CHR 0x7D, CHR 0x7D]" 3]
  by (simp add: find_template_expr_end_def)

end
